theory Spec2Isabelle
  imports Complex_Main "HOL-Library.Word"
begin

section \<open>The Lua export plugin of Tiled (luaplugin.cpp)\<close>

text \<open>
  The plugin walks a map and drives a \<^verbatim>\<open>LuaTableWriter\<close>. The embedding keeps
  the calls made on the writer, in order, as a list of commands; a second part replays the
  commands and builds the nested tables they describe. The file is modelled as it is
  compiled: \<^verbatim>\<open>POLYGON_FORMAT_SEQUENCE\<close>, \<^verbatim>\<open>MOAI_LUA_DATA_FORMAT\<close>,
  \<^verbatim>\<open>FIRST_IMAGE\<close> and \<^verbatim>\<open>FLATTEN_INTO_PARENT\<close> are defined,
  \<^verbatim>\<open>ALL_IMAGES\<close> is not.
\<close>

subsection \<open>The map model read by the plugin\<close>

text \<open>
  \<^verbatim>\<open>Properties\<close> is a \<^verbatim>\<open>QMap<QString, QString>\<close>; the list holds its
  entries in the order its iterator visits them. Plain C++ \<^verbatim>\<open>int\<close> attributes are
  \<open>int\<close>, \<^verbatim>\<open>unsigned\<close> is \<open>32 word\<close>, \<^verbatim>\<open>unsigned short\<close> is
  \<open>16 word\<close>, \<^verbatim>\<open>qreal\<close> and \<^verbatim>\<open>float\<close> attributes are \<open>real\<close> (the
  finite values).
  A \<^verbatim>\<open>Tileset*\<close> is an address; a tileset carries its own address.
\<close>

type_synonym properties = "(string \<times> string) list"

type_synonym tileset_ptr = nat

record qcolor =
  c_valid :: bool
  c_red :: int
  c_green :: int
  c_blue :: int
  c_alpha :: int

text \<open>A cell points to a tile (its tileset and its id in the tileset) or to nothing.\<close>

record cell =
  cell_tile :: "(tileset_ptr \<times> nat) option"
  flippedHorizontally :: bool
  flippedVertically :: bool
  flippedAntiDiagonally :: bool

definition cell_isEmpty :: "cell \<Rightarrow> bool" where
  "cell_isEmpty c = (cell_tile c = None)"

datatype shape = Rectangle | Polygon | Polyline | Ellipse

record mapobject =
  obj_id :: int
  obj_name :: string
  obj_type :: string
  obj_shape :: shape
  obj_x :: real
  obj_y :: real
  obj_width :: real
  obj_height :: real
  obj_rotation :: real
  obj_cell :: cell
  obj_visible :: bool
  obj_polygon :: "(real \<times> real) list"
  obj_properties :: properties

record objectgroup =
  og_name :: string
  og_visible :: bool
  og_opacity :: real
  og_properties :: properties
  og_objects :: "mapobject list"

record frame =
  frame_tileId :: int
  frame_duration :: int

record terrain =
  ter_name :: string
  ter_imageTileId :: int
  ter_properties :: properties

text \<open>
  \<open>tile_cornerTerrainId\<close> is the accessor \<^verbatim>\<open>Tile::cornerTerrainId(int)\<close> of the map
  model; \<open>tile_size\<close> is \<^verbatim>\<open>Tile::size()\<close>, width first. A tile
  \<^verbatim>\<open>isAnimated()\<close> when its sequence of frames is not empty, and has an
  \<^verbatim>\<open>objectGroup()\<close> when the pointer is not null.
\<close>

record tile =
  tile_properties :: properties
  tile_imageSource :: string
  tile_size :: "int \<times> int"
  tile_terrain :: "32 word"
  tile_cornerTerrainId :: "nat \<Rightarrow> int"
  tile_terrainProbability :: real
  tile_objectGroup :: "objectgroup option"
  tile_frames :: "frame list"

record tileset =
  ts_addr :: tileset_ptr
  ts_name :: string
  ts_fileName :: string
  ts_tileWidth :: int
  ts_tileHeight :: int
  ts_tileSpacing :: int
  ts_margin :: int
  ts_imageSource :: string
  ts_imageWidth :: int
  ts_imageHeight :: int
  ts_transparentColor :: qcolor
  ts_tileOffset :: "int \<times> int"
  ts_properties :: properties
  ts_terrains :: "terrain list"
  ts_tiles :: "tile list"

text \<open>
  \<open>tl_cellAt\<close> is \<^verbatim>\<open>TileLayer::cellAt(x, y)\<close>. \<open>tl_usedTilesets\<close> is what
  \<^verbatim>\<open>TileLayer::usedTilesets()\<close> returns, a \<^verbatim>\<open>QSet<Tileset*>\<close>, listed in the
  order in which the set is iterated, with the tilesets the pointers lead to.
\<close>

record tilelayer =
  tl_name :: string
  tl_x :: int
  tl_y :: int
  tl_width :: int
  tl_height :: int
  tl_visible :: bool
  tl_opacity :: real
  tl_properties :: properties
  tl_cellAt :: "int \<Rightarrow> int \<Rightarrow> cell"
  tl_usedTilesets :: "tileset list"

record imagelayer =
  il_name :: string
  il_x :: int
  il_y :: int
  il_visible :: bool
  il_opacity :: real
  il_imageSource :: string
  il_transparentColor :: qcolor
  il_properties :: properties

datatype layer =
  TileLayerType tilelayer
| ObjectGroupType objectgroup
| ImageLayerType imagelayer

datatype orientation = Unknown | Orthogonal | Isometric | Staggered | Hexagonal

datatype staggeraxis = StaggerX | StaggerY

datatype staggerindex = StaggerOdd | StaggerEven

record tiledmap =
  map_orientation :: orientation
  map_width :: int
  map_height :: int
  map_tileWidth :: int
  map_tileHeight :: int
  map_nextObjectId :: int
  map_hexSideLength :: int
  map_staggerAxis :: staggeraxis
  map_staggerIndex :: staggerindex
  map_backgroundColor :: qcolor
  map_properties :: properties
  map_tilesets :: "tileset list"
  map_layers :: "layer list"

text \<open>
  What the plugin takes from outside this file and the map: whether the Qt it is built
  with has \<^verbatim>\<open>QSaveFile\<close> (\<^verbatim>\<open>QT_VERSION >= 0x050100\<close>), the translation
  of messages, the application's version string and the three name functions of the map
  model, whose bodies are not part of the plugin.
\<close>

record env =
  HAS_QSAVEFILE_SUPPORT :: bool
  tr :: "string \<Rightarrow> string"
  applicationVersion :: string
  orientationToString :: "orientation \<Rightarrow> string"
  staggerAxisToString :: "staggeraxis \<Rightarrow> string"
  staggerIndexToString :: "staggerindex \<Rightarrow> string"

subsection \<open>Calls on the table writer\<close>

text \<open>
  One constructor per overload family of \<^verbatim>\<open>LuaTableWriter\<close> that the plugin calls.
  A written value keeps the C++ type it was passed with.
\<close>

datatype lval = LInt int | LUInt "32 word" | LStr string | LBool bool | LReal real

datatype cmd =
  StartReturnTable
| StartTable
| StartTableKey string
| QuotedStartTable string
| EndTable
| KeyAndValue string lval
| QuotedKeyAndValue string string
| WValue lval
| SetSuppressNewlines bool
| PrepareNewLine
| StartDocument
| EndDocument

text \<open>
  What stops the traversal without a result: an integer division by zero, a read of a
  tile that the tileset does not have, and a cell of a tileset the GID mapper does not
  know.
\<close>

datatype error = DivisionByZero | NoSuchTile | UnregisteredTileset

type_synonym out = "error + cmd list"

definition ok :: "cmd list \<Rightarrow> out" where
  "ok cs = Inr cs"

fun seq :: "out \<Rightarrow> out \<Rightarrow> out" where
  "seq (Inl e) b = Inl e"
| "seq (Inr a) (Inl e) = Inl e"
| "seq (Inr a) (Inr b) = Inr (a @ b)"

fun seqs :: "out list \<Rightarrow> out" where
  "seqs [] = Inr []"
| "seqs (a # as) = seq a (seqs as)"

text \<open>A \<^verbatim>\<open>foreach\<close> whose body only writes.\<close>

definition each :: "('a \<Rightarrow> out) \<Rightarrow> 'a list \<Rightarrow> out" where
  "each f xs = seqs (map f xs)"

subsection \<open>Library functions the plugin calls\<close>

text \<open>\<^verbatim>\<open>QString::number\<close> and \<^verbatim>\<open>QString::arg\<close> on an integer: decimal digits.\<close>

definition digit :: "nat \<Rightarrow> char" where
  "digit n = ''0123456789'' ! (n mod 10)"

fun show_nat :: "nat \<Rightarrow> string" where
  "show_nat n = (if n < 10 then [digit n] else show_nat (n div 10) @ [digit n])"

declare show_nat.simps [simp del]

definition show_int :: "int \<Rightarrow> string" where
  "show_int i = (if i < 0 then CHR ''-'' # show_nat (nat (- i)) else show_nat (nat i))"

text \<open>\<^verbatim>\<open>QString::split("/")\<close>, which keeps empty parts, and the inverse join.\<close>

fun split_slash :: "string \<Rightarrow> string list" where
  "split_slash [] = [[]]"
| "split_slash (c # cs) =
     (if c = CHR ''/'' then [] # split_slash cs
      else (case split_slash cs of [] \<Rightarrow> [[c]] | w # ws \<Rightarrow> (c # w) # ws))"

fun join_slash :: "string list \<Rightarrow> string" where
  "join_slash [] = []"
| "join_slash [p] = p"
| "join_slash (p # q # ps) = p @ CHR ''/'' # join_slash (q # ps)"

text \<open>\<^verbatim>\<open>.split("/").takeLast()\<close>: the part after the last slash.\<close>

definition takeLast_split :: "string \<Rightarrow> string" where
  "takeLast_split s = last (split_slash s)"

fun drop_common :: "string list \<Rightarrow> string list \<Rightarrow> string list \<times> string list" where
  "drop_common (d # ds) (f # fs) = (if d = f then drop_common ds fs else (d # ds, f # fs))"
| "drop_common ds fs = (ds, fs)"

text \<open>
  \<^verbatim>\<open>QDir::relativeFilePath\<close> of Qt, for a directory and a file name that are clean
  slash-separated paths: a relative file name is returned as it is; otherwise the common
  leading parts are dropped and one \<^verbatim>\<open>..\<close> is put in front for each part of the
  directory that is left. (Qt resolves a relative directory against the working
  directory first; the working directory is not part of the model, and with a relative
  directory the file name is returned as it is.)
\<close>

definition relativeFilePath :: "string \<Rightarrow> string \<Rightarrow> string" where
  "relativeFilePath dir file =
     (if take 1 file \<noteq> ''/'' \<or> take 1 dir \<noteq> ''/'' then file
      else (case drop_common (filter (\<lambda>p. p \<noteq> []) (split_slash dir))
                             (filter (\<lambda>p. p \<noteq> []) (split_slash file)) of
              (ds, fs) \<Rightarrow> join_slash (map (\<lambda>d. ''..'') ds @ fs)))"

text \<open>\<^verbatim>\<open>QFileInfo(fileName).path()\<close>: the file name without its last part.\<close>

definition fileInfo_path :: "string \<Rightarrow> string" where
  "fileInfo_path fileName =
     (case butlast (split_slash fileName) of
        [] \<Rightarrow> ''.''
      | ps \<Rightarrow> (if join_slash ps = [] then ''/'' else join_slash ps))"

text \<open>\<^verbatim>\<open>QColor::name()\<close>: \<^verbatim>\<open>#rrggbb\<close>.\<close>

definition hex2 :: "int \<Rightarrow> string" where
  "hex2 v = [''0123456789abcdef'' ! (nat v div 16 mod 16), ''0123456789abcdef'' ! (nat v mod 16)]"

definition color_name :: "qcolor \<Rightarrow> string" where
  "color_name c = CHR ''#'' # hex2 (c_red c) @ hex2 (c_green c) @ hex2 (c_blue c)"

text \<open>C++ integer division: it truncates, and dividing by zero has no result.\<close>

definition tdiv :: "int \<Rightarrow> int \<Rightarrow> int" where
  "tdiv a b = sgn a * sgn b * (\<bar>a\<bar> div \<bar>b\<bar>)"

definition cdiv :: "int \<Rightarrow> int \<Rightarrow> error + int" where
  "cdiv a b = (if b = 0 then Inl DivisionByZero else Inr (tdiv a b))"

text \<open>
  The conversion \<^verbatim>\<open>unsigned int(d)\<close> of a \<^verbatim>\<open>double\<close>. The plugin converts
  without a test and writes what it gets. The fractional part is discarded; a truncated
  value that is an \<^verbatim>\<open>unsigned int\<close> is the result. For the other values C++ leaves
  the result open, and the compilers of the 64-bit platforms of Tiled convert to a
  64-bit integer and keep its low 32 bits: the truncated value modulo \<open>2^32\<close> (-5
  becomes 4294967291 and \<open>2^32\<close> becomes 0), and 0 when the truncated value is not a
  64-bit integer.
\<close>

definition truncate_real :: "real \<Rightarrow> int" where
  "truncate_real d = (if 0 \<le> d then \<lfloor>d\<rfloor> else \<lceil>d\<rceil>)"

definition toUInt :: "real \<Rightarrow> 32 word" where
  "toUInt d =
     (if - (2 ^ 63) \<le> truncate_real d \<and> truncate_real d < 2 ^ 63
      then word_of_int (truncate_real d) else 0)"

subsection \<open>The GID mapper and the tileset accessor\<close>

text \<open>
  Modelled from the spec: the class \<^verbatim>\<open>GidMapper\<close> is not in this file. The mapper is
  the table from first GIDs to tilesets that \<^verbatim>\<open>insert\<close> fills and \<^verbatim>\<open>clear\<close>
  empties: its keys are in ascending order, and a key holds one tileset, the one inserted
  last.
\<close>

type_synonym gidmapper = "(32 word \<times> tileset_ptr) list"

fun gm_insert :: "32 word \<Rightarrow> tileset_ptr \<Rightarrow> gidmapper \<Rightarrow> gidmapper" where
  "gm_insert g t [] = [(g, t)]"
| "gm_insert g t ((g', t') # m) =
     (if g = g' then (g, t) # m
      else if g < g' then (g, t) # (g', t') # m
      else (g', t') # gm_insert g t m)"

text \<open>
  Modelled from the spec: the lookup from a tileset to its first GID, which
  \<^verbatim>\<open>cellToGid\<close> needs; the first entry with the tileset, in key order.
\<close>

fun gm_firstGid :: "gidmapper \<Rightarrow> tileset_ptr \<Rightarrow> 32 word option" where
  "gm_firstGid [] t = None"
| "gm_firstGid ((g, t') # m) t = (if t' = t then Some g else gm_firstGid m t)"

text \<open>
  Modelled from the spec: \<^verbatim>\<open>cellToGid\<close> returns 0 if the cell is empty, otherwise the
  first GID of the cell's tileset plus the tile's local id, and fails if the tileset was
  never registered.
\<close>

definition cellToGid :: "gidmapper \<Rightarrow> cell \<Rightarrow> error + 32 word" where
  "cellToGid m c =
     (case cell_tile c of
        None \<Rightarrow> Inr 0
      | Some (t, i) \<Rightarrow>
          (case gm_firstGid m t of
             None \<Rightarrow> Inl UnregisteredTileset
           | Some g \<Rightarrow> Inr (g + of_nat i)))"

text \<open>
  Modelled from the spec: \<^verbatim>\<open>cellToGidOrigin\<close> is like \<^verbatim>\<open>cellToGid\<close> but relative
  to the tileset in use by the layer, so that ids start at 1, and returns 0 for an empty
  cell. (The plugin reads the tile of an id \<open>n\<close> at index \<open>n - 1\<close> of a tileset.)
\<close>

definition cellToGidOrigin :: "cell \<Rightarrow> 32 word" where
  "cellToGidOrigin c = (case cell_tile c of None \<Rightarrow> 0 | Some (t, i) \<Rightarrow> 1 + of_nat i)"

text \<open>
  Modelled from the spec: \<^verbatim>\<open>Tileset::tileAt\<close> reads the tileset's ordered sequence of
  tiles by local id; outside the sequence there is no tile.
\<close>

definition ts_tileAt :: "tileset \<Rightarrow> nat \<Rightarrow> tile option" where
  "ts_tileAt ts i = (if i < length (ts_tiles ts) then Some (ts_tiles ts ! i) else None)"

subsection \<open>The plugin\<close>

definition writeProperties :: "properties \<Rightarrow> cmd list" where
  "writeProperties ps =
     StartTableKey ''properties'' # map (\<lambda>(k, v). QuotedKeyAndValue k v) ps @ [EndTable]"

definition includeTile :: "tile \<Rightarrow> bool" where
  "includeTile t =
     (if tile_properties t \<noteq> [] then True
      else if tile_imageSource t \<noteq> [] then True
      else if tile_objectGroup t \<noteq> None then True
      else if tile_frames t \<noteq> [] then True
      else if tile_terrain t \<noteq> 0xFFFFFFFF then True
      else if tile_terrainProbability t \<noteq> - 1 then True
      else False)"

fun toString :: "shape \<Rightarrow> string" where
  "toString Rectangle = ''rectangle''"
| "toString Polygon = ''polygon''"
| "toString Polyline = ''polyline''"
| "toString Ellipse = ''ellipse''"

text \<open>One point of the polygon loop: two conversions, two values.\<close>

definition writePoint :: "real \<times> real \<Rightarrow> cmd list" where
  "writePoint p = [WValue (LUInt (toUInt (fst p))), WValue (LUInt (toUInt (snd p)))]"

definition writeMapObject :: "gidmapper \<Rightarrow> mapobject \<Rightarrow> out" where
  "writeMapObject gm obj =
     seqs
      [ok [StartTable,
           KeyAndValue ''name'' (LStr (obj_name obj)),
           KeyAndValue ''type'' (LStr (obj_type obj)),
           KeyAndValue ''shape'' (LStr (toString (obj_shape obj))),
           KeyAndValue ''x'' (LReal (obj_x obj)),
           KeyAndValue ''y'' (LReal (obj_y obj)),
           KeyAndValue ''width'' (LReal (obj_width obj)),
           KeyAndValue ''height'' (LReal (obj_height obj)),
           KeyAndValue ''rotation'' (LReal (obj_rotation obj))],
       (if \<not> cell_isEmpty (obj_cell obj)
        then (case cellToGid gm (obj_cell obj) of
                Inl e \<Rightarrow> Inl e
              | Inr g \<Rightarrow> ok [KeyAndValue ''gid'' (LUInt g)])
        else ok []),
       ok [KeyAndValue ''visible'' (LBool (obj_visible obj))],
       (if obj_polygon obj \<noteq> []
        then seqs
          [ok [if obj_shape obj = Polygon then StartTableKey ''polygon''
               else StartTableKey ''polyline'',
               SetSuppressNewlines True],
           ok (concat (map writePoint (obj_polygon obj))),
           ok [EndTable, SetSuppressNewlines False]]
        else ok []),
       ok (writeProperties (obj_properties obj)),
       ok [EndTable]]"

text \<open>
  \<^verbatim>\<open>writeObjectGroup(prio, writer, objectGroup, key)\<close>; the key is not read when
  \<^verbatim>\<open>MOAI_LUA_DATA_FORMAT\<close> is defined.
\<close>

definition writeObjectGroup :: "gidmapper \<Rightarrow> 16 word \<Rightarrow> objectgroup \<Rightarrow> out" where
  "writeObjectGroup gm prio og =
     seqs
      [ok ([QuotedStartTable (og_name og)]
           @ (if \<not> prio = 0 then [KeyAndValue ''prio'' (LInt (uint prio))] else [])
           @ [KeyAndValue ''type'' (LStr ''objectgroup''),
              KeyAndValue ''visible'' (LBool (og_visible og)),
              KeyAndValue ''opacity'' (LReal (og_opacity og))]
           @ writeProperties (og_properties og)
           @ [StartTableKey ''objects'']),
       each (writeMapObject gm) (og_objects og),
       ok [EndTable, EndTable]]"

definition writeTerrain :: "terrain \<Rightarrow> cmd list" where
  "writeTerrain t =
     [StartTable,
      KeyAndValue ''name'' (LStr (ter_name t)),
      KeyAndValue ''tile'' (LInt (ter_imageTileId t))]
     @ writeProperties (ter_properties t) @ [EndTable]"

definition writeFrame :: "frame \<Rightarrow> cmd list" where
  "writeFrame f =
     [StartTable,
      KeyAndValue ''tileid'' (LStr (show_int (frame_tileId f))),
      KeyAndValue ''duration'' (LStr (show_int (frame_duration f))),
      EndTable]"

text \<open>The body of the loop over the tiles of a tileset, for the tile at index \<open>i\<close>.\<close>

definition writeTile :: "string \<Rightarrow> gidmapper \<Rightarrow> nat \<Rightarrow> tile \<Rightarrow> out" where
  "writeTile dir gm i t =
     (if \<not> includeTile t then ok []
      else seqs
       [ok ([QuotedStartTable (''id = '' @ show_int (int i + 1))]
            @ (if tile_properties t \<noteq> [] then writeProperties (tile_properties t) else [])
            @ (if tile_imageSource t \<noteq> []
               then KeyAndValue ''image'' (LStr (relativeFilePath dir (tile_imageSource t)))
                    # (if \<not> (fst (tile_size t) = 0 \<and> snd (tile_size t) = 0)
                       then [KeyAndValue ''width'' (LInt (fst (tile_size t))),
                             KeyAndValue ''height'' (LInt (snd (tile_size t)))]
                       else [])
               else [])
            @ (if tile_terrain t \<noteq> 0xFFFFFFFF
               then [StartTableKey ''terrain'', SetSuppressNewlines True]
                    @ map (\<lambda>c. WValue (LInt (tile_cornerTerrainId t c))) [0..<4]
                    @ [EndTable, SetSuppressNewlines False]
               else [])
            @ (if tile_terrainProbability t \<noteq> - 1
               then [KeyAndValue ''probability'' (LReal (tile_terrainProbability t))]
               else [])),
        (case tile_objectGroup t of
           None \<Rightarrow> ok []
         | Some og \<Rightarrow> writeObjectGroup gm 0 og),
        ok (if tile_frames t \<noteq> []
            then StartTableKey ''animation'' # concat (map writeFrame (tile_frames t))
                 @ [EndTable]
            else []),
        ok [EndTable]])"

text \<open>
  \<^verbatim>\<open>writeTileset(writer, tileset, firstGid)\<close>; \<open>dir\<close> is \<^verbatim>\<open>mMapDir\<close> and \<open>gm\<close>
  is \<^verbatim>\<open>mGidMapper\<close> as it is when the function is called. The first GID is not
  written when \<^verbatim>\<open>MOAI_LUA_DATA_FORMAT\<close> is defined.
\<close>

definition writeTileset :: "string \<Rightarrow> gidmapper \<Rightarrow> tileset \<Rightarrow> 32 word \<Rightarrow> out" where
  "writeTileset dir gm ts firstGid =
     seqs
      [ok ([if ts_imageSource ts \<noteq> []
            then QuotedStartTable (takeLast_split (relativeFilePath dir (ts_imageSource ts)))
            else StartTable,
            KeyAndValue ''name'' (LStr (ts_name ts))]
           @ (if ts_fileName ts \<noteq> []
              then [KeyAndValue ''filename'' (LStr (relativeFilePath dir (ts_fileName ts)))]
              else [])
           @ [KeyAndValue ''tilewidth'' (LInt (ts_tileWidth ts)),
              KeyAndValue ''tileheight'' (LInt (ts_tileHeight ts)),
              KeyAndValue ''spacing'' (LInt (ts_tileSpacing ts)),
              KeyAndValue ''margin'' (LInt (ts_margin ts))]),
       (if ts_imageSource ts \<noteq> []
        then (case cdiv (ts_imageWidth ts) (ts_tileWidth ts) of
                Inl e \<Rightarrow> Inl e
              | Inr dw \<Rightarrow>
                  (case cdiv (ts_imageHeight ts) (ts_tileHeight ts) of
                     Inl e \<Rightarrow> Inl e
                   | Inr dh \<Rightarrow>
                       ok [KeyAndValue ''imagewidth'' (LInt (ts_imageWidth ts)),
                           KeyAndValue ''imageheight'' (LInt (ts_imageHeight ts)),
                           KeyAndValue ''deckwidth'' (LInt dw),
                           KeyAndValue ''deckheight'' (LInt dh)]))
        else ok []),
       ok ((if c_valid (ts_transparentColor ts)
            then [KeyAndValue ''transparentcolor'' (LStr (color_name (ts_transparentColor ts)))]
            else [])
           @ [KeyAndValue ''xoffset'' (LInt (fst (ts_tileOffset ts))),
              KeyAndValue ''yoffset'' (LInt (snd (ts_tileOffset ts)))]
           @ writeProperties (ts_properties ts)
           @ [StartTableKey ''terrains'']
           @ concat (map writeTerrain (ts_terrains ts))
           @ [EndTable, StartTableKey ''tiles'']),
       each (\<lambda>i. writeTile dir gm i (ts_tiles ts ! i)) [0..<length (ts_tiles ts)],
       ok [EndTable, EndTable]]"

text \<open>
  The first pass over the grid of a tile layer. \<open>specialMatch\<close> is the loop over the
  used tilesets for one cell, which leaves at the first tileset whose tile at the cell's
  id minus one has properties. \<open>specialStep\<close> is the body of the loop over \<open>x\<close>; the
  state is \<^verbatim>\<open>authorizeWriteTable\<close> and what has been written.
\<close>

fun specialMatch :: "tileset list \<Rightarrow> 32 word \<Rightarrow> error + bool" where
  "specialMatch [] tileId = Inr False"
| "specialMatch (ts # rest) tileId =
     (if tileId > 0
      then (case ts_tileAt ts (unat tileId - 1) of
              None \<Rightarrow> Inl NoSuchTile
            | Some t \<Rightarrow>
                (if tile_properties t \<noteq> [] then Inr True else specialMatch rest tileId))
      else specialMatch rest tileId)"

definition specialStep ::
  "tilelayer \<Rightarrow> int \<times> int \<Rightarrow> bool \<times> cmd list \<Rightarrow> error + bool \<times> cmd list" where
  "specialStep lay yx st =
     (case specialMatch (tl_usedTilesets lay) (cellToGidOrigin (tl_cellAt lay (snd yx) (fst yx))) of
        Inl e \<Rightarrow> Inl e
      | Inr False \<Rightarrow> Inr st
      | Inr True \<Rightarrow>
          Inr (False,
               snd st
               @ (if fst st then [StartTableKey ''specialtiles''] else [])
               @ [QuotedStartTable
                    (''y = '' @ show_int (fst yx + 1) @ '', x = '' @ show_int (snd yx + 1)),
                  KeyAndValue ''id'' (LUInt (cellToGidOrigin (tl_cellAt lay (snd yx) (fst yx)))),
                  EndTable]))"

fun specialLoop ::
  "tilelayer \<Rightarrow> (int \<times> int) list \<Rightarrow> bool \<times> cmd list \<Rightarrow> error + bool \<times> cmd list" where
  "specialLoop lay [] st = Inr st"
| "specialLoop lay (yx # rest) st =
     (case specialStep lay yx st of Inl e \<Rightarrow> Inl e | Inr st' \<Rightarrow> specialLoop lay rest st')"

text \<open>The cells in the order of the two nested loops: \<open>y\<close> outside, \<open>x\<close> inside.\<close>

definition scanOrder :: "tilelayer \<Rightarrow> (int \<times> int) list" where
  "scanOrder lay =
     concat (map (\<lambda>y. map (\<lambda>x. (y, x)) [0..tl_width lay - 1]) [0..tl_height lay - 1])"

definition writeSpecialTiles :: "tilelayer \<Rightarrow> out" where
  "writeSpecialTiles lay =
     (case specialLoop lay (scanOrder lay) (True, []) of
        Inl e \<Rightarrow> Inl e
      | Inr st \<Rightarrow> Inr (snd st @ (if \<not> fst st then [EndTable] else [])))"

text \<open>The body of the loop over \<open>y\<close> that writes the grid.\<close>

definition writeRow :: "tilelayer \<Rightarrow> int \<Rightarrow> cmd list" where
  "writeRow lay y =
     [PrepareNewLine, SetSuppressNewlines True, StartTable, WValue (LInt (y + 1))]
     @ map (\<lambda>x. WValue (LUInt (cellToGidOrigin (tl_cellAt lay x y)))) [0..tl_width lay - 1]
     @ [EndTable, SetSuppressNewlines False]"

definition writeTileLayer :: "string \<Rightarrow> 16 word \<Rightarrow> tilelayer \<Rightarrow> out" where
  "writeTileLayer dir prio lay =
     seqs
      [ok ([QuotedStartTable (tl_name lay),
            KeyAndValue ''prio'' (LInt (uint prio)),
            KeyAndValue ''type'' (LStr ''tilelayer'')]
           @ (case tl_usedTilesets lay of
                [ts] \<Rightarrow>
                  [KeyAndValue ''image''
                     (LStr (takeLast_split (relativeFilePath dir (ts_imageSource ts))))]
              | _ \<Rightarrow> [])
           @ [KeyAndValue ''x'' (LInt (tl_x lay)),
              KeyAndValue ''y'' (LInt (tl_y lay)),
              KeyAndValue ''width'' (LInt (tl_width lay)),
              KeyAndValue ''height'' (LInt (tl_height lay)),
              KeyAndValue ''visible'' (LBool (tl_visible lay)),
              KeyAndValue ''opacity'' (LReal (tl_opacity lay))]
           @ writeProperties (tl_properties lay)
           @ [KeyAndValue ''encoding'' (LStr ''lua'')]),
       writeSpecialTiles lay,
       ok ([StartTableKey ''data'']
           @ concat (map (writeRow lay) [0..tl_height lay - 1])
           @ [EndTable, EndTable])]"

definition writeImageLayer :: "string \<Rightarrow> 16 word \<Rightarrow> imagelayer \<Rightarrow> cmd list" where
  "writeImageLayer dir prio il =
     [QuotedStartTable (il_name il),
      KeyAndValue ''prio'' (LInt (uint prio)),
      KeyAndValue ''type'' (LStr ''imagelayer''),
      KeyAndValue ''x'' (LInt (il_x il)),
      KeyAndValue ''y'' (LInt (il_y il)),
      KeyAndValue ''visible'' (LBool (il_visible il)),
      KeyAndValue ''opacity'' (LReal (il_opacity il)),
      KeyAndValue ''image'' (LStr (relativeFilePath dir (il_imageSource il)))]
     @ (if c_valid (il_transparentColor il)
        then [KeyAndValue ''transparentcolor'' (LStr (color_name (il_transparentColor il)))]
        else [])
     @ writeProperties (il_properties il)
     @ [EndTable]"

text \<open>The state of a \<^verbatim>\<open>LuaPlugin\<close> object.\<close>

record plugin =
  mError :: string
  mMapDir :: string
  mGidMapper :: gidmapper

text \<open>
  The loop over the tilesets of \<^verbatim>\<open>writeMap\<close>: the state is the mapper and
  \<^verbatim>\<open>firstGid\<close>. The tileset is written, then inserted, then \<^verbatim>\<open>firstGid\<close> grows
  by the tile count.
\<close>

fun writeTilesets ::
  "string \<Rightarrow> tileset list \<Rightarrow> gidmapper \<times> 32 word \<Rightarrow> error + cmd list \<times> gidmapper \<times> 32 word" where
  "writeTilesets dir [] st = Inr ([], st)"
| "writeTilesets dir (ts # rest) st =
     (case writeTileset dir (fst st) ts (snd st) of
        Inl e \<Rightarrow> Inl e
      | Inr cs \<Rightarrow>
          (case writeTilesets dir rest
                  (gm_insert (snd st) (ts_addr ts) (fst st),
                   snd st + of_nat (length (ts_tiles ts))) of
             Inl e \<Rightarrow> Inl e
           | Inr r \<Rightarrow> Inr (cs @ fst r, snd r)))"

text \<open>The loop over the layers; \<open>prio\<close> is the \<^verbatim>\<open>unsigned short\<close> counter.\<close>

fun writeLayers :: "string \<Rightarrow> gidmapper \<Rightarrow> 16 word \<Rightarrow> layer list \<Rightarrow> out" where
  "writeLayers dir gm prio [] = Inr []"
| "writeLayers dir gm prio (l # ls) =
     seq (case l of
            TileLayerType lay \<Rightarrow> writeTileLayer dir prio lay
          | ObjectGroupType og \<Rightarrow> writeObjectGroup gm prio og
          | ImageLayerType il \<Rightarrow> ok (writeImageLayer dir prio il))
         (writeLayers dir gm (prio + 1) ls)"

text \<open>What \<^verbatim>\<open>writeMap\<close> writes before the table of tilesets.\<close>

definition writeMapHead :: "env \<Rightarrow> tiledmap \<Rightarrow> cmd list" where
  "writeMapHead e m =
     [StartReturnTable,
      KeyAndValue ''version'' (LStr ''1.1''),
      KeyAndValue ''luaversion'' (LStr ''5.1''),
      KeyAndValue ''tiledversion'' (LStr (applicationVersion e)),
      KeyAndValue ''orientation'' (LStr (orientationToString e (map_orientation m))),
      KeyAndValue ''width'' (LInt (map_width m)),
      KeyAndValue ''height'' (LInt (map_height m)),
      KeyAndValue ''cellwidth'' (LInt (map_tileWidth m)),
      KeyAndValue ''cellheight'' (LInt (map_tileHeight m)),
      KeyAndValue ''nextobjectid'' (LInt (map_nextObjectId m))]
     @ (if map_orientation m = Hexagonal
        then [KeyAndValue ''hexsidelength'' (LInt (map_hexSideLength m))] else [])
     @ (if map_orientation m = Staggered \<or> map_orientation m = Hexagonal
        then [KeyAndValue ''staggeraxis'' (LStr (staggerAxisToString e (map_staggerAxis m))),
              KeyAndValue ''staggerindex'' (LStr (staggerIndexToString e (map_staggerIndex m)))]
        else [])
     @ (if c_valid (map_backgroundColor m)
        then [StartTableKey ''backgroundcolor'',
              SetSuppressNewlines True,
              WValue (LInt (c_red (map_backgroundColor m))),
              WValue (LInt (c_green (map_backgroundColor m))),
              WValue (LInt (c_blue (map_backgroundColor m)))]
             @ (if c_alpha (map_backgroundColor m) \<noteq> 255
                then [WValue (LInt (c_alpha (map_backgroundColor m)))] else [])
             @ [EndTable, SetSuppressNewlines False]
        else [])
     @ writeProperties (map_properties m)"

text \<open>
  \<^verbatim>\<open>writeMap\<close>: the mapper is cleared, filled by the loop over the tilesets and read by
  the loop over the layers. The result is what was written and the plugin afterwards.
\<close>

definition writeMap :: "env \<Rightarrow> plugin \<Rightarrow> tiledmap \<Rightarrow> error + cmd list \<times> plugin" where
  "writeMap e p m =
     (case writeTilesets (mMapDir p) (map_tilesets m) ([], 1) of
        Inl err \<Rightarrow> Inl err
      | Inr r \<Rightarrow>
          (case writeLayers (mMapDir p) (fst (snd r)) 1 (map_layers m) of
             Inl err \<Rightarrow> Inl err
           | Inr ls \<Rightarrow>
               Inr (writeMapHead e m
                    @ [StartTableKey ''tilesets''] @ fst r
                    @ [EndTable, StartTableKey ''layers''] @ ls
                    @ [EndTable, EndTable],
                    p\<lparr>mGidMapper := fst (snd r)\<rparr>)))"

subsection \<open>Writing the file\<close>

text \<open>
  A file holds the writer calls that reached it; a fresh \<^verbatim>\<open>LuaTableWriter\<close> turns
  them into the text. What the device does during one call of \<^verbatim>\<open>write\<close> is given
  from outside: whether \<^verbatim>\<open>open\<close> succeeds, the error the file reports after the
  writing (with its \<^verbatim>\<open>errorString\<close>), what has reached the file when the writing
  stops early, and the error of \<^verbatim>\<open>commit\<close>. The temporary file of a
  \<^verbatim>\<open>QSaveFile\<close> is not part of the model.
\<close>

type_synonym filesystem = "string \<Rightarrow> cmd list option"

record device =
  dev_open :: bool
  dev_error :: "string option"
  dev_reached :: "cmd list"
  dev_commit_error :: "string option"

text \<open>
  The file object of \<^verbatim>\<open>write\<close> is a \<^verbatim>\<open>QSaveFile\<close> (\<open>atomic\<close>) or a
  \<^verbatim>\<open>QFile\<close>. Opening a \<^verbatim>\<open>QFile\<close> for writing empties the file. After the
  writer was given its calls, a \<^verbatim>\<open>QFile\<close> holds what reached it: all of them, unless
  the device reports an error; a \<^verbatim>\<open>QSaveFile\<close> has changed nothing yet, and
  \<^verbatim>\<open>commit\<close> puts all of them in place of the file or reports an error. When the
  traversal stops, what a \<^verbatim>\<open>QFile\<close> got so far stays.
\<close>

definition file_open :: "bool \<Rightarrow> device \<Rightarrow> filesystem \<Rightarrow> string \<Rightarrow> bool \<times> filesystem" where
  "file_open atomic dev fs name =
     (if dev_open dev then (True, if atomic then fs else fs(name \<mapsto> [])) else (False, fs))"

definition file_written ::
  "bool \<Rightarrow> device \<Rightarrow> filesystem \<Rightarrow> string \<Rightarrow> cmd list \<Rightarrow> filesystem" where
  "file_written atomic dev fs name cs =
     (if atomic then fs
      else fs(name \<mapsto> (case dev_error dev of None \<Rightarrow> cs | Some msg \<Rightarrow> dev_reached dev)))"

definition file_commit ::
  "device \<Rightarrow> filesystem \<Rightarrow> string \<Rightarrow> cmd list \<Rightarrow> string option \<times> filesystem" where
  "file_commit dev fs name cs =
     (case dev_commit_error dev of
        None \<Rightarrow> (None, fs(name \<mapsto> cs))
      | Some msg \<Rightarrow> (Some msg, fs))"

definition file_abandoned :: "bool \<Rightarrow> device \<Rightarrow> filesystem \<Rightarrow> string \<Rightarrow> filesystem" where
  "file_abandoned atomic dev fs name =
     (if atomic then fs else fs(name \<mapsto> dev_reached dev))"

text \<open>
  \<^verbatim>\<open>LuaPlugin::write\<close> (the name alone is a keyword of the prover). The result is
  \<open>Inr\<close> of the returned \<^verbatim>\<open>bool\<close>, or \<open>Inl\<close> when the traversal stops without
  returning; with it come the plugin and the files afterwards.
\<close>

definition LuaPlugin_write ::
  "env \<Rightarrow> device \<Rightarrow> filesystem \<Rightarrow> plugin \<Rightarrow> tiledmap \<Rightarrow> string
     \<Rightarrow> (error + bool) \<times> plugin \<times> filesystem" where
  "LuaPlugin_write e dev fs p m fileName =
     (case file_open (HAS_QSAVEFILE_SUPPORT e) dev fs fileName of
        (False, fs0) \<Rightarrow>
          (Inr False, p\<lparr>mError := tr e ''Could not open file for writing.''\<rparr>, fs0)
      | (True, fs0) \<Rightarrow>
          (case writeMap e (p\<lparr>mMapDir := fileInfo_path fileName\<rparr>) m of
             Inl err \<Rightarrow>
               (Inl err, p\<lparr>mMapDir := fileInfo_path fileName\<rparr>,
                file_abandoned (HAS_QSAVEFILE_SUPPORT e) dev fs0 fileName)
           | Inr r \<Rightarrow>
               (case dev_error dev of
                  Some msg \<Rightarrow>
                    (Inr False, (snd r)\<lparr>mError := msg\<rparr>,
                     file_written (HAS_QSAVEFILE_SUPPORT e) dev fs0 fileName
                       (StartDocument # fst r @ [EndDocument]))
                | None \<Rightarrow>
                    (if HAS_QSAVEFILE_SUPPORT e
                     then (case file_commit dev
                                  (file_written True dev fs0 fileName
                                     (StartDocument # fst r @ [EndDocument]))
                                  fileName (StartDocument # fst r @ [EndDocument]) of
                             (Some msg, fs1) \<Rightarrow> (Inr False, (snd r)\<lparr>mError := msg\<rparr>, fs1)
                           | (None, fs1) \<Rightarrow> (Inr True, snd r, fs1))
                     else (Inr True, snd r,
                           file_written False dev fs0 fileName
                             (StartDocument # fst r @ [EndDocument]))))))"

subsection \<open>The tables that a sequence of writer calls describes\<close>

text \<open>
  Modelled from the spec: the class \<^verbatim>\<open>LuaTableWriter\<close> is not in this file. A start
  call opens a table under a bare key, under a quoted key or as the next positional
  element; the end call closes the table opened last and fails when none is open; a key
  and value call adds a keyed entry, a value call a positional one. Newline suppression
  and line breaks are formatting only. The document calls need every table closed.
\<close>

datatype key = Positional | Bare string | Quoted string | Returned

datatype lua = Val lval | Tbl "(key \<times> lua) list"

type_synonym entry = "key \<times> lua"

type_synonym level = "key \<times> entry list"

text \<open>
  Modelled from the spec: the effect of one call of the writer on the tables that are
  open, the innermost first; the outermost level stands for the document.
\<close>

fun step :: "cmd \<Rightarrow> level list \<Rightarrow> level list option" where
  "step c [] = None"
| "step StartReturnTable (l # st) = Some ((Returned, []) # l # st)"
| "step StartTable (l # st) = Some ((Positional, []) # l # st)"
| "step (StartTableKey k) (l # st) = Some ((Bare k, []) # l # st)"
| "step (QuotedStartTable k) (l # st) = Some ((Quoted k, []) # l # st)"
| "step EndTable [l] = None"
| "step EndTable (l # l' # st) = Some ((fst l', snd l' @ [(fst l, Tbl (snd l))]) # st)"
| "step (KeyAndValue k v) (l # st) = Some ((fst l, snd l @ [(Bare k, Val v)]) # st)"
| "step (QuotedKeyAndValue k v) (l # st) = Some ((fst l, snd l @ [(Quoted k, Val (LStr v))]) # st)"
| "step (WValue v) (l # st) = Some ((fst l, snd l @ [(Positional, Val v)]) # st)"
| "step (SetSuppressNewlines b) (l # st) = Some (l # st)"
| "step PrepareNewLine (l # st) = Some (l # st)"
| "step StartDocument (l # st) = (if st = [] then Some [l] else None)"
| "step EndDocument (l # st) = (if st = [] then Some [l] else None)"

text \<open>The calls one after the other; \<open>None\<close> when one of them fails.\<close>

fun run :: "cmd list \<Rightarrow> level list \<Rightarrow> level list option" where
  "run [] st = Some st"
| "run (c # cs) st = (case step c st of None \<Rightarrow> None | Some st' \<Rightarrow> run cs st')"

text \<open>The entries that a sequence of calls adds to the table it is written into.\<close>

definition emitted :: "cmd list \<Rightarrow> entry list option" where
  "emitted cs = (case run cs [(Positional, [])] of Some [l] \<Rightarrow> Some (snd l) | _ \<Rightarrow> None)"

text \<open>The first entry under a key, and the keys of a table.\<close>

definition entry_at :: "key \<Rightarrow> entry list \<Rightarrow> lua option" where
  "entry_at k es = map_of es k"

definition keys_of :: "entry list \<Rightarrow> key list" where
  "keys_of es = map fst es"

text \<open>
  A sequence of calls emits entries when, replayed inside any open table, it adds exactly
  these entries to that table and leaves every enclosing table as it was.
\<close>

definition emits :: "cmd list \<Rightarrow> entry list \<Rightarrow> bool" where
  "emits cs es = (\<forall>l st. run cs (l # st) = Some ((fst l, snd l @ es) # st))"

definition is_scalar :: "entry \<Rightarrow> bool" where
  "is_scalar e = (case snd e of Val v \<Rightarrow> True | Tbl es \<Rightarrow> False)"

subsection \<open>The tables of each writer function\<close>

text \<open>
  For each writer function, the table it describes, as a term. The functions below are
  compared with the writer functions by the lemmas named \<open>\<dots>_emits\<close>.
\<close>

definition properties_entry :: "properties \<Rightarrow> entry" where
  "properties_entry ps =
     (Bare ''properties'', Tbl (map (\<lambda>kv. (Quoted (fst kv), Val (LStr (snd kv)))) ps))"

definition point_entries :: "real \<times> real \<Rightarrow> entry list" where
  "point_entries p =
     [(Positional, Val (LUInt (toUInt (fst p)))), (Positional, Val (LUInt (toUInt (snd p))))]"

definition mapObject_entries :: "gidmapper \<Rightarrow> mapobject \<Rightarrow> entry list" where
  "mapObject_entries gm obj =
     [(Bare ''name'', Val (LStr (obj_name obj))),
      (Bare ''type'', Val (LStr (obj_type obj))),
      (Bare ''shape'', Val (LStr (toString (obj_shape obj)))),
      (Bare ''x'', Val (LReal (obj_x obj))),
      (Bare ''y'', Val (LReal (obj_y obj))),
      (Bare ''width'', Val (LReal (obj_width obj))),
      (Bare ''height'', Val (LReal (obj_height obj))),
      (Bare ''rotation'', Val (LReal (obj_rotation obj)))]
     @ (case cellToGid gm (obj_cell obj) of
          Inl e \<Rightarrow> []
        | Inr g \<Rightarrow> if cell_isEmpty (obj_cell obj) then [] else [(Bare ''gid'', Val (LUInt g))])
     @ [(Bare ''visible'', Val (LBool (obj_visible obj)))]
     @ (if obj_polygon obj \<noteq> []
        then [(Bare (if obj_shape obj = Polygon then ''polygon'' else ''polyline''),
               Tbl (concat (map point_entries (obj_polygon obj))))]
        else [])
     @ [properties_entry (obj_properties obj)]"

definition objectGroup_entries :: "gidmapper \<Rightarrow> 16 word \<Rightarrow> objectgroup \<Rightarrow> entry list" where
  "objectGroup_entries gm prio og =
     (if prio = 0 then [] else [(Bare ''prio'', Val (LInt (uint prio)))])
     @ [(Bare ''type'', Val (LStr ''objectgroup'')),
        (Bare ''visible'', Val (LBool (og_visible og))),
        (Bare ''opacity'', Val (LReal (og_opacity og))),
        properties_entry (og_properties og),
        (Bare ''objects'',
         Tbl (map (\<lambda>obj. (Positional, Tbl (mapObject_entries gm obj))) (og_objects og)))]"

definition terrain_entries :: "terrain \<Rightarrow> entry list" where
  "terrain_entries t =
     [(Bare ''name'', Val (LStr (ter_name t))),
      (Bare ''tile'', Val (LInt (ter_imageTileId t))),
      properties_entry (ter_properties t)]"

definition frame_entry :: "frame \<Rightarrow> entry" where
  "frame_entry f =
     (Positional,
      Tbl [(Bare ''tileid'', Val (LStr (show_int (frame_tileId f)))),
           (Bare ''duration'', Val (LStr (show_int (frame_duration f))))])"

definition tile_key :: "nat \<Rightarrow> key" where
  "tile_key i = Quoted (''id = '' @ show_int (int i + 1))"

definition tile_table :: "string \<Rightarrow> gidmapper \<Rightarrow> tile \<Rightarrow> entry list" where
  "tile_table dir gm t =
     (if tile_properties t \<noteq> [] then [properties_entry (tile_properties t)] else [])
     @ (if tile_imageSource t \<noteq> []
        then (Bare ''image'', Val (LStr (relativeFilePath dir (tile_imageSource t))))
             # (if \<not> (fst (tile_size t) = 0 \<and> snd (tile_size t) = 0)
                then [(Bare ''width'', Val (LInt (fst (tile_size t)))),
                      (Bare ''height'', Val (LInt (snd (tile_size t))))]
                else [])
        else [])
     @ (if tile_terrain t \<noteq> 0xFFFFFFFF
        then [(Bare ''terrain'',
               Tbl (map (\<lambda>c. (Positional, Val (LInt (tile_cornerTerrainId t c)))) [0..<4]))]
        else [])
     @ (if tile_terrainProbability t \<noteq> - 1
        then [(Bare ''probability'', Val (LReal (tile_terrainProbability t)))]
        else [])
     @ (case tile_objectGroup t of
          None \<Rightarrow> []
        | Some og \<Rightarrow> [(Quoted (og_name og), Tbl (objectGroup_entries gm 0 og))])
     @ (if tile_frames t \<noteq> []
        then [(Bare ''animation'', Tbl (map frame_entry (tile_frames t)))]
        else [])"

definition tile_entries :: "string \<Rightarrow> gidmapper \<Rightarrow> nat \<Rightarrow> tile \<Rightarrow> entry list" where
  "tile_entries dir gm i t =
     (if includeTile t then [(tile_key i, Tbl (tile_table dir gm t))] else [])"

definition tileset_key :: "string \<Rightarrow> tileset \<Rightarrow> key" where
  "tileset_key dir ts =
     (if ts_imageSource ts \<noteq> []
      then Quoted (takeLast_split (relativeFilePath dir (ts_imageSource ts)))
      else Positional)"

definition tileset_scalars :: "string \<Rightarrow> tileset \<Rightarrow> entry list" where
  "tileset_scalars dir ts =
     [(Bare ''name'', Val (LStr (ts_name ts)))]
     @ (if ts_fileName ts \<noteq> []
        then [(Bare ''filename'', Val (LStr (relativeFilePath dir (ts_fileName ts))))]
        else [])
     @ [(Bare ''tilewidth'', Val (LInt (ts_tileWidth ts))),
        (Bare ''tileheight'', Val (LInt (ts_tileHeight ts))),
        (Bare ''spacing'', Val (LInt (ts_tileSpacing ts))),
        (Bare ''margin'', Val (LInt (ts_margin ts)))]
     @ (if ts_imageSource ts \<noteq> []
        then [(Bare ''imagewidth'', Val (LInt (ts_imageWidth ts))),
              (Bare ''imageheight'', Val (LInt (ts_imageHeight ts))),
              (Bare ''deckwidth'', Val (LInt (tdiv (ts_imageWidth ts) (ts_tileWidth ts)))),
              (Bare ''deckheight'', Val (LInt (tdiv (ts_imageHeight ts) (ts_tileHeight ts))))]
        else [])
     @ (if c_valid (ts_transparentColor ts)
        then [(Bare ''transparentcolor'', Val (LStr (color_name (ts_transparentColor ts))))]
        else [])
     @ [(Bare ''xoffset'', Val (LInt (fst (ts_tileOffset ts)))),
        (Bare ''yoffset'', Val (LInt (snd (ts_tileOffset ts))))]"

definition tiles_entries :: "string \<Rightarrow> gidmapper \<Rightarrow> tileset \<Rightarrow> entry list" where
  "tiles_entries dir gm ts =
     concat (map (\<lambda>i. tile_entries dir gm i (ts_tiles ts ! i)) [0..<length (ts_tiles ts)])"

definition tileset_table :: "string \<Rightarrow> gidmapper \<Rightarrow> tileset \<Rightarrow> entry list" where
  "tileset_table dir gm ts =
     tileset_scalars dir ts
     @ [properties_entry (ts_properties ts),
        (Bare ''terrains'',
         Tbl (map (\<lambda>t. (Positional, Tbl (terrain_entries t))) (ts_terrains ts))),
        (Bare ''tiles'', Tbl (tiles_entries dir gm ts))]"

text \<open>The cells for which the first pass over a tile layer writes an entry.\<close>

definition special_hit :: "tilelayer \<Rightarrow> int \<times> int \<Rightarrow> bool" where
  "special_hit lay yx =
     (specialMatch (tl_usedTilesets lay) (cellToGidOrigin (tl_cellAt lay (snd yx) (fst yx)))
      = Inr True)"

definition special_key :: "int \<times> int \<Rightarrow> key" where
  "special_key yx = Quoted (''y = '' @ show_int (fst yx + 1) @ '', x = '' @ show_int (snd yx + 1))"

definition special_entry :: "tilelayer \<Rightarrow> int \<times> int \<Rightarrow> entry" where
  "special_entry lay yx =
     (special_key yx,
      Tbl [(Bare ''id'', Val (LUInt (cellToGidOrigin (tl_cellAt lay (snd yx) (fst yx)))))])"

text \<open>The calls of the first pass for one cell that is written.\<close>

definition special_cmds :: "tilelayer \<Rightarrow> int \<times> int \<Rightarrow> cmd list" where
  "special_cmds lay yx =
     [QuotedStartTable (''y = '' @ show_int (fst yx + 1) @ '', x = '' @ show_int (snd yx + 1)),
      KeyAndValue ''id'' (LUInt (cellToGidOrigin (tl_cellAt lay (snd yx) (fst yx)))),
      EndTable]"

definition special_entries :: "tilelayer \<Rightarrow> entry list" where
  "special_entries lay =
     (if filter (special_hit lay) (scanOrder lay) = [] then []
      else [(Bare ''specialtiles'',
             Tbl (map (special_entry lay) (filter (special_hit lay) (scanOrder lay))))])"

definition row_entry :: "tilelayer \<Rightarrow> int \<Rightarrow> entry" where
  "row_entry lay y =
     (Positional,
      Tbl ((Positional, Val (LInt (y + 1)))
           # map (\<lambda>x. (Positional, Val (LUInt (cellToGidOrigin (tl_cellAt lay x y)))))
               [0..tl_width lay - 1]))"

definition tileLayer_scalars :: "string \<Rightarrow> 16 word \<Rightarrow> tilelayer \<Rightarrow> entry list" where
  "tileLayer_scalars dir prio lay =
     [(Bare ''prio'', Val (LInt (uint prio))),
      (Bare ''type'', Val (LStr ''tilelayer''))]
     @ (case tl_usedTilesets lay of
          [ts] \<Rightarrow>
            [(Bare ''image'',
              Val (LStr (takeLast_split (relativeFilePath dir (ts_imageSource ts)))))]
        | _ \<Rightarrow> [])
     @ [(Bare ''x'', Val (LInt (tl_x lay))),
        (Bare ''y'', Val (LInt (tl_y lay))),
        (Bare ''width'', Val (LInt (tl_width lay))),
        (Bare ''height'', Val (LInt (tl_height lay))),
        (Bare ''visible'', Val (LBool (tl_visible lay))),
        (Bare ''opacity'', Val (LReal (tl_opacity lay)))]"

definition tileLayer_table :: "string \<Rightarrow> 16 word \<Rightarrow> tilelayer \<Rightarrow> entry list" where
  "tileLayer_table dir prio lay =
     tileLayer_scalars dir prio lay
     @ [properties_entry (tl_properties lay),
        (Bare ''encoding'', Val (LStr ''lua''))]
     @ special_entries lay
     @ [(Bare ''data'', Tbl (map (row_entry lay) [0..tl_height lay - 1]))]"

definition imageLayer_scalars :: "string \<Rightarrow> 16 word \<Rightarrow> imagelayer \<Rightarrow> entry list" where
  "imageLayer_scalars dir prio il =
     [(Bare ''prio'', Val (LInt (uint prio))),
      (Bare ''type'', Val (LStr ''imagelayer'')),
      (Bare ''x'', Val (LInt (il_x il))),
      (Bare ''y'', Val (LInt (il_y il))),
      (Bare ''visible'', Val (LBool (il_visible il))),
      (Bare ''opacity'', Val (LReal (il_opacity il))),
      (Bare ''image'', Val (LStr (relativeFilePath dir (il_imageSource il))))]
     @ (if c_valid (il_transparentColor il)
        then [(Bare ''transparentcolor'', Val (LStr (color_name (il_transparentColor il))))]
        else [])"

definition layer_entry :: "string \<Rightarrow> gidmapper \<Rightarrow> 16 word \<Rightarrow> layer \<Rightarrow> entry" where
  "layer_entry dir gm prio l =
     (case l of
        TileLayerType lay \<Rightarrow> (Quoted (tl_name lay), Tbl (tileLayer_table dir prio lay))
      | ObjectGroupType og \<Rightarrow> (Quoted (og_name og), Tbl (objectGroup_entries gm prio og))
      | ImageLayerType il \<Rightarrow>
          (Quoted (il_name il),
           Tbl (imageLayer_scalars dir prio il @ [properties_entry (il_properties il)])))"

fun layers_entries :: "string \<Rightarrow> gidmapper \<Rightarrow> 16 word \<Rightarrow> layer list \<Rightarrow> entry list" where
  "layers_entries dir gm prio [] = []"
| "layers_entries dir gm prio (l # ls) =
     layer_entry dir gm prio l # layers_entries dir gm (prio + 1) ls"

fun tilesets_entries :: "string \<Rightarrow> tileset list \<Rightarrow> gidmapper \<times> 32 word \<Rightarrow> entry list" where
  "tilesets_entries dir [] st = []"
| "tilesets_entries dir (ts # rest) st =
     (tileset_key dir ts, Tbl (tileset_table dir (fst st) ts))
     # tilesets_entries dir rest
         (gm_insert (snd st) (ts_addr ts) (fst st), snd st + of_nat (length (ts_tiles ts)))"

definition backgroundcolor_entries :: "qcolor \<Rightarrow> entry list" where
  "backgroundcolor_entries c =
     (if c_valid c
      then [(Bare ''backgroundcolor'',
             Tbl ([(Positional, Val (LInt (c_red c))),
                   (Positional, Val (LInt (c_green c))),
                   (Positional, Val (LInt (c_blue c)))]
                  @ (if c_alpha c \<noteq> 255 then [(Positional, Val (LInt (c_alpha c)))] else [])))]
      else [])"

definition map_scalars :: "env \<Rightarrow> tiledmap \<Rightarrow> entry list" where
  "map_scalars e m =
     [(Bare ''version'', Val (LStr ''1.1'')),
      (Bare ''luaversion'', Val (LStr ''5.1'')),
      (Bare ''tiledversion'', Val (LStr (applicationVersion e))),
      (Bare ''orientation'', Val (LStr (orientationToString e (map_orientation m)))),
      (Bare ''width'', Val (LInt (map_width m))),
      (Bare ''height'', Val (LInt (map_height m))),
      (Bare ''cellwidth'', Val (LInt (map_tileWidth m))),
      (Bare ''cellheight'', Val (LInt (map_tileHeight m))),
      (Bare ''nextobjectid'', Val (LInt (map_nextObjectId m)))]
     @ (if map_orientation m = Hexagonal
        then [(Bare ''hexsidelength'', Val (LInt (map_hexSideLength m)))] else [])
     @ (if map_orientation m = Staggered \<or> map_orientation m = Hexagonal
        then [(Bare ''staggeraxis'', Val (LStr (staggerAxisToString e (map_staggerAxis m)))),
              (Bare ''staggerindex'', Val (LStr (staggerIndexToString e (map_staggerIndex m))))]
        else [])"

definition map_table :: "env \<Rightarrow> plugin \<Rightarrow> tiledmap \<Rightarrow> gidmapper \<Rightarrow> entry list" where
  "map_table e p m gm =
     map_scalars e m @ backgroundcolor_entries (map_backgroundColor m)
     @ [properties_entry (map_properties m),
        (Bare ''tilesets'', Tbl (tilesets_entries (mMapDir p) (map_tilesets m) ([], 1))),
        (Bare ''layers'', Tbl (layers_entries (mMapDir p) gm 1 (map_layers m)))]"

subsection \<open>First GIDs as the specification words them\<close>



subsection \<open>The inputs on which the traversal completes\<close>

text \<open>
  The traversal stops in three places only. An object with a cell needs the cell's
  tileset in the mapper. A tileset with an image needs a tile width and a tile height
  other than 0. The first pass over a tile layer reads, for the id of a cell, the tile at
  the id minus one of one used tileset after the other, up to the first whose tile has
  properties; it must not come to a tileset that has no such tile.
\<close>

definition object_ok :: "gidmapper \<Rightarrow> mapobject \<Rightarrow> bool" where
  "object_ok gm obj =
     (case cell_tile (obj_cell obj) of
        None \<Rightarrow> True
      | Some ai \<Rightarrow> gm_firstGid gm (fst ai) \<noteq> None)"

definition group_ok :: "gidmapper \<Rightarrow> objectgroup \<Rightarrow> bool" where
  "group_ok gm og = list_all (object_ok gm) (og_objects og)"

definition tile_ok :: "gidmapper \<Rightarrow> tile \<Rightarrow> bool" where
  "tile_ok gm t = (case tile_objectGroup t of None \<Rightarrow> True | Some og \<Rightarrow> group_ok gm og)"

definition tileset_ok :: "gidmapper \<Rightarrow> tileset \<Rightarrow> bool" where
  "tileset_ok gm ts =
     ((ts_imageSource ts = [] \<or> (ts_tileWidth ts \<noteq> 0 \<and> ts_tileHeight ts \<noteq> 0))
      \<and> list_all (tile_ok gm) (ts_tiles ts))"

fun reads_missing :: "tileset list \<Rightarrow> nat \<Rightarrow> bool" where
  "reads_missing [] k = False"
| "reads_missing (ts # rest) k =
     (if k < length (ts_tiles ts)
      then tile_properties (ts_tiles ts ! k) = [] \<and> reads_missing rest k
      else True)"

definition cell_ok :: "tilelayer \<Rightarrow> cell \<Rightarrow> bool" where
  "cell_ok lay c =
     (cellToGidOrigin c = 0
      \<or> \<not> reads_missing (tl_usedTilesets lay) (unat (cellToGidOrigin c) - 1))"

definition tilelayer_ok :: "tilelayer \<Rightarrow> bool" where
  "tilelayer_ok lay =
     list_all (\<lambda>yx. cell_ok lay (tl_cellAt lay (snd yx) (fst yx))) (scanOrder lay)"

definition layer_ok :: "gidmapper \<Rightarrow> layer \<Rightarrow> bool" where
  "layer_ok gm l =
     (case l of
        TileLayerType lay \<Rightarrow> tilelayer_ok lay
      | ObjectGroupType og \<Rightarrow> group_ok gm og
      | ImageLayerType il \<Rightarrow> True)"

text \<open>
  The state of the loop over the tilesets, the mapper and the counter, after one more
  tileset and after a list of tilesets.
\<close>

definition next_state :: "tileset \<Rightarrow> gidmapper \<times> 32 word \<Rightarrow> gidmapper \<times> 32 word" where
  "next_state ts st =
     (gm_insert (snd st) (ts_addr ts) (fst st), snd st + of_nat (length (ts_tiles ts)))"

fun loop_state :: "tileset list \<Rightarrow> gidmapper \<times> 32 word \<Rightarrow> gidmapper \<times> 32 word" where
  "loop_state [] st = st"
| "loop_state (ts # rest) st = loop_state rest (next_state ts st)"

fun tilesets_ok :: "tileset list \<Rightarrow> gidmapper \<times> 32 word \<Rightarrow> bool" where
  "tilesets_ok [] st = True"
| "tilesets_ok (ts # rest) st = (tileset_ok (fst st) ts \<and> tilesets_ok rest (next_state ts st))"

definition map_ok :: "tiledmap \<Rightarrow> bool" where
  "map_ok m =
     (tilesets_ok (map_tilesets m) ([], 1)
      \<and> list_all (layer_ok (fst (loop_state (map_tilesets m) ([], 1)))) (map_layers m))"

text \<open>A device on which nothing fails.\<close>

definition device_ok :: "device \<Rightarrow> bool" where
  "device_ok dev = (dev_open dev \<and> dev_error dev = None \<and> dev_commit_error dev = None)"

subsection \<open>Concrete inputs\<close>

definition example_empty_cell :: cell where
  "example_empty_cell =
     \<lparr>cell_tile = None, flippedHorizontally = False, flippedVertically = False,
      flippedAntiDiagonally = False\<rparr>"

text \<open>A rectangle at (10, 20) of size (30, 40), not rotated, without a cell.\<close>

definition example_rectangle :: mapobject where
  "example_rectangle =
     \<lparr>obj_id = 1, obj_name = ''box'', obj_type = [], obj_shape = Rectangle,
      obj_x = 10, obj_y = 20, obj_width = 30, obj_height = 40, obj_rotation = 0,
      obj_cell = example_empty_cell, obj_visible = True, obj_polygon = [],
      obj_properties = []\<rparr>"

text \<open>A polygon with the points (0, 0), (5, 0), (5, 5).\<close>

definition example_polygon :: mapobject where
  "example_polygon =
     example_rectangle\<lparr>obj_shape := Polygon, obj_polygon := [(0, 0), (5, 0), (5, 5)]\<rparr>"

text \<open>A polygon with a point left of the object's origin: (0, 0), (-5, 0), (0, 5).\<close>

definition example_polygon_left :: mapobject where
  "example_polygon_left =
     example_rectangle\<lparr>obj_shape := Polygon, obj_polygon := [(0, 0), (- 5, 0), (0, 5)]\<rparr>"

definition example_env :: env where
  "example_env =
     \<lparr>HAS_QSAVEFILE_SUPPORT = True, tr = (\<lambda>s. s), applicationVersion = ''0.12'',
      orientationToString = (\<lambda>ori. ''orthogonal''),
      staggerAxisToString = (\<lambda>a. ''y''), staggerIndexToString = (\<lambda>i. ''odd'')\<rparr>"

definition example_plugin :: plugin where
  "example_plugin = \<lparr>mError = [], mMapDir = ''/maps'', mGidMapper = []\<rparr>"

definition no_color :: qcolor where
  "no_color = \<lparr>c_valid = False, c_red = 0, c_green = 0, c_blue = 0, c_alpha = 255\<rparr>"

text \<open>An orthogonal map without tilesets and layers, with an opaque background colour.\<close>

definition example_map_opaque :: tiledmap where
  "example_map_opaque =
     \<lparr>map_orientation = Orthogonal, map_width = 2, map_height = 1, map_tileWidth = 32,
      map_tileHeight = 32, map_nextObjectId = 1, map_hexSideLength = 0,
      map_staggerAxis = StaggerY, map_staggerIndex = StaggerOdd,
      map_backgroundColor =
        \<lparr>c_valid = True, c_red = 255, c_green = 200, c_blue = 100, c_alpha = 255\<rparr>,
      map_properties = [], map_tilesets = [], map_layers = []\<rparr>"

text \<open>The coordinates whose conversion to \<^verbatim>\<open>unsigned int\<close> is defined.\<close>

definition in_uint_range :: "real \<Rightarrow> bool" where
  "in_uint_range d = (0 \<le> truncate_real d \<and> truncate_real d < 2 ^ 32)"

text \<open>The entries of the one table that a writer function has written.\<close>

definition written_table :: "out \<Rightarrow> entry list" where
  "written_table r =
     (case r of
        Inl e \<Rightarrow> []
      | Inr cs \<Rightarrow> (case emitted cs of Some [(k, Tbl es)] \<Rightarrow> es | _ \<Rightarrow> []))"

text \<open>A tile without properties, image, object group, animation, terrain or probability.\<close>

definition plain_tile :: tile where
  "plain_tile =
     \<lparr>tile_properties = [], tile_imageSource = [], tile_size = (0, 0),
      tile_terrain = 0xFFFFFFFF, tile_cornerTerrainId = (\<lambda>c. - 1),
      tile_terrainProbability = - 1, tile_objectGroup = None, tile_frames = []\<rparr>"

text \<open>A tileset at address 7 with one plain tile and no image.\<close>

definition example_tileset :: tileset where
  "example_tileset =
     \<lparr>ts_addr = 7, ts_name = ''ground'', ts_fileName = [], ts_tileWidth = 32,
      ts_tileHeight = 32, ts_tileSpacing = 0, ts_margin = 0, ts_imageSource = [],
      ts_imageWidth = 0, ts_imageHeight = 0, ts_transparentColor = no_color,
      ts_tileOffset = (0, 0), ts_properties = [], ts_terrains = [],
      ts_tiles = [plain_tile]\<rparr>"

definition example_tile_cell :: cell where
  "example_tile_cell = example_empty_cell\<lparr>cell_tile := Some (7, 0)\<rparr>"

text \<open>
  A tile layer of width 2 and height 1 whose cells are the tile of the tileset above
  (GID 1) and the empty cell (GID 0).
\<close>

definition example_layer :: tilelayer where
  "example_layer =
     \<lparr>tl_name = ''floor'', tl_x = 0, tl_y = 0, tl_width = 2, tl_height = 1,
      tl_visible = True, tl_opacity = 1, tl_properties = [],
      tl_cellAt = (\<lambda>x y. if x = 0 \<and> y = 0 then example_tile_cell else example_empty_cell),
      tl_usedTilesets = [example_tileset]\<rparr>"

text \<open>A tileset at address 8 with three tiles: a plain one, one with a property, one with
  a terrain probability.\<close>

definition example_tileset_three :: tileset where
  "example_tileset_three =
     example_tileset
       \<lparr>ts_addr := 8, ts_name := ''walls'',
        ts_tiles := [plain_tile,
                     plain_tile\<lparr>tile_properties := [(''solid'', ''true'')]\<rparr>,
                     plain_tile\<lparr>tile_terrainProbability := 1 / 2\<rparr>]\<rparr>"

text \<open>
  A cell of a tile layer is covered when it is empty or its tile is a tile of one of the
  tilesets that the layer reports as used. The source tile of a cell is the tile at the
  cell's local id in the cell's tileset.
\<close>

definition cell_covered :: "tilelayer \<Rightarrow> cell \<Rightarrow> bool" where
  "cell_covered lay c =
     (case cell_tile c of
        None \<Rightarrow> True
      | Some ai \<Rightarrow>
          list_ex (\<lambda>ts. ts_addr ts = fst ai \<and> snd ai < length (ts_tiles ts))
            (tl_usedTilesets lay))"

definition source_tile_has_properties :: "tilelayer \<Rightarrow> cell \<Rightarrow> bool" where
  "source_tile_has_properties lay c =
     (case cell_tile c of
        None \<Rightarrow> False
      | Some ai \<Rightarrow>
          (case filter (\<lambda>ts. ts_addr ts = fst ai) (tl_usedTilesets lay) of
             [] \<Rightarrow> False
           | ts # rest \<Rightarrow> tile_properties (ts_tiles ts ! snd ai) \<noteq> []))"

text \<open>A tileset at address 9 whose only tile has a property.\<close>

definition example_tileset_solid :: tileset where
  "example_tileset_solid =
     example_tileset
       \<lparr>ts_addr := 9, ts_name := ''solid'',
        ts_tiles := [plain_tile\<lparr>tile_properties := [(''solid'', ''true'')]\<rparr>]\<rparr>"

text \<open>
  A tile layer of width 2 and height 1 that uses two tilesets: its first cell is the
  plain tile of the tileset at address 7, its second cell the tile of the tileset at
  address 9.
\<close>

definition example_layer_mixed :: tilelayer where
  "example_layer_mixed =
     example_layer
       \<lparr>tl_cellAt := (\<lambda>x y. if x = 0 \<and> y = 0 then example_tile_cell
                            else if x = 1 \<and> y = 0
                              then example_empty_cell\<lparr>cell_tile := Some (9, 0)\<rparr>
                              else example_empty_cell),
        tl_usedTilesets := [example_tileset, example_tileset_solid]\<rparr>"

text \<open>The layer of the first example with the tileset whose tile has a property.\<close>

definition example_layer_solid :: tilelayer where
  "example_layer_solid =
     example_layer
       \<lparr>tl_cellAt := (\<lambda>x y. if x = 0 \<and> y = 0
                              then example_empty_cell\<lparr>cell_tile := Some (9, 0)\<rparr>
                              else example_empty_cell),
        tl_usedTilesets := [example_tileset_solid]\<rparr>"

definition example_terrain :: terrain where
  "example_terrain = \<lparr>ter_name = ''grass'', ter_imageTileId = 0, ter_properties = []\<rparr>"

definition example_imagelayer :: imagelayer where
  "example_imagelayer =
     \<lparr>il_name = ''sky'', il_x = 0, il_y = 0, il_visible = True, il_opacity = 1,
      il_imageSource = ''/maps/img/sky.png'', il_transparentColor = no_color,
      il_properties = []\<rparr>"

text \<open>The opaque example map with the image layer, whose image is \<^verbatim>\<open>/maps/img/sky.png\<close>.\<close>

definition example_map_image :: tiledmap where
  "example_map_image = example_map_opaque\<lparr>map_layers := [ImageLayerType example_imagelayer]\<rparr>"

text \<open>A device on which everything succeeds, and one that reports an error after two
  calls have reached the file.\<close>

definition ok_device :: device where
  "ok_device =
     \<lparr>dev_open = True, dev_error = None, dev_reached = [], dev_commit_error = None\<rparr>"

definition failing_device :: device where
  "failing_device =
     \<lparr>dev_open = True, dev_error = Some ''No space left on device'',
      dev_reached = [StartDocument, StartReturnTable], dev_commit_error = None\<rparr>"

text \<open>Files among which \<^verbatim>\<open>/maps/a.lua\<close> holds an earlier, empty document.\<close>

definition example_files :: filesystem where
  "example_files = (\<lambda>name. None)(''/maps/a.lua'' \<mapsto> [StartDocument, EndDocument])"

text \<open>The rectangle as a tile object: its cell is tile 0 of the tileset at address 7.\<close>

definition example_tile_object :: mapobject where
  "example_tile_object = example_rectangle\<lparr>obj_name := ''crate'', obj_cell := example_tile_cell\<rparr>"

text \<open>An object group with the polygon that reaches left of its origin and the tile object.\<close>

definition example_group_left :: objectgroup where
  "example_group_left =
     \<lparr>og_name = ''shapes'', og_visible = True, og_opacity = 1, og_properties = [],
      og_objects = [example_polygon_left, example_tile_object]\<rparr>"

text \<open>
  A tileset at address 8 with seven tiles: a plain one, and one for each reason to write
  a tile: a property, an image, an object group, an animation, a terrain, a terrain
  probability.
\<close>

definition example_tileset_kinds :: tileset where
  "example_tileset_kinds =
     example_tileset
       \<lparr>ts_addr := 8, ts_name := ''kinds'',
        ts_tiles := [plain_tile,
                     plain_tile\<lparr>tile_properties := [(''solid'', ''true'')]\<rparr>,
                     plain_tile\<lparr>tile_imageSource := ''/maps/img/tree.png'', tile_size := (32, 64)\<rparr>,
                     plain_tile\<lparr>tile_objectGroup := Some example_group_left\<rparr>,
                     plain_tile\<lparr>tile_frames := [\<lparr>frame_tileId = 0, frame_duration = 100\<rparr>]\<rparr>,
                     plain_tile\<lparr>tile_terrain := 0, tile_cornerTerrainId := (\<lambda>c. 0)\<rparr>,
                     plain_tile\<lparr>tile_terrainProbability := 1 / 2\<rparr>]\<rparr>"

text \<open>
  A map with the two tilesets at the addresses 7 and 8, the tile layer, the object group
  and the image layer; its background colour is opaque. The same map with a translucent
  background colour and without a background colour.
\<close>

definition example_map_full :: tiledmap where
  "example_map_full =
     example_map_opaque
       \<lparr>map_tilesets := [example_tileset, example_tileset_kinds],
        map_layers := [TileLayerType example_layer, ObjectGroupType example_group_left,
                       ImageLayerType example_imagelayer]\<rparr>"

definition example_map_translucent :: tiledmap where
  "example_map_translucent =
     example_map_full
       \<lparr>map_backgroundColor :=
          \<lparr>c_valid = True, c_red = 255, c_green = 200, c_blue = 100, c_alpha = 128\<rparr>\<rparr>"

definition example_map_no_color :: tiledmap where
  "example_map_no_color = example_map_full\<lparr>map_backgroundColor := no_color\<rparr>"



text \<open>
  A tile layer of width 2 and height 1 that uses the tileset at address 7, which has one
  tile, and the tileset at address 8, which has three: its first cell is the third tile
  of the tileset at address 8.
\<close>

definition example_layer_third :: tilelayer where
  "example_layer_third =
     example_layer
       \<lparr>tl_cellAt := (\<lambda>x y. if x = 0 \<and> y = 0
                              then example_empty_cell\<lparr>cell_tile := Some (8, 2)\<rparr>
                              else example_empty_cell),
        tl_usedTilesets := [example_tileset, example_tileset_three]\<rparr>"

text \<open>The map with the tileset of one tile, the tileset of three tiles and this layer.\<close>

definition example_map_third :: tiledmap where
  "example_map_third =
     example_map_opaque
       \<lparr>map_tilesets := [example_tileset, example_tileset_three],
        map_layers := [TileLayerType example_layer_third]\<rparr>"

section \<open>Verification\<close>

subsection \<open>Replaying calls\<close>

lemma run_append:
  "run (a @ b) st = (case run a st of None \<Rightarrow> None | Some st' \<Rightarrow> run b st')"
  by (induction a arbitrary: st) (auto split: option.splits)

lemma emits_run: "emits a es \<Longrightarrow> run (a @ b) (l # st) = run b ((fst l, snd l @ es) # st)"
  by (cases l) (simp add: emits_def run_append)

lemma emits_Nil: "emits [] []"
  by (simp add: emits_def)

lemma emits_append: "emits a x \<Longrightarrow> emits b y \<Longrightarrow> emits (a @ b) (x @ y)"
  by (simp add: emits_def run_append)

lemma emits_emitted: "emits cs es \<Longrightarrow> emitted cs = Some es"
  by (simp add: emits_def emitted_def)

lemma emits_concat:
  "(\<And>x. x \<in> set xs \<Longrightarrow> emits (f x) (g x)) \<Longrightarrow> emits (concat (map f xs)) (concat (map g xs))"
  by (induction xs) (auto simp: emits_Nil intro: emits_append)

lemma emits_concat_single:
  "(\<And>x. x \<in> set xs \<Longrightarrow> emits (f x) [g x]) \<Longrightarrow> emits (concat (map f xs)) (map g xs)"
  using emits_concat [of xs f "\<lambda>x. [g x]"] by simp

lemma emits_values:
  "emits (map (\<lambda>x. WValue (f x)) xs) (map (\<lambda>x. (Positional, Val (f x))) xs)"
proof (induction xs)
  case Nil
  show ?case by (simp add: emits_Nil)
next
  case (Cons x xs)
  have "emits [WValue (f x)] [(Positional, Val (f x))]" by (simp add: emits_def)
  from emits_append [OF this Cons] show ?case by simp
qed

subsection \<open>Sequencing of fallible writers\<close>

lemma seq_Inr: "seq a b = Inr cs \<longleftrightarrow> (\<exists>x y. a = Inr x \<and> b = Inr y \<and> cs = x @ y)"
  by (cases a; cases b) auto

lemma each_Nil: "each f [] = Inr []"
  by (simp add: each_def)

lemma each_Cons: "each f (x # xs) = seq (f x) (each f xs)"
  by (simp add: each_def)

lemma emits_each:
  "(\<And>x c. x \<in> set xs \<Longrightarrow> f x = Inr c \<Longrightarrow> emits c (g x)) \<Longrightarrow> each f xs = Inr cs
     \<Longrightarrow> emits cs (concat (map g xs))"
proof (induction xs arbitrary: cs)
  case Nil
  then show ?case by (simp add: each_Nil emits_Nil)
next
  case (Cons x xs)
  from Cons.prems(2) obtain c cs' where c: "f x = Inr c" and cs': "each f xs = Inr cs'"
    and cs: "cs = c @ cs'"
    by (auto simp: each_Cons seq_Inr)
  have "emits c (g x)" using Cons.prems(1) c by simp
  moreover have "emits cs' (concat (map g xs))" using Cons.IH Cons.prems(1) cs' by simp
  ultimately show ?case unfolding cs by (simp add: emits_append)
qed

lemma emits_each_single:
  "(\<And>x c. x \<in> set xs \<Longrightarrow> f x = Inr c \<Longrightarrow> emits c [g x]) \<Longrightarrow> each f xs = Inr cs
     \<Longrightarrow> emits cs (map g xs)"
  using emits_each [of xs f "\<lambda>x. [g x]" cs] by simp

subsection \<open>Each writer function describes its table\<close>

lemma emits_writeProperties: "emits (writeProperties ps) [properties_entry ps]"
proof -
  have "emits (map (\<lambda>(k, v). QuotedKeyAndValue k v) ps)
          (map (\<lambda>kv. (Quoted (fst kv), Val (LStr (snd kv)))) ps)"
  proof (induction ps)
    case Nil
    show ?case by (simp add: emits_Nil)
  next
    case (Cons p ps)
    have "emits [QuotedKeyAndValue (fst p) (snd p)] [(Quoted (fst p), Val (LStr (snd p)))]"
      by (simp add: emits_def)
    from emits_append [OF this Cons] show ?case by (simp add: case_prod_beta)
  qed
  then show ?thesis
    by (simp add: emits_def writeProperties_def properties_entry_def run_append)
qed

lemma emits_writePoint: "emits (writePoint p) (point_entries p)"
  by (simp add: writePoint_def point_entries_def emits_def)

lemma writeMapObject_emits:
  assumes "writeMapObject gm obj = Inr cs"
  shows "emits cs [(Positional, Tbl (mapObject_entries gm obj))]"
proof -
  define gpart where "gpart =
    (if \<not> cell_isEmpty (obj_cell obj)
     then (case cellToGid gm (obj_cell obj) of
             Inl e \<Rightarrow> Inl e
           | Inr g \<Rightarrow> ok [KeyAndValue ''gid'' (LUInt g)])
     else ok [])"
  define front where "front =
    [StartTable,
     KeyAndValue ''name'' (LStr (obj_name obj)),
     KeyAndValue ''type'' (LStr (obj_type obj)),
     KeyAndValue ''shape'' (LStr (toString (obj_shape obj))),
     KeyAndValue ''x'' (LReal (obj_x obj)),
     KeyAndValue ''y'' (LReal (obj_y obj)),
     KeyAndValue ''width'' (LReal (obj_width obj)),
     KeyAndValue ''height'' (LReal (obj_height obj)),
     KeyAndValue ''rotation'' (LReal (obj_rotation obj))]"
  from assms obtain gcs where g: "gpart = Inr gcs"
    by (auto simp: writeMapObject_def gpart_def seq_Inr)
  have eg: "emits gcs (case cellToGid gm (obj_cell obj) of
          Inl e \<Rightarrow> []
        | Inr g \<Rightarrow> if cell_isEmpty (obj_cell obj) then [] else [(Bare ''gid'', Val (LUInt g))])"
    using g
    by (auto simp: gpart_def ok_def emits_def cellToGid_def cell_isEmpty_def
        split: sum.splits if_splits option.splits)
  show ?thesis
  proof (cases "obj_polygon obj = []")
    case True
    with assms g have cs: "cs = front @ gcs @
           [KeyAndValue ''visible'' (LBool (obj_visible obj))]
           @ writeProperties (obj_properties obj) @ [EndTable]"
      by (auto simp: writeMapObject_def gpart_def front_def seq_Inr ok_def)
    show ?thesis unfolding cs emits_def front_def
      by (simp add: emits_run [OF eg] emits_run [OF emits_writeProperties]
          mapObject_entries_def True)
  next
    case False
    define pcs where "pcs = concat (map writePoint (obj_polygon obj))"
    from False assms g have cs: "cs = front @ gcs @
           [KeyAndValue ''visible'' (LBool (obj_visible obj)),
            if obj_shape obj = Polygon then StartTableKey ''polygon''
            else StartTableKey ''polyline'',
            SetSuppressNewlines True] @ pcs @ [EndTable, SetSuppressNewlines False]
            @ writeProperties (obj_properties obj) @ [EndTable]"
      by (auto simp: writeMapObject_def gpart_def front_def pcs_def seq_Inr ok_def)
    have ep: "emits pcs (concat (map point_entries (obj_polygon obj)))"
      unfolding pcs_def by (rule emits_concat) (rule emits_writePoint)
    show ?thesis unfolding cs emits_def front_def
      by (simp add: emits_run [OF eg] emits_run [OF ep] emits_run [OF emits_writeProperties]
          mapObject_entries_def False)
  qed
qed

lemma writeObjectGroup_emits:
  assumes "writeObjectGroup gm prio og = Inr cs"
  shows "emits cs [(Quoted (og_name og), Tbl (objectGroup_entries gm prio og))]"
proof -
  from assms obtain ocs where o: "each (writeMapObject gm) (og_objects og) = Inr ocs"
    and cs: "cs = ([QuotedStartTable (og_name og)]
           @ (if \<not> prio = 0 then [KeyAndValue ''prio'' (LInt (uint prio))] else [])
           @ [KeyAndValue ''type'' (LStr ''objectgroup''),
              KeyAndValue ''visible'' (LBool (og_visible og)),
              KeyAndValue ''opacity'' (LReal (og_opacity og))]
           @ writeProperties (og_properties og)
           @ [StartTableKey ''objects'']) @ ocs @ [EndTable, EndTable]"
    by (auto simp: writeObjectGroup_def seq_Inr ok_def)
  have eo: "emits ocs (map (\<lambda>obj. (Positional, Tbl (mapObject_entries gm obj))) (og_objects og))"
    using o by (rule emits_each_single [rotated]) (rule writeMapObject_emits)
  show ?thesis unfolding cs emits_def
    by (simp add: emits_run [OF eo] emits_run [OF emits_writeProperties]
        objectGroup_entries_def)
qed

lemma emits_writeTerrain: "emits (writeTerrain t) [(Positional, Tbl (terrain_entries t))]"
  unfolding emits_def writeTerrain_def
  by (simp add: emits_run [OF emits_writeProperties] terrain_entries_def)

lemma emits_writeFrame: "emits (writeFrame f) [frame_entry f]"
  by (simp add: emits_def writeFrame_def frame_entry_def)

lemma writeTile_emits:
  assumes "writeTile dir gm i t = Inr cs"
  shows "emits cs (tile_entries dir gm i t)"
proof (cases "includeTile t")
  case False
  with assms show ?thesis by (simp add: writeTile_def tile_entries_def ok_def emits_Nil)
next
  case True
  define opart where "opart =
    (case tile_objectGroup t of None \<Rightarrow> ok [] | Some og \<Rightarrow> writeObjectGroup gm 0 og)"
  define front where "front =
    [QuotedStartTable (''id = '' @ show_int (int i + 1))]
    @ (if tile_properties t \<noteq> [] then writeProperties (tile_properties t) else [])
    @ (if tile_imageSource t \<noteq> []
       then KeyAndValue ''image'' (LStr (relativeFilePath dir (tile_imageSource t)))
            # (if \<not> (fst (tile_size t) = 0 \<and> snd (tile_size t) = 0)
               then [KeyAndValue ''width'' (LInt (fst (tile_size t))),
                     KeyAndValue ''height'' (LInt (snd (tile_size t)))]
               else [])
       else [])
    @ (if tile_terrain t \<noteq> 0xFFFFFFFF
       then [StartTableKey ''terrain'', SetSuppressNewlines True]
            @ map (\<lambda>c. WValue (LInt (tile_cornerTerrainId t c))) [0..<4]
            @ [EndTable, SetSuppressNewlines False]
       else [])
    @ (if tile_terrainProbability t \<noteq> - 1
       then [KeyAndValue ''probability'' (LReal (tile_terrainProbability t))]
       else [])"
  define rear where "rear =
    (if tile_frames t \<noteq> []
     then StartTableKey ''animation'' # concat (map writeFrame (tile_frames t)) @ [EndTable]
     else [])"
  from assms True obtain ocs where o: "opart = Inr ocs"
    and cs: "cs = front @ ocs @ rear @ [EndTable]"
    by (auto simp: writeTile_def opart_def front_def rear_def seq_Inr ok_def)
  have eo: "emits ocs (case tile_objectGroup t of
          None \<Rightarrow> []
        | Some og \<Rightarrow> [(Quoted (og_name og), Tbl (objectGroup_entries gm 0 og))])"
    using o by (auto simp: opart_def ok_def emits_Nil writeObjectGroup_emits split: option.splits)
  have ef: "emits (concat (map writeFrame (tile_frames t))) (map frame_entry (tile_frames t))"
    by (rule emits_concat_single) (rule emits_writeFrame)
  have eb: "emits rear (if tile_frames t \<noteq> []
        then [(Bare ''animation'', Tbl (map frame_entry (tile_frames t)))]
        else [])"
    unfolding emits_def rear_def by (simp add: emits_run [OF ef])
  show ?thesis unfolding cs emits_def front_def
    by (simp add: emits_run [OF eo] emits_run [OF eb] emits_run [OF emits_writeProperties]
        emits_run [OF emits_values] tile_entries_def tile_table_def tile_key_def True)
qed

lemma writeTileset_emits:
  assumes "writeTileset dir gm ts firstGid = Inr cs"
  shows "emits cs [(tileset_key dir ts, Tbl (tileset_table dir gm ts))]"
proof -
  define ipart where "ipart =
    (if ts_imageSource ts \<noteq> []
     then (case cdiv (ts_imageWidth ts) (ts_tileWidth ts) of
             Inl e \<Rightarrow> Inl e
           | Inr dw \<Rightarrow>
               (case cdiv (ts_imageHeight ts) (ts_tileHeight ts) of
                  Inl e \<Rightarrow> Inl e
                | Inr dh \<Rightarrow>
                    ok [KeyAndValue ''imagewidth'' (LInt (ts_imageWidth ts)),
                        KeyAndValue ''imageheight'' (LInt (ts_imageHeight ts)),
                        KeyAndValue ''deckwidth'' (LInt dw),
                        KeyAndValue ''deckheight'' (LInt dh)]))
     else ok [])"
  define front where "front =
    [if ts_imageSource ts \<noteq> []
     then QuotedStartTable (takeLast_split (relativeFilePath dir (ts_imageSource ts)))
     else StartTable,
     KeyAndValue ''name'' (LStr (ts_name ts))]
    @ (if ts_fileName ts \<noteq> []
       then [KeyAndValue ''filename'' (LStr (relativeFilePath dir (ts_fileName ts)))]
       else [])
    @ [KeyAndValue ''tilewidth'' (LInt (ts_tileWidth ts)),
       KeyAndValue ''tileheight'' (LInt (ts_tileHeight ts)),
       KeyAndValue ''spacing'' (LInt (ts_tileSpacing ts)),
       KeyAndValue ''margin'' (LInt (ts_margin ts))]"
  define middle where "middle =
    (if c_valid (ts_transparentColor ts)
     then [KeyAndValue ''transparentcolor'' (LStr (color_name (ts_transparentColor ts)))]
     else [])
    @ [KeyAndValue ''xoffset'' (LInt (fst (ts_tileOffset ts))),
       KeyAndValue ''yoffset'' (LInt (snd (ts_tileOffset ts)))]
    @ writeProperties (ts_properties ts)
    @ [StartTableKey ''terrains'']
    @ concat (map writeTerrain (ts_terrains ts))
    @ [EndTable, StartTableKey ''tiles'']"
  from assms obtain ics tcs where i: "ipart = Inr ics"
    and t: "each (\<lambda>i. writeTile dir gm i (ts_tiles ts ! i)) [0..<length (ts_tiles ts)] = Inr tcs"
    and cs: "cs = front @ ics @ middle @ tcs @ [EndTable, EndTable]"
    by (auto simp: writeTileset_def ipart_def front_def middle_def seq_Inr ok_def)
  have ei: "emits ics (if ts_imageSource ts \<noteq> []
        then [(Bare ''imagewidth'', Val (LInt (ts_imageWidth ts))),
              (Bare ''imageheight'', Val (LInt (ts_imageHeight ts))),
              (Bare ''deckwidth'', Val (LInt (tdiv (ts_imageWidth ts) (ts_tileWidth ts)))),
              (Bare ''deckheight'', Val (LInt (tdiv (ts_imageHeight ts) (ts_tileHeight ts))))]
        else [])"
    using i
    by (auto simp: ipart_def ok_def cdiv_def emits_def split: if_splits sum.splits)
  have et: "emits tcs (tiles_entries dir gm ts)"
    unfolding tiles_entries_def using t
    by (rule emits_each [rotated]) (rule writeTile_emits)
  have er: "emits (concat (map writeTerrain (ts_terrains ts)))
      (map (\<lambda>t. (Positional, Tbl (terrain_entries t))) (ts_terrains ts))"
    by (rule emits_concat_single) (rule emits_writeTerrain)
  show ?thesis unfolding cs emits_def front_def middle_def
    by (simp add: emits_run [OF ei] emits_run [OF et] emits_run [OF er]
        emits_run [OF emits_writeProperties] tileset_table_def tileset_scalars_def
        tileset_key_def)
qed

lemma specialLoop_result:
  "specialLoop lay yxs st = Inr st' \<Longrightarrow>
     fst st' = (fst st \<and> filter (special_hit lay) yxs = [])
     \<and> snd st' = snd st
         @ (if fst st \<and> filter (special_hit lay) yxs \<noteq> [] then [StartTableKey ''specialtiles'']
            else [])
         @ concat (map (special_cmds lay) (filter (special_hit lay) yxs))"
proof (induction yxs arbitrary: st)
  case Nil
  then show ?case by simp
next
  case (Cons yx yxs)
  from Cons.prems obtain st1 where s1: "specialStep lay yx st = Inr st1"
    and l: "specialLoop lay yxs st1 = Inr st'"
    by (auto split: sum.splits)
  note ih = Cons.IH [OF l]
  show ?case
  proof (cases "special_hit lay yx")
    case True
    with s1 have "st1 = (False, snd st
               @ (if fst st then [StartTableKey ''specialtiles''] else [])
               @ special_cmds lay yx)"
      by (auto simp: specialStep_def special_hit_def special_cmds_def split: sum.splits)
    with ih True show ?thesis by simp
  next
    case False
    with s1 have "st1 = st"
      by (auto simp: specialStep_def special_hit_def split: sum.splits bool.splits)
    with ih False show ?thesis by simp
  qed
qed

lemma emits_special_cmds: "emits (special_cmds lay yx) [special_entry lay yx]"
  by (simp add: emits_def special_cmds_def special_entry_def special_key_def)

lemma writeSpecialTiles_emits:
  assumes "writeSpecialTiles lay = Inr cs"
  shows "emits cs (special_entries lay)"
proof -
  define hits where "hits = filter (special_hit lay) (scanOrder lay)"
  from assms obtain st where l: "specialLoop lay (scanOrder lay) (True, []) = Inr st"
    and cs: "cs = snd st @ (if \<not> fst st then [EndTable] else [])"
    by (auto simp: writeSpecialTiles_def split: sum.splits)
  from specialLoop_result [OF l]
  have st: "fst st = (hits = [])"
    "snd st = (if hits \<noteq> [] then [StartTableKey ''specialtiles''] else [])
       @ concat (map (special_cmds lay) hits)"
    by (simp_all add: hits_def)
  have eh: "emits (concat (map (special_cmds lay) hits)) (map (special_entry lay) hits)"
    by (rule emits_concat_single) (rule emits_special_cmds)
  show ?thesis
  proof (cases "hits = []")
    case True
    then show ?thesis using st cs by (simp add: special_entries_def hits_def emits_Nil)
  next
    case False
    then have "cs = StartTableKey ''specialtiles''
        # concat (map (special_cmds lay) hits) @ [EndTable]"
      using st cs by simp
    then show ?thesis using False unfolding emits_def
      by (simp add: emits_run [OF eh] special_entries_def hits_def [symmetric])
  qed
qed

lemma emits_writeRow: "emits (writeRow lay y) [row_entry lay y]"
  unfolding emits_def writeRow_def
  by (simp add: emits_run [OF emits_values] row_entry_def)

lemma writeTileLayer_emits:
  assumes "writeTileLayer dir prio lay = Inr cs"
  shows "emits cs [(Quoted (tl_name lay), Tbl (tileLayer_table dir prio lay))]"
proof -
  define front where "front =
    [QuotedStartTable (tl_name lay),
     KeyAndValue ''prio'' (LInt (uint prio)),
     KeyAndValue ''type'' (LStr ''tilelayer'')]
    @ (case tl_usedTilesets lay of
         [ts] \<Rightarrow>
           [KeyAndValue ''image''
              (LStr (takeLast_split (relativeFilePath dir (ts_imageSource ts))))]
       | _ \<Rightarrow> [])
    @ [KeyAndValue ''x'' (LInt (tl_x lay)),
       KeyAndValue ''y'' (LInt (tl_y lay)),
       KeyAndValue ''width'' (LInt (tl_width lay)),
       KeyAndValue ''height'' (LInt (tl_height lay)),
       KeyAndValue ''visible'' (LBool (tl_visible lay)),
       KeyAndValue ''opacity'' (LReal (tl_opacity lay))]
    @ writeProperties (tl_properties lay)
    @ [KeyAndValue ''encoding'' (LStr ''lua'')]"
  from assms obtain scs where s: "writeSpecialTiles lay = Inr scs"
    and cs: "cs = front @ scs @ [StartTableKey ''data'']
           @ concat (map (writeRow lay) [0..tl_height lay - 1])
           @ [EndTable, EndTable]"
    by (auto simp: writeTileLayer_def front_def seq_Inr ok_def)
  note es = writeSpecialTiles_emits [OF s]
  have er: "emits (concat (map (writeRow lay) [0..tl_height lay - 1]))
      (map (row_entry lay) [0..tl_height lay - 1])"
    by (rule emits_concat_single) (rule emits_writeRow)
  show ?thesis unfolding cs emits_def front_def
    by (simp add: emits_run [OF es] emits_run [OF er] emits_run [OF emits_writeProperties]
        tileLayer_table_def tileLayer_scalars_def split: list.splits)
qed

lemma emits_writeImageLayer:
  "emits (writeImageLayer dir prio il)
     [(Quoted (il_name il),
       Tbl (imageLayer_scalars dir prio il @ [properties_entry (il_properties il)]))]"
  unfolding emits_def writeImageLayer_def
  by (simp add: emits_run [OF emits_writeProperties] imageLayer_scalars_def)

lemma writeLayers_emits:
  "writeLayers dir gm prio ls = Inr cs \<Longrightarrow> emits cs (layers_entries dir gm prio ls)"
proof (induction ls arbitrary: prio cs)
  case Nil
  then show ?case by (simp add: emits_Nil)
next
  case (Cons l ls)
  from Cons.prems obtain c cs' where
    c: "(case l of
            TileLayerType lay \<Rightarrow> writeTileLayer dir prio lay
          | ObjectGroupType og \<Rightarrow> writeObjectGroup gm prio og
          | ImageLayerType il \<Rightarrow> ok (writeImageLayer dir prio il)) = Inr c"
    and cs': "writeLayers dir gm (prio + 1) ls = Inr cs'" and cs: "cs = c @ cs'"
    by (auto simp: seq_Inr)
  have "emits c [layer_entry dir gm prio l]"
    using c
    by (cases l)
      (auto simp: layer_entry_def ok_def writeTileLayer_emits writeObjectGroup_emits
        emits_writeImageLayer)
  from emits_append [OF this Cons.IH [OF cs']] show ?case by (simp add: cs)
qed

lemma writeTilesets_emits:
  "writeTilesets dir tss st = Inr r \<Longrightarrow> emits (fst r) (tilesets_entries dir tss st)"
proof (induction tss arbitrary: st r)
  case Nil
  then show ?case by (auto simp: emits_Nil)
next
  case (Cons ts tss)
  from Cons.prems obtain c r' where c: "writeTileset dir (fst st) ts (snd st) = Inr c"
    and r': "writeTilesets dir tss
                  (gm_insert (snd st) (ts_addr ts) (fst st),
                   snd st + of_nat (length (ts_tiles ts))) = Inr r'"
    and r: "r = (c @ fst r', snd r')"
    by (auto split: sum.splits)
  from emits_append [OF writeTileset_emits [OF c] Cons.IH [OF r']]
  show ?case by (simp add: r)
qed

lemma emits_backgroundcolor:
  "emits (if c_valid c
        then [StartTableKey ''backgroundcolor'',
              SetSuppressNewlines True,
              WValue (LInt (c_red c)),
              WValue (LInt (c_green c)),
              WValue (LInt (c_blue c))]
             @ (if c_alpha c \<noteq> 255 then [WValue (LInt (c_alpha c))] else [])
             @ [EndTable, SetSuppressNewlines False]
        else []) (backgroundcolor_entries c)"
  by (simp add: emits_def backgroundcolor_entries_def)

text \<open>The head of the map: everything up to the properties, inside the returned table.\<close>

lemma run_writeMapHead:
  "run (writeMapHead e m @ rest) (l # st) =
     run rest ((Returned, map_scalars e m @ backgroundcolor_entries (map_backgroundColor m)
                 @ [properties_entry (map_properties m)]) # l # st)"
proof -
  define sc where "sc =
    (if map_orientation m = Hexagonal
     then [KeyAndValue ''hexsidelength'' (LInt (map_hexSideLength m))] else [])
    @ (if map_orientation m = Staggered \<or> map_orientation m = Hexagonal
       then [KeyAndValue ''staggeraxis'' (LStr (staggerAxisToString e (map_staggerAxis m))),
             KeyAndValue ''staggerindex'' (LStr (staggerIndexToString e (map_staggerIndex m)))]
       else [])"
  have esc: "emits sc
     ((if map_orientation m = Hexagonal
        then [(Bare ''hexsidelength'', Val (LInt (map_hexSideLength m)))] else [])
     @ (if map_orientation m = Staggered \<or> map_orientation m = Hexagonal
        then [(Bare ''staggeraxis'', Val (LStr (staggerAxisToString e (map_staggerAxis m)))),
              (Bare ''staggerindex'', Val (LStr (staggerIndexToString e (map_staggerIndex m))))]
        else []))"
    by (simp add: emits_def sc_def)
  show ?thesis
    unfolding writeMapHead_def sc_def [symmetric]
    by (simp add: emits_run [OF esc] emits_run [OF emits_backgroundcolor]
        emits_run [OF emits_writeProperties] map_scalars_def)
qed

lemma writeMap_emits:
  assumes "writeMap e p m = Inr r"
  shows "emits (fst r) [(Returned, Tbl (map_table e p m (mGidMapper (snd r))))]"
proof -
  from assms obtain t ls where t: "writeTilesets (mMapDir p) (map_tilesets m) ([], 1) = Inr t"
    and ls: "writeLayers (mMapDir p) (fst (snd t)) 1 (map_layers m) = Inr ls"
    and r: "r = (writeMapHead e m
                    @ [StartTableKey ''tilesets''] @ fst t
                    @ [EndTable, StartTableKey ''layers''] @ ls
                    @ [EndTable, EndTable],
                    p\<lparr>mGidMapper := fst (snd t)\<rparr>)"
    by (auto simp: writeMap_def split: sum.splits)
  note et = writeTilesets_emits [OF t]
  note el = writeLayers_emits [OF ls]
  show ?thesis unfolding r emits_def
    by (simp add: run_writeMapHead emits_run [OF et] emits_run [OF el] map_table_def)
qed

subsection \<open>Looking up keys\<close>

lemma entry_at_append:
  "entry_at k (xs @ ys) = (case entry_at k xs of None \<Rightarrow> entry_at k ys | Some v \<Rightarrow> Some v)"
  unfolding entry_at_def by (simp add: map_add_def)

lemma entry_at_Cons:
  "entry_at k (x # xs) = (if fst x = k then Some (snd x) else entry_at k xs)"
  by (cases x) (simp add: entry_at_def)

lemma entry_at_Nil: "entry_at k [] = None"
  by (simp add: entry_at_def)

lemma entry_at_None: "k \<notin> set (keys_of es) \<Longrightarrow> entry_at k es = None"
  by (simp add: entry_at_def keys_of_def map_of_eq_None_iff)

subsection \<open>When the traversal completes\<close>

text \<open>
  Each writer function returns exactly on the inputs that its predicate describes; on the
  others it stops.
\<close>

lemma seq_complete: "(\<exists>cs. seq a b = Inr cs) = ((\<exists>x. a = Inr x) \<and> (\<exists>y. b = Inr y))"
  by (cases a; cases b) auto

lemma each_complete: "(\<exists>cs. each f xs = Inr cs) = list_all (\<lambda>x. \<exists>c. f x = Inr c) xs"
  by (induction xs) (simp_all add: each_Nil each_Cons seq_complete)

lemma writeMapObject_complete: "(\<exists>cs. writeMapObject gm obj = Inr cs) = object_ok gm obj"
  by (auto simp: writeMapObject_def object_ok_def cellToGid_def cell_isEmpty_def seq_Inr ok_def
      split: option.splits)

lemma writeMapObject_stops:
  "\<not> object_ok gm obj \<Longrightarrow> writeMapObject gm obj = Inl UnregisteredTileset"
  by (auto simp: writeMapObject_def object_ok_def cellToGid_def cell_isEmpty_def ok_def
      split: option.splits)

lemma writeObjectGroup_complete:
  "(\<exists>cs. writeObjectGroup gm prio og = Inr cs) = group_ok gm og"
  using each_complete [of "writeMapObject gm" "og_objects og"]
  by (simp add: writeObjectGroup_def group_ok_def seq_Inr ok_def writeMapObject_complete)

lemma writeTile_complete: "(\<exists>cs. writeTile dir gm i t = Inr cs) = tile_ok gm t"
proof (cases "tile_objectGroup t")
  case None
  then show ?thesis by (simp add: writeTile_def tile_ok_def seq_Inr ok_def)
next
  case (Some og)
  then have "includeTile t" by (simp add: includeTile_def)
  with Some show ?thesis
    using writeObjectGroup_complete [of gm 0 og]
    by (simp add: writeTile_def tile_ok_def seq_Inr ok_def)
qed

lemma list_all_nth_upt: "list_all (\<lambda>i. P (xs ! i)) [0..<length xs] = list_all P xs"
  by (auto simp: list_all_iff all_set_conv_all_nth)

lemma writeTileset_complete:
  "(\<exists>cs. writeTileset dir gm ts g = Inr cs) = tileset_ok gm ts"
proof -
  have t: "(\<exists>cs. each (\<lambda>i. writeTile dir gm i (ts_tiles ts ! i)) [0..<length (ts_tiles ts)]
              = Inr cs) = list_all (tile_ok gm) (ts_tiles ts)"
    using list_all_nth_upt [of "tile_ok gm" "ts_tiles ts"]
    by (simp add: each_complete writeTile_complete)
  show ?thesis
    using t
    by (auto simp: writeTileset_def tileset_ok_def seq_Inr ok_def cdiv_def split: sum.splits)
qed

lemma specialMatch_zero: "specialMatch tss 0 = Inr False"
  by (induction tss) simp_all

lemma specialMatch_complete:
  "(\<exists>b. specialMatch tss g = Inr b) = (g = 0 \<or> \<not> reads_missing tss (unat g - 1))"
proof (cases "g = 0")
  case True
  then show ?thesis by (auto simp: specialMatch_zero)
next
  case False
  then have p: "0 < g" by (simp add: word_greater_zero_iff)
  have "(\<exists>b. specialMatch tss g = Inr b) = (\<not> reads_missing tss (unat g - 1))"
    using p by (induction tss) (auto simp: ts_tileAt_def)
  with False show ?thesis by simp
qed

lemma specialStep_complete:
  "(\<exists>st'. specialStep lay yx st = Inr st') = cell_ok lay (tl_cellAt lay (snd yx) (fst yx))"
  using specialMatch_complete [of "tl_usedTilesets lay"
      "cellToGidOrigin (tl_cellAt lay (snd yx) (fst yx))"]
  by (auto simp: specialStep_def cell_ok_def split: sum.splits bool.splits)

lemma specialLoop_complete:
  "(\<exists>st'. specialLoop lay yxs st = Inr st')
     = list_all (\<lambda>yx. cell_ok lay (tl_cellAt lay (snd yx) (fst yx))) yxs"
proof (induction yxs arbitrary: st)
  case Nil
  show ?case by simp
next
  case (Cons yx yxs)
  show ?case
  proof (cases "specialStep lay yx st")
    case (Inl e)
    with specialStep_complete [of lay yx st] show ?thesis by simp
  next
    case (Inr st1)
    with specialStep_complete [of lay yx st] Cons [of st1] show ?thesis by auto
  qed
qed

lemma writeTileLayer_complete:
  "(\<exists>cs. writeTileLayer dir prio lay = Inr cs) = tilelayer_ok lay"
proof -
  have "(\<exists>cs. writeSpecialTiles lay = Inr cs) = tilelayer_ok lay"
    using specialLoop_complete [of lay "scanOrder lay" "(True, [])"]
    by (auto simp: writeSpecialTiles_def tilelayer_ok_def split: sum.splits)
  then show ?thesis by (simp add: writeTileLayer_def seq_Inr ok_def)
qed

lemma writeLayers_complete:
  "(\<exists>cs. writeLayers dir gm prio ls = Inr cs) = list_all (layer_ok gm) ls"
proof (induction ls arbitrary: prio)
  case Nil
  show ?case by simp
next
  case (Cons l ls)
  have "(\<exists>c. (case l of
            TileLayerType lay \<Rightarrow> writeTileLayer dir prio lay
          | ObjectGroupType og \<Rightarrow> writeObjectGroup gm prio og
          | ImageLayerType il \<Rightarrow> ok (writeImageLayer dir prio il)) = Inr c) = layer_ok gm l"
    by (cases l) (simp_all add: layer_ok_def writeTileLayer_complete writeObjectGroup_complete
        ok_def)
  with Cons [of "prio + 1"] show ?case by (simp add: seq_complete)
qed

lemma writeTilesets_state: "writeTilesets dir tss st = Inr r \<Longrightarrow> snd r = loop_state tss st"
proof (induction tss arbitrary: st r)
  case Nil
  then show ?case by auto
next
  case (Cons ts tss)
  from Cons.prems obtain c r' where
    r': "writeTilesets dir tss (next_state ts st) = Inr r'" and r: "r = (c @ fst r', snd r')"
    by (auto simp: next_state_def split: sum.splits)
  from Cons.IH [OF r'] show ?case by (simp add: r)
qed

lemma writeTilesets_complete:
  "(\<exists>r. writeTilesets dir tss st = Inr r) = tilesets_ok tss st"
proof (induction tss arbitrary: st)
  case Nil
  show ?case by simp
next
  case (Cons ts tss)
  show ?case
    using writeTileset_complete [of dir "fst st" ts "snd st"] Cons [of "next_state ts st"]
    by (auto simp: next_state_def split: sum.splits)
qed

lemma writeMap_complete: "(\<exists>r. writeMap e p m = Inr r) = map_ok m"
proof (cases "writeTilesets (mMapDir p) (map_tilesets m) ([], 1)")
  case (Inl err)
  with writeTilesets_complete [of "mMapDir p" "map_tilesets m" "([], 1)"]
  show ?thesis by (simp add: writeMap_def map_ok_def)
next
  case (Inr t)
  from writeTilesets_state [OF Inr] have s: "fst (snd t) = fst (loop_state (map_tilesets m) ([], 1))"
    by simp
  from Inr have "\<exists>r. writeTilesets (mMapDir p) (map_tilesets m) ([], 1) = Inr r" by blast
  then have k: "tilesets_ok (map_tilesets m) ([], 1)" by (simp only: writeTilesets_complete)
  show ?thesis
    using writeLayers_complete [of "mMapDir p" "fst (snd t)" 1 "map_layers m"]
    by (auto simp: writeMap_def map_ok_def Inr s k split: sum.splits)
qed

section \<open>Properties of the export\<close>

subsection \<open>Map objects\<close>

lemma mapObject_table:
  assumes "object_ok gm obj"
  shows "\<exists>cs. writeMapObject gm obj = Inr cs
     \<and> emitted cs = Some [(Positional, Tbl (mapObject_entries gm obj))]"
proof -
  from assms obtain cs where cs: "writeMapObject gm obj = Inr cs"
    using writeMapObject_complete [of gm obj] by blast
  from emits_emitted [OF writeMapObject_emits [OF cs]] cs show ?thesis by blast
qed

lemma object_ok_gid: "object_ok gm obj \<Longrightarrow> \<exists>g. cellToGid gm (obj_cell obj) = Inr g"
  by (auto simp: object_ok_def cellToGid_def split: option.splits)

text \<open>
  C7: A map object is written exactly when it has no cell or the tileset of its cell is
  in the mapper; otherwise the writer stops at the lookup of the cell. In the table
  written for the object, the key \<open>gid\<close> is present if and only if the object's cell is
  not empty, and then it holds the global id that the mapper gives for the cell; the keys
  \<open>shape\<close>, \<open>x\<close>, \<open>y\<close>, \<open>width\<close>, \<open>height\<close> and \<open>rotation\<close> carry the name of
  the shape and the object's position, size and rotation. For the rectangle at (10, 20)
  of size (30, 40) without a cell, the shape is \<open>rectangle\<close> and there is no \<open>gid\<close>;
  for the same rectangle as a tile object of the first tileset, \<open>gid\<close> is 1.
\<close>

theorem C7_gid_iff_cell:
  "(object_ok gm obj \<longrightarrow>
      (\<exists>cs es g. writeMapObject gm obj = Inr cs
         \<and> emitted cs = Some [(Positional, Tbl es)]
         \<and> cellToGid gm (obj_cell obj) = Inr g
         \<and> (Bare ''gid'' \<in> set (keys_of es)) = (\<not> cell_isEmpty (obj_cell obj))
         \<and> entry_at (Bare ''gid'') es
             = (if cell_isEmpty (obj_cell obj) then None else Some (Val (LUInt g)))
         \<and> entry_at (Bare ''shape'') es = Some (Val (LStr (toString (obj_shape obj))))
         \<and> entry_at (Bare ''x'') es = Some (Val (LReal (obj_x obj)))
         \<and> entry_at (Bare ''y'') es = Some (Val (LReal (obj_y obj)))
         \<and> entry_at (Bare ''width'') es = Some (Val (LReal (obj_width obj)))
         \<and> entry_at (Bare ''height'') es = Some (Val (LReal (obj_height obj)))
         \<and> entry_at (Bare ''rotation'') es = Some (Val (LReal (obj_rotation obj)))))
   \<and> (\<not> object_ok gm obj \<longrightarrow> writeMapObject gm obj = Inl UnregisteredTileset)"
proof (intro conjI impI)
  assume ok: "object_ok gm obj"
  from mapObject_table [OF ok] obtain cs where cs: "writeMapObject gm obj = Inr cs"
    and e: "emitted cs = Some [(Positional, Tbl (mapObject_entries gm obj))]" by blast
  from object_ok_gid [OF ok] obtain g where g: "cellToGid gm (obj_cell obj) = Inr g" by blast
  have k: "(Bare ''gid'' \<in> set (keys_of (mapObject_entries gm obj)))
      = (\<not> cell_isEmpty (obj_cell obj))"
    using g by (auto simp: keys_of_def mapObject_entries_def properties_entry_def)
  have v: "entry_at (Bare ''gid'') (mapObject_entries gm obj)
      = (if cell_isEmpty (obj_cell obj) then None else Some (Val (LUInt g)))"
    using g by (simp add: entry_at_def mapObject_entries_def properties_entry_def)
  have s: "entry_at (Bare ''shape'') (mapObject_entries gm obj)
        = Some (Val (LStr (toString (obj_shape obj))))"
    "entry_at (Bare ''x'') (mapObject_entries gm obj) = Some (Val (LReal (obj_x obj)))"
    "entry_at (Bare ''y'') (mapObject_entries gm obj) = Some (Val (LReal (obj_y obj)))"
    "entry_at (Bare ''width'') (mapObject_entries gm obj) = Some (Val (LReal (obj_width obj)))"
    "entry_at (Bare ''height'') (mapObject_entries gm obj) = Some (Val (LReal (obj_height obj)))"
    "entry_at (Bare ''rotation'') (mapObject_entries gm obj)
        = Some (Val (LReal (obj_rotation obj)))"
    by (simp_all add: entry_at_def mapObject_entries_def)
  from cs e g k v s
  show "\<exists>cs es g. writeMapObject gm obj = Inr cs
         \<and> emitted cs = Some [(Positional, Tbl es)]
         \<and> cellToGid gm (obj_cell obj) = Inr g
         \<and> (Bare ''gid'' \<in> set (keys_of es)) = (\<not> cell_isEmpty (obj_cell obj))
         \<and> entry_at (Bare ''gid'') es
             = (if cell_isEmpty (obj_cell obj) then None else Some (Val (LUInt g)))
         \<and> entry_at (Bare ''shape'') es = Some (Val (LStr (toString (obj_shape obj))))
         \<and> entry_at (Bare ''x'') es = Some (Val (LReal (obj_x obj)))
         \<and> entry_at (Bare ''y'') es = Some (Val (LReal (obj_y obj)))
         \<and> entry_at (Bare ''width'') es = Some (Val (LReal (obj_width obj)))
         \<and> entry_at (Bare ''height'') es = Some (Val (LReal (obj_height obj)))
         \<and> entry_at (Bare ''rotation'') es = Some (Val (LReal (obj_rotation obj)))"
    by blast
next
  assume "\<not> object_ok gm obj"
  then show "writeMapObject gm obj = Inl UnregisteredTileset" by (rule writeMapObject_stops)
qed

theorem C7_rectangle_witness:
  "object_ok [] example_rectangle
   \<and> (\<exists>cs es. writeMapObject [] example_rectangle = Inr cs
        \<and> emitted cs = Some [(Positional, Tbl es)]
        \<and> Bare ''gid'' \<notin> set (keys_of es)
        \<and> entry_at (Bare ''shape'') es = Some (Val (LStr ''rectangle''))
        \<and> entry_at (Bare ''x'') es = Some (Val (LReal 10))
        \<and> entry_at (Bare ''y'') es = Some (Val (LReal 20))
        \<and> entry_at (Bare ''width'') es = Some (Val (LReal 30))
        \<and> entry_at (Bare ''height'') es = Some (Val (LReal 40))
        \<and> entry_at (Bare ''rotation'') es = Some (Val (LReal 0)))
   \<and> object_ok [(1, 7)] example_tile_object
   \<and> (\<exists>cs es. writeMapObject [(1, 7)] example_tile_object = Inr cs
        \<and> emitted cs = Some [(Positional, Tbl es)]
        \<and> Bare ''gid'' \<in> set (keys_of es)
        \<and> entry_at (Bare ''gid'') es = Some (Val (LUInt 1)))
   \<and> \<not> object_ok [] example_tile_object
   \<and> writeMapObject [] example_tile_object = Inl UnregisteredTileset"
proof -
  have a: "object_ok [] example_rectangle" by code_simp
  have b: "object_ok [(1, 7)] example_tile_object" by code_simp
  have c: "\<not> object_ok [] example_tile_object" by code_simp
  have f: "cell_isEmpty (obj_cell example_rectangle) = True"
    "toString (obj_shape example_rectangle) = ''rectangle''"
    "obj_x example_rectangle = 10" "obj_y example_rectangle = 20"
    "obj_width example_rectangle = 30" "obj_height example_rectangle = 40"
    "obj_rotation example_rectangle = 0"
    "cell_isEmpty (obj_cell example_tile_object) = False"
    by (simp_all add: example_rectangle_def example_tile_object_def example_empty_cell_def
        example_tile_cell_def cell_isEmpty_def)
  have g: "cellToGid [(1, 7)] (obj_cell example_tile_object) = Inr 1" by code_simp
  note r1 = C7_gid_iff_cell [of "[]" example_rectangle, THEN conjunct1, THEN mp, OF a]
  note r2 = C7_gid_iff_cell [of "[(1, 7)]" example_tile_object, THEN conjunct1, THEN mp, OF b]
  note r3 = C7_gid_iff_cell [of "[]" example_tile_object, THEN conjunct2, THEN mp, OF c]
  have p1: "\<exists>cs es. writeMapObject [] example_rectangle = Inr cs
        \<and> emitted cs = Some [(Positional, Tbl es)]
        \<and> Bare ''gid'' \<notin> set (keys_of es)
        \<and> entry_at (Bare ''shape'') es = Some (Val (LStr ''rectangle''))
        \<and> entry_at (Bare ''x'') es = Some (Val (LReal 10))
        \<and> entry_at (Bare ''y'') es = Some (Val (LReal 20))
        \<and> entry_at (Bare ''width'') es = Some (Val (LReal 30))
        \<and> entry_at (Bare ''height'') es = Some (Val (LReal 40))
        \<and> entry_at (Bare ''rotation'') es = Some (Val (LReal 0))"
    using r1 unfolding f by auto
  have p2: "\<exists>cs es. writeMapObject [(1, 7)] example_tile_object = Inr cs
        \<and> emitted cs = Some [(Positional, Tbl es)]
        \<and> Bare ''gid'' \<in> set (keys_of es)
        \<and> entry_at (Bare ''gid'') es = Some (Val (LUInt 1))"
    using r2 unfolding f g by auto
  from a b c p1 p2 r3 show ?thesis by blast
qed

lemma toUInt_in_range: "in_uint_range d \<Longrightarrow> uint (toUInt d) = truncate_real d"
  by (simp add: in_uint_range_def toUInt_def uint_word_of_int)

lemma polygon_table:
  assumes "obj_polygon obj \<noteq> []"
  shows "entry_at (Bare (if obj_shape obj = Polygon then ''polygon'' else ''polyline''))
           (mapObject_entries gm obj)
         = Some (Tbl (map (\<lambda>w. (Positional, Val (LUInt w)))
                   (concat (map (\<lambda>p. [toUInt (fst p), toUInt (snd p)]) (obj_polygon obj)))))"
proof -
  have "concat (map point_entries ps)
     = map (\<lambda>w. (Positional, Val (LUInt w)))
         (concat (map (\<lambda>p. [toUInt (fst p), toUInt (snd p)]) ps))" for ps
    by (induction ps) (simp_all add: point_entries_def)
  with assms show ?thesis
    by (simp add: entry_at_def mapObject_entries_def split: sum.splits)
qed

text \<open>
  What the writer does with the points of any object that it writes: the table under
  \<open>polygon\<close> (for a polygon; \<open>polyline\<close> for every other shape) is the flat
  positional sequence x0, y0, x1, y1, ... in point order of \<^verbatim>\<open>unsigned\<close> values, each
  the conversion of its coordinate; a coordinate that truncates to a value from 0 to
  2^32 - 1 is written as this value.
\<close>

lemma polygon_sequence:
  assumes "obj_polygon obj \<noteq> []" and "object_ok gm obj"
  shows "\<exists>cs es ws. writeMapObject gm obj = Inr cs
     \<and> emitted cs = Some [(Positional, Tbl es)]
     \<and> entry_at (Bare (if obj_shape obj = Polygon then ''polygon'' else ''polyline'')) es
         = Some (Tbl (map (\<lambda>w. (Positional, Val (LUInt w))) ws))
     \<and> ws = concat (map (\<lambda>p. [toUInt (fst p), toUInt (snd p)]) (obj_polygon obj))
     \<and> ((\<forall>p \<in> set (obj_polygon obj). in_uint_range (fst p) \<and> in_uint_range (snd p)) \<longrightarrow>
          map uint ws
            = concat (map (\<lambda>p. [truncate_real (fst p), truncate_real (snd p)])
                (obj_polygon obj)))"
proof -
  from mapObject_table [OF assms(2)] obtain cs where cs: "writeMapObject gm obj = Inr cs"
    and e: "emitted cs = Some [(Positional, Tbl (mapObject_entries gm obj))]" by blast
  have u: "\<forall>p \<in> set ps. in_uint_range (fst p) \<and> in_uint_range (snd p) \<Longrightarrow>
      map uint (concat (map (\<lambda>p. [toUInt (fst p), toUInt (snd p)]) ps))
        = concat (map (\<lambda>p. [truncate_real (fst p), truncate_real (snd p)]) ps)" for ps
    by (induction ps) (simp_all add: toUInt_in_range)
  from cs e polygon_table [OF assms(1), of gm] u [of "obj_polygon obj"]
  show ?thesis by blast
qed

lemma polygon_sequence_example:
  "\<exists>cs es ws. writeMapObject [] example_polygon = Inr cs
     \<and> emitted cs = Some [(Positional, Tbl es)]
     \<and> entry_at (Bare ''polygon'') es = Some (Tbl (map (\<lambda>w. (Positional, Val (LUInt w))) ws))
     \<and> map uint ws = [0, 0, 5, 0, 5, 5]"
proof -
  have r: "\<forall>p \<in> set (obj_polygon example_polygon). in_uint_range (fst p) \<and> in_uint_range (snd p)"
    by (simp add: example_polygon_def example_rectangle_def in_uint_range_def truncate_real_def)
  have n: "obj_polygon example_polygon \<noteq> []"
    by (simp add: example_polygon_def example_rectangle_def)
  have c: "object_ok [] example_polygon" by code_simp
  have s: "obj_shape example_polygon = Polygon"
    by (simp add: example_polygon_def example_rectangle_def)
  have t: "concat (map (\<lambda>p. [truncate_real (fst p), truncate_real (snd p)])
             (obj_polygon example_polygon)) = [0, 0, 5, 0, 5, 5]"
    by (simp add: example_polygon_def example_rectangle_def truncate_real_def)
  from polygon_sequence [OF n c] r obtain cs es ws
    where "writeMapObject [] example_polygon = Inr cs"
      and "emitted cs = Some [(Positional, Tbl es)]"
      and "entry_at (Bare (if obj_shape example_polygon = Polygon then ''polygon''
                           else ''polyline'')) es
           = Some (Tbl (map (\<lambda>w. (Positional, Val (LUInt w))) ws))"
      and "map uint ws = concat (map (\<lambda>p. [truncate_real (fst p), truncate_real (snd p)])
             (obj_polygon example_polygon))"
    by blast
  then show ?thesis unfolding s t by auto
qed

text \<open>
  C6: The polygon with the points (0, 0), (-5, 0), (0, 5) is written with the table
  0, 0, 4294967291, 0, 0, 5 under \<open>polygon\<close>: the coordinate -5, whose truncation is -5,
  goes through the conversion to \<^verbatim>\<open>unsigned int\<close> and comes out as
  \<open>2^32 - 5\<close>.
\<close>

theorem C6_negative_coordinate_written:
  "entry_at (Bare ''polygon'') (written_table (writeMapObject [] example_polygon_left))
     = Some (Tbl [(Positional, Val (LUInt 0)), (Positional, Val (LUInt 0)),
                  (Positional, Val (LUInt 4294967291)), (Positional, Val (LUInt 0)),
                  (Positional, Val (LUInt 0)), (Positional, Val (LUInt 5))])
   \<and> obj_polygon example_polygon_left = [(0, 0), (- 5, 0), (0, 5)]
   \<and> truncate_real (- 5) = - 5"
proof -
  have c: "object_ok [] example_polygon_left" by code_simp
  from mapObject_table [OF c] obtain cs where cs: "writeMapObject [] example_polygon_left = Inr cs"
    and e: "emitted cs = Some [(Positional, Tbl (mapObject_entries [] example_polygon_left))]"
    by blast
  have w: "written_table (writeMapObject [] example_polygon_left)
      = mapObject_entries [] example_polygon_left"
    by (simp add: written_table_def cs e)
  have n: "obj_polygon example_polygon_left \<noteq> []"
    by (simp add: example_polygon_left_def example_rectangle_def)
  have t: "toUInt 0 = 0" "toUInt (- 5) = 4294967291" "toUInt 5 = 5"
    by (simp_all add: toUInt_def truncate_real_def)
  have p: "entry_at (Bare ''polygon'') (mapObject_entries [] example_polygon_left)
     = Some (Tbl [(Positional, Val (LUInt 0)), (Positional, Val (LUInt 0)),
                  (Positional, Val (LUInt 4294967291)), (Positional, Val (LUInt 0)),
                  (Positional, Val (LUInt 0)), (Positional, Val (LUInt 5))])"
    using polygon_table [OF n, of "[]"] t
    by (simp add: example_polygon_left_def example_rectangle_def)
  have q: "obj_polygon example_polygon_left = [(0, 0), (- 5, 0), (0, 5)]"
    by (simp add: example_polygon_left_def example_rectangle_def)
  have r: "truncate_real (- 5) = - 5" by (simp add: truncate_real_def)
  from p q r show ?thesis unfolding w by blast
qed


subsection \<open>The map\<close>

lemma map_written:
  assumes "map_ok m"
  shows "\<exists>r. writeMap e p m = Inr r
     \<and> emitted (fst r) = Some [(Returned, Tbl (map_table e p m (mGidMapper (snd r))))]"
proof -
  from assms obtain r where r: "writeMap e p m = Inr r"
    using writeMap_complete [of e p m] by blast
  from emits_emitted [OF writeMap_emits [OF r]] r show ?thesis by blast
qed

lemma entry_at_map_scalars_backgroundcolor:
  "entry_at (Bare ''backgroundcolor'') (map_scalars e m) = None"
  by (simp add: entry_at_def map_scalars_def)

text \<open>
  C10: A map on which the traversal completes is written, and in its table the key
  \<open>backgroundcolor\<close> is present, once, if and only if the background colour is valid;
  its table holds red, green and blue, in this order, followed by alpha exactly when
  alpha is not 255. The example map has the table 255, 200, 100 with its opaque colour,
  the table 255, 200, 100, 128 with the alpha 128, and no such key without a colour.
\<close>

theorem C10_backgroundcolor:
  assumes "map_ok m"
  shows "\<exists>r es. writeMap e p m = Inr r
     \<and> emitted (fst r) = Some [(Returned, Tbl es)]
     \<and> entry_at (Bare ''backgroundcolor'') es
         = (if c_valid (map_backgroundColor m)
            then Some (Tbl ([(Positional, Val (LInt (c_red (map_backgroundColor m)))),
                             (Positional, Val (LInt (c_green (map_backgroundColor m)))),
                             (Positional, Val (LInt (c_blue (map_backgroundColor m))))]
                            @ (if c_alpha (map_backgroundColor m) \<noteq> 255
                               then [(Positional, Val (LInt (c_alpha (map_backgroundColor m))))]
                               else [])))
            else None)
     \<and> length (filter (\<lambda>k. k = Bare ''backgroundcolor'') (keys_of es))
         = (if c_valid (map_backgroundColor m) then 1 else 0)"
proof -
  from map_written [OF assms] obtain r where r: "writeMap e p m = Inr r"
    and e: "emitted (fst r) = Some [(Returned, Tbl (map_table e p m (mGidMapper (snd r))))]"
    by blast
  have k: "entry_at (Bare ''backgroundcolor'') (map_table e p m (mGidMapper (snd r)))
      = (if c_valid (map_backgroundColor m)
            then Some (Tbl ([(Positional, Val (LInt (c_red (map_backgroundColor m)))),
                             (Positional, Val (LInt (c_green (map_backgroundColor m)))),
                             (Positional, Val (LInt (c_blue (map_backgroundColor m))))]
                            @ (if c_alpha (map_backgroundColor m) \<noteq> 255
                               then [(Positional, Val (LInt (c_alpha (map_backgroundColor m))))]
                               else [])))
            else None)"
    by (simp add: map_table_def entry_at_append entry_at_map_scalars_backgroundcolor
        backgroundcolor_entries_def entry_at_Cons entry_at_Nil properties_entry_def)
  have n: "length (filter (\<lambda>k. k = Bare ''backgroundcolor'')
        (keys_of (map_table e p m (mGidMapper (snd r)))))
      = (if c_valid (map_backgroundColor m) then 1 else 0)"
    by (simp add: map_table_def keys_of_def map_scalars_def backgroundcolor_entries_def
        properties_entry_def)
  from r e k n show ?thesis by blast
qed

theorem C10_three_colours_witness:
  "map_ok example_map_full \<and> map_ok example_map_translucent \<and> map_ok example_map_no_color
   \<and> (\<exists>r es. writeMap example_env example_plugin example_map_full = Inr r
        \<and> emitted (fst r) = Some [(Returned, Tbl es)]
        \<and> entry_at (Bare ''backgroundcolor'') es
            = Some (Tbl [(Positional, Val (LInt 255)), (Positional, Val (LInt 200)),
                         (Positional, Val (LInt 100))]))
   \<and> (\<exists>r es. writeMap example_env example_plugin example_map_translucent = Inr r
        \<and> emitted (fst r) = Some [(Returned, Tbl es)]
        \<and> entry_at (Bare ''backgroundcolor'') es
            = Some (Tbl [(Positional, Val (LInt 255)), (Positional, Val (LInt 200)),
                         (Positional, Val (LInt 100)), (Positional, Val (LInt 128))]))
   \<and> (\<exists>r es. writeMap example_env example_plugin example_map_no_color = Inr r
        \<and> emitted (fst r) = Some [(Returned, Tbl es)]
        \<and> entry_at (Bare ''backgroundcolor'') es = None
        \<and> Bare ''backgroundcolor'' \<notin> set (keys_of es))"
proof -
  have a: "map_ok example_map_full" by code_simp
  have b: "map_ok example_map_translucent" by code_simp
  have c: "map_ok example_map_no_color" by code_simp
  have f: "map_backgroundColor example_map_full
      = \<lparr>c_valid = True, c_red = 255, c_green = 200, c_blue = 100, c_alpha = 255\<rparr>"
    "map_backgroundColor example_map_translucent
      = \<lparr>c_valid = True, c_red = 255, c_green = 200, c_blue = 100, c_alpha = 128\<rparr>"
    "map_backgroundColor example_map_no_color = no_color"
    by (simp_all add: example_map_full_def example_map_translucent_def
        example_map_no_color_def example_map_opaque_def)
  have p1: "\<exists>r es. writeMap example_env example_plugin example_map_full = Inr r
        \<and> emitted (fst r) = Some [(Returned, Tbl es)]
        \<and> entry_at (Bare ''backgroundcolor'') es
            = Some (Tbl [(Positional, Val (LInt 255)), (Positional, Val (LInt 200)),
                         (Positional, Val (LInt 100))])"
    using C10_backgroundcolor [OF a, of example_env example_plugin] unfolding f by auto
  have p2: "\<exists>r es. writeMap example_env example_plugin example_map_translucent = Inr r
        \<and> emitted (fst r) = Some [(Returned, Tbl es)]
        \<and> entry_at (Bare ''backgroundcolor'') es
            = Some (Tbl [(Positional, Val (LInt 255)), (Positional, Val (LInt 200)),
                         (Positional, Val (LInt 100)), (Positional, Val (LInt 128))])"
    using C10_backgroundcolor [OF b, of example_env example_plugin] unfolding f by auto
  have p3: "\<exists>r es. writeMap example_env example_plugin example_map_no_color = Inr r
        \<and> emitted (fst r) = Some [(Returned, Tbl es)]
        \<and> entry_at (Bare ''backgroundcolor'') es = None
        \<and> Bare ''backgroundcolor'' \<notin> set (keys_of es)"
    using C10_backgroundcolor [OF c, of example_env example_plugin] unfolding f
    by (auto simp: no_color_def filter_empty_conv)
  from a b c p1 p2 p3 show ?thesis by blast
qed

subsection \<open>Tile layers\<close>

lemma tileLayer_written:
  assumes "tilelayer_ok lay"
  shows "\<exists>cs. writeTileLayer dir prio lay = Inr cs
     \<and> emitted cs = Some [(Quoted (tl_name lay), Tbl (tileLayer_table dir prio lay))]"
proof -
  from assms obtain cs where cs: "writeTileLayer dir prio lay = Inr cs"
    using writeTileLayer_complete [of dir prio lay] by blast
  from emits_emitted [OF writeTileLayer_emits [OF cs]] cs show ?thesis by blast
qed







subsection \<open>Tilesets\<close>

lemma tileset_written:
  assumes "tileset_ok gm ts"
  shows "\<exists>cs. writeTileset dir gm ts firstGid = Inr cs
     \<and> emitted cs = Some [(tileset_key dir ts, Tbl (tileset_table dir gm ts))]"
proof -
  from assms obtain cs where cs: "writeTileset dir gm ts firstGid = Inr cs"
    using writeTileset_complete [of dir gm ts firstGid] by blast
  from emits_emitted [OF writeTileset_emits [OF cs]] cs show ?thesis by blast
qed

lemma show_nat_nonempty: "show_nat n \<noteq> []"
  by (subst show_nat.simps) simp

lemma digit_inj: "digit a = digit b \<Longrightarrow> a mod 10 = b mod 10"
proof -
  have d: "distinct ''0123456789''" by simp
  assume "digit a = digit b"
  then have "''0123456789'' ! (a mod 10) = ''0123456789'' ! (b mod 10)"
    by (simp add: digit_def)
  with d show ?thesis
    by (subst (asm) nth_eq_iff_index_eq) simp_all
qed

lemma show_nat_inj: "show_nat m = show_nat n \<Longrightarrow> m = n"
proof (induction m arbitrary: n rule: show_nat.induct)
  case (1 m)
  show ?case
  proof (cases "m < 10")
    case True
    then have m: "show_nat m = [digit m]" by (subst show_nat.simps) simp
    show ?thesis
    proof (cases "n < 10")
      case n: True
      then have "show_nat n = [digit n]" by (subst show_nat.simps) simp
      with m "1.prems" have "digit m = digit n" by simp
      from digit_inj [OF this] True n show ?thesis by simp
    next
      case False
      then have "show_nat n = show_nat (n div 10) @ [digit n]"
        by (subst show_nat.simps) simp
      with m "1.prems" show_nat_nonempty [of "n div 10"] show ?thesis by simp
    qed
  next
    case False
    then have m: "show_nat m = show_nat (m div 10) @ [digit m]"
      by (subst show_nat.simps) simp
    show ?thesis
    proof (cases "n < 10")
      case True
      then have "show_nat n = [digit n]" by (subst show_nat.simps) simp
      with m "1.prems" show_nat_nonempty [of "m div 10"] show ?thesis by simp
    next
      case n: False
      then have "show_nat n = show_nat (n div 10) @ [digit n]"
        by (subst show_nat.simps) simp
      with m "1.prems" have a: "show_nat (m div 10) = show_nat (n div 10)"
        and b: "digit m = digit n" by simp_all
      from "1.IH" [OF False a] have "m div 10 = n div 10" .
      moreover from digit_inj [OF b] have "m mod 10 = n mod 10" .
      ultimately show ?thesis by (metis div_mult_mod_eq)
    qed
  qed
qed

lemma tile_key_inj: "tile_key i = tile_key j \<Longrightarrow> i = j"
proof -
  assume "tile_key i = tile_key j"
  then have "show_nat (Suc i) = show_nat (Suc j)"
    by (simp add: tile_key_def show_int_def nat_add_distrib)
  from show_nat_inj [OF this] show ?thesis by simp
qed

lemma keys_tiles_entries_upt:
  "keys_of (concat (map (\<lambda>i. tile_entries dir gm i (f i)) is))
     = map tile_key (filter (\<lambda>i. includeTile (f i)) is)"
  by (induction "is") (simp_all add: keys_of_def tile_entries_def)

lemma keys_tiles_entries:
  "keys_of (tiles_entries dir gm ts)
     = map tile_key (filter (\<lambda>i. includeTile (ts_tiles ts ! i)) [0..<length (ts_tiles ts)])"
  unfolding tiles_entries_def by (rule keys_tiles_entries_upt)

lemma entry_at_tileset_scalars:
  "entry_at (Bare ''tiles'') (tileset_scalars dir ts) = None"
  by (simp add: entry_at_def tileset_scalars_def)

lemma includeTile_iff:
  "includeTile t =
     (tile_properties t \<noteq> [] \<or> tile_imageSource t \<noteq> [] \<or> tile_objectGroup t \<noteq> None
      \<or> tile_frames t \<noteq> [] \<or> tile_terrain t \<noteq> 0xFFFFFFFF \<or> tile_terrainProbability t \<noteq> - 1)"
  by (simp add: includeTile_def)

text \<open>
  C3: A tileset is written when its tile width and tile height are not 0 (or it has no
  image) and the tile objects in the object groups of its tiles have their tilesets in
  the mapper. In its table, the table under \<open>tiles\<close> has one entry for each tile that
  has properties, an image source, an object group, animation frames, a terrain other
  than 0xFFFFFFFF or a terrain probability other than -1, and no other entry: the keys of
  the table are, in tile order, the keys \<open>id = i + 1\<close> of exactly these tiles, and the
  key of tile \<open>i\<close> is among them if and only if tile \<open>i\<close> is such a tile. Of the seven
  tiles of the example, one plain and one for each of the six reasons, the six are
  written.
\<close>

theorem C3_tiles_included:
  assumes "tileset_ok gm ts"
  shows "\<exists>cs k es tes. writeTileset dir gm ts firstGid = Inr cs
     \<and> emitted cs = Some [(k, Tbl es)]
     \<and> entry_at (Bare ''tiles'') es = Some (Tbl tes)
     \<and> keys_of tes
         = map (\<lambda>i. Quoted (''id = '' @ show_int (int i + 1)))
             (filter (\<lambda>i. includeTile (ts_tiles ts ! i)) [0..<length (ts_tiles ts)])
     \<and> (\<forall>i < length (ts_tiles ts).
           (Quoted (''id = '' @ show_int (int i + 1)) \<in> set (keys_of tes))
           = (tile_properties (ts_tiles ts ! i) \<noteq> []
              \<or> tile_imageSource (ts_tiles ts ! i) \<noteq> []
              \<or> tile_objectGroup (ts_tiles ts ! i) \<noteq> None
              \<or> tile_frames (ts_tiles ts ! i) \<noteq> []
              \<or> tile_terrain (ts_tiles ts ! i) \<noteq> 0xFFFFFFFF
              \<or> tile_terrainProbability (ts_tiles ts ! i) \<noteq> - 1))"
proof -
  from tileset_written [OF assms] obtain cs where cs: "writeTileset dir gm ts firstGid = Inr cs"
    and e: "emitted cs = Some [(tileset_key dir ts, Tbl (tileset_table dir gm ts))]"
    by blast
  have k: "entry_at (Bare ''tiles'') (tileset_table dir gm ts)
      = Some (Tbl (tiles_entries dir gm ts))"
    by (simp add: tileset_table_def entry_at_append entry_at_tileset_scalars entry_at_Cons
        entry_at_Nil properties_entry_def)
  have l: "keys_of (tiles_entries dir gm ts)
      = map (\<lambda>i. Quoted (''id = '' @ show_int (int i + 1)))
             (filter (\<lambda>i. includeTile (ts_tiles ts ! i)) [0..<length (ts_tiles ts)])"
    using keys_tiles_entries [of dir gm ts] by (simp add: tile_key_def [abs_def])
  have m: "\<forall>i < length (ts_tiles ts).
           (Quoted (''id = '' @ show_int (int i + 1)) \<in> set (keys_of (tiles_entries dir gm ts)))
           = (tile_properties (ts_tiles ts ! i) \<noteq> []
              \<or> tile_imageSource (ts_tiles ts ! i) \<noteq> []
              \<or> tile_objectGroup (ts_tiles ts ! i) \<noteq> None
              \<or> tile_frames (ts_tiles ts ! i) \<noteq> []
              \<or> tile_terrain (ts_tiles ts ! i) \<noteq> 0xFFFFFFFF
              \<or> tile_terrainProbability (ts_tiles ts ! i) \<noteq> - 1)"
  proof (intro allI impI)
    fix i assume i: "i < length (ts_tiles ts)"
    have "(tile_key i \<in> set (keys_of (tiles_entries dir gm ts)))
        = includeTile (ts_tiles ts ! i)"
      using i by (auto simp: keys_tiles_entries dest: tile_key_inj)
    then show "(Quoted (''id = '' @ show_int (int i + 1))
          \<in> set (keys_of (tiles_entries dir gm ts)))
        = (tile_properties (ts_tiles ts ! i) \<noteq> []
              \<or> tile_imageSource (ts_tiles ts ! i) \<noteq> []
              \<or> tile_objectGroup (ts_tiles ts ! i) \<noteq> None
              \<or> tile_frames (ts_tiles ts ! i) \<noteq> []
              \<or> tile_terrain (ts_tiles ts ! i) \<noteq> 0xFFFFFFFF
              \<or> tile_terrainProbability (ts_tiles ts ! i) \<noteq> - 1)"
      by (simp add: tile_key_def includeTile_iff)
  qed
  from cs e k l m show ?thesis by blast
qed

theorem C3_six_kinds_witness:
  "tileset_ok [(1, 7)] example_tileset_kinds
   \<and> length (ts_tiles example_tileset_kinds) = 7
   \<and> (\<exists>cs k es tes. writeTileset ''/maps'' [(1, 7)] example_tileset_kinds 2 = Inr cs
        \<and> emitted cs = Some [(k, Tbl es)]
        \<and> entry_at (Bare ''tiles'') es = Some (Tbl tes)
        \<and> keys_of tes = [Quoted ''id = 2'', Quoted ''id = 3'', Quoted ''id = 4'',
                          Quoted ''id = 5'', Quoted ''id = 6'', Quoted ''id = 7''])"
proof -
  have a: "tileset_ok [(1, 7)] example_tileset_kinds" by code_simp
  have n: "length (ts_tiles example_tileset_kinds) = 7"
    by (simp add: example_tileset_kinds_def example_tileset_def)
  have f: "map (\<lambda>i. Quoted (''id = '' @ show_int (int i + 1)))
             (filter (\<lambda>i. includeTile (ts_tiles example_tileset_kinds ! i))
                [0..<length (ts_tiles example_tileset_kinds)])
      = [Quoted ''id = 2'', Quoted ''id = 3'', Quoted ''id = 4'',
         Quoted ''id = 5'', Quoted ''id = 6'', Quoted ''id = 7'']"
    by code_simp
  from C3_tiles_included [OF a, of "''/maps''" 2] a n show ?thesis
    unfolding f by blast
qed

subsection \<open>First GIDs\<close>














subsection \<open>The table of special tiles\<close>

lemma origin_gid_positive:
  assumes "i < 2 ^ 31"
  shows "(0 :: 32 word) < 1 + of_nat i" and "unat (1 + of_nat i :: 32 word) - 1 = i"
proof -
  have "unat (1 + of_nat i :: 32 word) = (1 + i) mod 2 ^ 32"
    by (simp add: unat_word_ariths unat_of_nat mod_Suc_eq)
  with assms have u: "unat (1 + of_nat i :: 32 word) = 1 + i" by simp
  then show "unat (1 + of_nat i :: 32 word) - 1 = i" by simp
  from u have "unat (1 + of_nat i :: 32 word) \<noteq> 0" by simp
  then show "(0 :: 32 word) < 1 + of_nat i"
    by (simp add: word_less_nat_alt)
qed

lemma specialMatch_at_most_one:
  assumes "length (tl_usedTilesets lay) \<le> 1"
    and "\<forall>ts \<in> set (tl_usedTilesets lay). length (ts_tiles ts) < 2 ^ 31"
    and "cell_covered lay c"
  shows "specialMatch (tl_usedTilesets lay) (cellToGidOrigin c)
     = Inr (source_tile_has_properties lay c)"
proof (cases "cell_tile c")
  case None
  then have z: "cellToGidOrigin c = 0" by (simp add: cellToGidOrigin_def)
  have "specialMatch us 0 = Inr False" for us
    by (induction us) simp_all
  with None z show ?thesis by (simp add: source_tile_has_properties_def)
next
  case (Some ai)
  with assms(3) obtain ts where ts: "ts \<in> set (tl_usedTilesets lay)"
    and a: "ts_addr ts = fst ai" and i: "snd ai < length (ts_tiles ts)"
    by (auto simp: cell_covered_def list_ex_iff)
  from assms(1) ts have u: "tl_usedTilesets lay = [ts]"
    by (cases "tl_usedTilesets lay") auto
  from assms(2) ts i have "snd ai < 2 ^ 31" by fastforce
  note p = origin_gid_positive [OF this]
  from Some have g: "cellToGidOrigin c = 1 + of_nat (snd ai)"
    by (cases ai) (simp add: cellToGidOrigin_def)
  show ?thesis
    using Some a i p
    by (simp add: u g ts_tileAt_def source_tile_has_properties_def)
qed

lemma specialLoop_total:
  "\<forall>yx \<in> set yxs. \<exists>b. specialMatch (tl_usedTilesets lay)
       (cellToGidOrigin (tl_cellAt lay (snd yx) (fst yx))) = Inr b \<Longrightarrow>
     \<exists>st'. specialLoop lay yxs st = Inr st'"
proof (induction yxs arbitrary: st)
  case Nil
  show ?case by simp
next
  case (Cons yx yxs)
  from Cons.prems obtain b where "specialMatch (tl_usedTilesets lay)
       (cellToGidOrigin (tl_cellAt lay (snd yx) (fst yx))) = Inr b" by auto
  then obtain st1 where "specialStep lay yx st = Inr st1"
    by (cases b) (simp_all add: specialStep_def)
  moreover from Cons have "\<exists>st'. specialLoop lay yxs st1 = Inr st'" by simp
  ultimately show ?case by auto
qed

lemma keys_tileLayer_scalars:
  "Bare ''specialtiles'' \<notin> set (keys_of (tileLayer_scalars dir prio lay))"
  "Bare ''data'' \<notin> set (keys_of (tileLayer_scalars dir prio lay))"
  by (auto simp: keys_of_def tileLayer_scalars_def split: list.splits)

text \<open>
  What holds of every tile layer on which the first pass completes: the table under
  \<open>specialtiles\<close> stands right before the table under \<open>data\<close>, which is the last
  entry; it is there exactly when the pass has found a cell; its entries are the cells
  found, in the order of the scan (rows from the first to the last, columns within a
  row), keyed \<open>y = R, x = C\<close> with the 1-based row and column and holding the cell's
  id under \<open>id\<close>. A cell is found when, among the used tilesets in their order, the
  first whose tile at the cell's id minus one has properties exists.
\<close>

lemma specialtiles_structure:
  assumes "tilelayer_ok lay"
  shows "\<exists>cs pre d.
       writeTileLayer dir prio lay = Inr cs
     \<and> emitted cs =
         Some [(Quoted (tl_name lay),
                Tbl (pre
                     @ (if filter (special_hit lay) (scanOrder lay) = [] then []
                        else [(Bare ''specialtiles'',
                               Tbl (map (\<lambda>yx.
                                      (Quoted (''y = '' @ show_int (fst yx + 1)
                                               @ '', x = '' @ show_int (snd yx + 1)),
                                       Tbl [(Bare ''id'',
                                             Val (LUInt (cellToGidOrigin
                                                   (tl_cellAt lay (snd yx) (fst yx)))))]))
                                    (filter (special_hit lay) (scanOrder lay))))])
                     @ [(Bare ''data'', d)]))]
     \<and> Bare ''specialtiles'' \<notin> set (keys_of pre)
     \<and> Bare ''data'' \<notin> set (keys_of pre)"
proof -
  from assms obtain cs where cs: "writeTileLayer dir prio lay = Inr cs"
    using writeTileLayer_complete [of dir prio lay] by blast
  have e: "emitted cs = Some [(Quoted (tl_name lay), Tbl (tileLayer_table dir prio lay))]"
    using cs by (intro emits_emitted writeTileLayer_emits)
  define pre where "pre = tileLayer_scalars dir prio lay
     @ [properties_entry (tl_properties lay), (Bare ''encoding'', Val (LStr ''lua''))]"
  have k: "Bare ''specialtiles'' \<notin> set (keys_of pre)" "Bare ''data'' \<notin> set (keys_of pre)"
    using keys_tileLayer_scalars [of dir prio lay]
    by (auto simp: pre_def keys_of_def properties_entry_def)
  have t: "tileLayer_table dir prio lay
      = pre @ (if filter (special_hit lay) (scanOrder lay) = [] then []
                        else [(Bare ''specialtiles'',
                               Tbl (map (\<lambda>yx.
                                      (Quoted (''y = '' @ show_int (fst yx + 1)
                                               @ '', x = '' @ show_int (snd yx + 1)),
                                       Tbl [(Bare ''id'',
                                             Val (LUInt (cellToGidOrigin
                                                   (tl_cellAt lay (snd yx) (fst yx)))))]))
                                    (filter (special_hit lay) (scanOrder lay))))])
            @ [(Bare ''data'', Tbl (map (row_entry lay) [0..tl_height lay - 1]))]"
    by (simp add: tileLayer_table_def pre_def special_entries_def special_entry_def [abs_def]
        special_key_def)
  from cs e k show ?thesis unfolding t by blast
qed

text \<open>
  With at most one used tileset that covers every cell, the cells found are the cells
  whose source tile has properties.
\<close>

lemma specialtiles_one_tileset:
  assumes "length (tl_usedTilesets lay) \<le> 1"
    and "\<forall>ts \<in> set (tl_usedTilesets lay). length (ts_tiles ts) < 2 ^ 31"
    and "\<forall>yx \<in> set (scanOrder lay). cell_covered lay (tl_cellAt lay (snd yx) (fst yx))"
  shows "\<exists>cs pre d.
       writeTileLayer dir prio lay = Inr cs
     \<and> emitted cs =
         Some [(Quoted (tl_name lay),
                Tbl (pre
                     @ (if filter (\<lambda>yx. source_tile_has_properties lay
                                          (tl_cellAt lay (snd yx) (fst yx))) (scanOrder lay) = []
                        then []
                        else [(Bare ''specialtiles'',
                               Tbl (map (\<lambda>yx.
                                      (Quoted (''y = '' @ show_int (fst yx + 1)
                                               @ '', x = '' @ show_int (snd yx + 1)),
                                       Tbl [(Bare ''id'',
                                             Val (LUInt (cellToGidOrigin
                                                   (tl_cellAt lay (snd yx) (fst yx)))))]))
                                    (filter (\<lambda>yx. source_tile_has_properties lay
                                                   (tl_cellAt lay (snd yx) (fst yx)))
                                       (scanOrder lay))))])
                     @ [(Bare ''data'', d)]))]
     \<and> Bare ''specialtiles'' \<notin> set (keys_of pre)
     \<and> Bare ''data'' \<notin> set (keys_of pre)
     \<and> scanOrder lay
         = concat (map (\<lambda>y. map (\<lambda>x. (y, x)) [0..tl_width lay - 1]) [0..tl_height lay - 1])"
proof -
  have m: "specialMatch (tl_usedTilesets lay)
         (cellToGidOrigin (tl_cellAt lay (snd yx) (fst yx)))
       = Inr (source_tile_has_properties lay (tl_cellAt lay (snd yx) (fst yx)))"
    if "yx \<in> set (scanOrder lay)" for yx
    using assms that by (intro specialMatch_at_most_one) auto
  then have "\<exists>st'. specialLoop lay (scanOrder lay) (True, []) = Inr st'"
    by (intro specialLoop_total) auto
  then obtain scs where "writeSpecialTiles lay = Inr scs"
    by (auto simp: writeSpecialTiles_def)
  then obtain cs where cs: "writeTileLayer dir prio lay = Inr cs"
    by (auto simp: writeTileLayer_def seq_Inr ok_def)
  have e: "emitted cs = Some [(Quoted (tl_name lay), Tbl (tileLayer_table dir prio lay))]"
    using cs by (intro emits_emitted writeTileLayer_emits)
  have f: "filter (special_hit lay) (scanOrder lay)
      = filter (\<lambda>yx. source_tile_has_properties lay (tl_cellAt lay (snd yx) (fst yx)))
          (scanOrder lay)"
    by (rule filter_cong) (simp_all add: special_hit_def m)
  define pre where "pre = tileLayer_scalars dir prio lay
     @ [properties_entry (tl_properties lay), (Bare ''encoding'', Val (LStr ''lua''))]"
  have k: "Bare ''specialtiles'' \<notin> set (keys_of pre)" "Bare ''data'' \<notin> set (keys_of pre)"
    using keys_tileLayer_scalars [of dir prio lay]
    by (auto simp: pre_def keys_of_def properties_entry_def)
  have t: "tileLayer_table dir prio lay
      = pre @ (if filter (\<lambda>yx. source_tile_has_properties lay
                                          (tl_cellAt lay (snd yx) (fst yx))) (scanOrder lay) = []
                        then []
                        else [(Bare ''specialtiles'',
                               Tbl (map (\<lambda>yx.
                                      (Quoted (''y = '' @ show_int (fst yx + 1)
                                               @ '', x = '' @ show_int (snd yx + 1)),
                                       Tbl [(Bare ''id'',
                                             Val (LUInt (cellToGidOrigin
                                                   (tl_cellAt lay (snd yx) (fst yx)))))]))
                                    (filter (\<lambda>yx. source_tile_has_properties lay
                                                   (tl_cellAt lay (snd yx) (fst yx)))
                                       (scanOrder lay))))])
            @ [(Bare ''data'', Tbl (map (row_entry lay) [0..tl_height lay - 1]))]"
    by (simp add: tileLayer_table_def pre_def special_entries_def f special_entry_def [abs_def]
        special_key_def)
  from cs e k show ?thesis
    unfolding t by (auto simp: scanOrder_def)
qed

lemma specialtiles_one_tileset_example:
  "\<exists>cs pre d. writeTileLayer ''/maps'' 1 example_layer_solid = Inr cs
     \<and> emitted cs =
         Some [(Quoted ''floor'',
                Tbl (pre
                     @ [(Bare ''specialtiles'',
                         Tbl [(Quoted ''y = 1, x = 1'', Tbl [(Bare ''id'', Val (LUInt 1))])])]
                     @ [(Bare ''data'', d)]))]
     \<and> Bare ''specialtiles'' \<notin> set (keys_of pre)"
proof -
  have a: "length (tl_usedTilesets example_layer_solid) \<le> 1" by code_simp
  have b: "\<forall>ts \<in> set (tl_usedTilesets example_layer_solid). length (ts_tiles ts) < 2 ^ 31"
    by (simp add: example_layer_solid_def example_layer_def example_tileset_solid_def
        example_tileset_def)
  have c: "\<forall>yx \<in> set (scanOrder example_layer_solid).
      cell_covered example_layer_solid (tl_cellAt example_layer_solid (snd yx) (fst yx))"
    by code_simp
  have n: "tl_name example_layer_solid = ''floor''" by code_simp
  have f: "filter (\<lambda>yx. source_tile_has_properties example_layer_solid
                (tl_cellAt example_layer_solid (snd yx) (fst yx)))
              (scanOrder example_layer_solid) = [(0, 0)]"
    by code_simp
  have g: "[(Quoted (''y = '' @ show_int (fst (0 :: int, 0 :: int) + 1)
                     @ '', x = '' @ show_int (snd (0 :: int, 0 :: int) + 1)),
             Tbl [(Bare ''id'',
                   Val (LUInt (cellToGidOrigin
                     (tl_cellAt example_layer_solid (snd (0 :: int, 0 :: int))
                        (fst (0 :: int, 0 :: int))))))])]
      = [(Quoted ''y = 1, x = 1'', Tbl [(Bare ''id'', Val (LUInt 1))])]"
    by code_simp
  from specialtiles_one_tileset [OF a b c, of "''/maps''" 1]
  show ?thesis unfolding n f using g by auto
qed

text \<open>
  C4: The tile layer of width 2 and height 1 that uses the tilesets at the addresses 7
  and 9: its first cell is tile 0 of the tileset at address 7, which has no properties,
  its second cell is tile 0 of the tileset at address 9, which has a property. The table
  under \<open>specialtiles\<close> has an entry for both cells, in either order of the two
  tilesets: the first pass reads the tile at the cell's id minus one in every used
  tileset, not in the tileset of the cell. On the layer whose cell is the third tile of
  a tileset, with a tileset of one tile used first, the pass reads a tile that is not
  there, and the writer stops.
\<close>

theorem C4_mixed_layer_written:
  "entry_at (Bare ''specialtiles'')
       (written_table (writeTileLayer ''/maps'' 1 example_layer_mixed))
     = Some (Tbl [(Quoted ''y = 1, x = 1'', Tbl [(Bare ''id'', Val (LUInt 1))]),
                  (Quoted ''y = 1, x = 2'', Tbl [(Bare ''id'', Val (LUInt 1))])])
   \<and> entry_at (Bare ''specialtiles'')
       (written_table (writeTileLayer ''/maps'' 1
          (example_layer_mixed\<lparr>tl_usedTilesets := [example_tileset_solid, example_tileset]\<rparr>)))
     = Some (Tbl [(Quoted ''y = 1, x = 1'', Tbl [(Bare ''id'', Val (LUInt 1))]),
                  (Quoted ''y = 1, x = 2'', Tbl [(Bare ''id'', Val (LUInt 1))])])
   \<and> cell_tile (tl_cellAt example_layer_mixed 0 0) = Some (ts_addr example_tileset, 0)
   \<and> tile_properties (ts_tiles example_tileset ! 0) = []
   \<and> writeTileLayer ''/maps'' 1 example_layer_third = Inl NoSuchTile"
  by code_simp

subsection \<open>The table of properties\<close>

lemma objectGroup_written:
  assumes "group_ok gm og"
  shows "\<exists>cs. writeObjectGroup gm prio og = Inr cs
     \<and> emitted cs = Some [(Quoted (og_name og), Tbl (objectGroup_entries gm prio og))]"
proof -
  from assms obtain cs where cs: "writeObjectGroup gm prio og = Inr cs"
    using writeObjectGroup_complete [of gm prio og] by blast
  from emits_emitted [OF writeObjectGroup_emits [OF cs]] cs show ?thesis by blast
qed

lemma tile_written:
  assumes "tile_ok gm t" and "includeTile t"
  shows "\<exists>cs. writeTile dir gm i t = Inr cs
     \<and> emitted cs = Some [(tile_key i, Tbl (tile_table dir gm t))]"
proof -
  from assms(1) obtain cs where cs: "writeTile dir gm i t = Inr cs"
    using writeTile_complete [of dir gm i t] by blast
  from emits_emitted [OF writeTile_emits [OF cs]] assms(2) cs show ?thesis
    by (simp add: tile_entries_def)
qed

lemma scalars_map: "list_all is_scalar (map_scalars e m)"
  by (simp add: map_scalars_def is_scalar_def)

lemma scalars_tileset: "list_all is_scalar (tileset_scalars dir ts)"
  by (simp add: tileset_scalars_def is_scalar_def)

lemma scalars_tileLayer: "list_all is_scalar (tileLayer_scalars dir prio lay)"
  by (simp add: tileLayer_scalars_def is_scalar_def split: list.splits)

lemma scalars_imageLayer: "list_all is_scalar (imageLayer_scalars dir prio il)"
  by (simp add: imageLayer_scalars_def is_scalar_def)

lemma properties_map:
  assumes "map_ok m"
  shows "\<exists>r pre post. writeMap e p m = Inr r
     \<and> emitted (fst r)
        = Some [(Returned, Tbl (pre @ [properties_entry (map_properties m)] @ post))]
     \<and> list_all (\<lambda>x. is_scalar x \<or> fst x = Bare ''backgroundcolor'') pre
     \<and> keys_of post = [Bare ''tilesets'', Bare ''layers'']
     \<and> \<not> list_ex is_scalar post"
proof -
  from map_written [OF assms] obtain r where r: "writeMap e p m = Inr r"
    and e: "emitted (fst r) = Some [(Returned, Tbl (map_table e p m (mGidMapper (snd r))))]"
    by blast
  define pre where "pre = map_scalars e m @ backgroundcolor_entries (map_backgroundColor m)"
  define post where "post =
    [(Bare ''tilesets'', Tbl (tilesets_entries (mMapDir p) (map_tilesets m) ([], 1))),
     (Bare ''layers'',
      Tbl (layers_entries (mMapDir p) (mGidMapper (snd r)) 1 (map_layers m)))]"
  have t: "map_table e p m (mGidMapper (snd r))
      = pre @ [properties_entry (map_properties m)] @ post"
    by (simp add: map_table_def pre_def post_def)
  have a: "list_all (\<lambda>x. is_scalar x \<or> fst x = Bare ''backgroundcolor'') pre"
    using scalars_map [of e m]
    by (auto simp: pre_def backgroundcolor_entries_def list_all_iff)
  have b: "keys_of post = [Bare ''tilesets'', Bare ''layers'']" "\<not> list_ex is_scalar post"
    by (simp_all add: post_def keys_of_def is_scalar_def)
  from r e a b show ?thesis unfolding t by blast
qed

lemma properties_tileset:
  assumes "tileset_ok gm ts"
  shows "\<exists>cs k pre post. writeTileset dir gm ts g = Inr cs
     \<and> emitted cs = Some [(k, Tbl (pre @ [properties_entry (ts_properties ts)] @ post))]
     \<and> list_all is_scalar pre
     \<and> keys_of post = [Bare ''terrains'', Bare ''tiles'']
     \<and> \<not> list_ex is_scalar post"
proof -
  from tileset_written [OF assms] obtain cs where cs: "writeTileset dir gm ts g = Inr cs"
    and e: "emitted cs = Some [(tileset_key dir ts, Tbl (tileset_table dir gm ts))]"
    by blast
  define post where "post =
    [(Bare ''terrains'',
      Tbl (map (\<lambda>t. (Positional, Tbl (terrain_entries t))) (ts_terrains ts))),
     (Bare ''tiles'', Tbl (tiles_entries dir gm ts))]"
  have t: "tileset_table dir gm ts
      = tileset_scalars dir ts @ [properties_entry (ts_properties ts)] @ post"
    by (simp add: tileset_table_def post_def)
  have b: "keys_of post = [Bare ''terrains'', Bare ''tiles'']" "\<not> list_ex is_scalar post"
    by (simp_all add: post_def keys_of_def is_scalar_def)
  from cs e b scalars_tileset [of dir ts] show ?thesis unfolding t by blast
qed

lemma properties_terrain:
  "\<exists>pre. emitted (writeTerrain t)
        = Some [(Positional, Tbl (pre @ [properties_entry (ter_properties t)]))]
     \<and> list_all is_scalar pre"
proof -
  have e: "emitted (writeTerrain t) = Some [(Positional, Tbl (terrain_entries t))]"
    by (intro emits_emitted emits_writeTerrain)
  have t: "terrain_entries t
      = [(Bare ''name'', Val (LStr (ter_name t))),
         (Bare ''tile'', Val (LInt (ter_imageTileId t)))]
        @ [properties_entry (ter_properties t)]"
    by (simp add: terrain_entries_def)
  have "list_all is_scalar [(Bare ''name'', Val (LStr (ter_name t))),
         (Bare ''tile'', Val (LInt (ter_imageTileId t)))]"
    by (simp add: is_scalar_def)
  with e show ?thesis unfolding t by blast
qed

lemma properties_tile:
  assumes "tile_ok gm t" and "includeTile t"
  shows "\<exists>cs k rest. writeTile dir gm i t = Inr cs
     \<and> emitted cs
        = Some [(k, Tbl ((if tile_properties t \<noteq> [] then [properties_entry (tile_properties t)]
                          else []) @ rest))]
     \<and> Bare ''properties'' \<notin> set (keys_of rest)"
proof -
  from tile_written [OF assms] obtain cs where cs: "writeTile dir gm i t = Inr cs"
    and e: "emitted cs = Some [(tile_key i, Tbl (tile_table dir gm t))]" by blast
  define rest where "rest =
     (if tile_imageSource t \<noteq> []
        then (Bare ''image'', Val (LStr (relativeFilePath dir (tile_imageSource t))))
             # (if \<not> (fst (tile_size t) = 0 \<and> snd (tile_size t) = 0)
                then [(Bare ''width'', Val (LInt (fst (tile_size t)))),
                      (Bare ''height'', Val (LInt (snd (tile_size t))))]
                else [])
        else [])
     @ (if tile_terrain t \<noteq> 0xFFFFFFFF
        then [(Bare ''terrain'',
               Tbl (map (\<lambda>c. (Positional, Val (LInt (tile_cornerTerrainId t c)))) [0..<4]))]
        else [])
     @ (if tile_terrainProbability t \<noteq> - 1
        then [(Bare ''probability'', Val (LReal (tile_terrainProbability t)))]
        else [])
     @ (case tile_objectGroup t of
          None \<Rightarrow> []
        | Some og \<Rightarrow> [(Quoted (og_name og), Tbl (objectGroup_entries gm 0 og))])
     @ (if tile_frames t \<noteq> []
        then [(Bare ''animation'', Tbl (map frame_entry (tile_frames t)))]
        else [])"
  have t: "tile_table dir gm t
      = (if tile_properties t \<noteq> [] then [properties_entry (tile_properties t)] else [])
        @ rest"
    by (simp add: tile_table_def rest_def)
  have "Bare ''properties'' \<notin> set (keys_of rest)"
    by (auto simp: rest_def keys_of_def split: option.splits)
  with cs e show ?thesis unfolding t by blast
qed

lemma properties_tileLayer:
  assumes "tilelayer_ok lay"
  shows "\<exists>cs pre post. writeTileLayer dir prio lay = Inr cs
     \<and> emitted cs
        = Some [(Quoted (tl_name lay),
                 Tbl (pre @ [properties_entry (tl_properties lay),
                             (Bare ''encoding'', Val (LStr ''lua''))] @ post))]
     \<and> list_all is_scalar pre
     \<and> \<not> list_ex is_scalar post"
proof -
  from tileLayer_written [OF assms] obtain cs where cs: "writeTileLayer dir prio lay = Inr cs"
    and e: "emitted cs = Some [(Quoted (tl_name lay), Tbl (tileLayer_table dir prio lay))]"
    by blast
  define post where "post = special_entries lay
     @ [(Bare ''data'', Tbl (map (row_entry lay) [0..tl_height lay - 1]))]"
  have t: "tileLayer_table dir prio lay
      = tileLayer_scalars dir prio lay
        @ [properties_entry (tl_properties lay), (Bare ''encoding'', Val (LStr ''lua''))]
        @ post"
    by (simp add: tileLayer_table_def post_def)
  have "\<not> list_ex is_scalar post"
    by (simp add: post_def special_entries_def is_scalar_def)
  with cs e scalars_tileLayer [of dir prio lay] show ?thesis unfolding t by blast
qed

lemma properties_objectGroup:
  assumes "group_ok gm og"
  shows "\<exists>cs pre post. writeObjectGroup gm prio og = Inr cs
     \<and> emitted cs
        = Some [(Quoted (og_name og), Tbl (pre @ [properties_entry (og_properties og)] @ post))]
     \<and> list_all is_scalar pre
     \<and> keys_of post = [Bare ''objects'']
     \<and> \<not> list_ex is_scalar post"
proof -
  from objectGroup_written [OF assms] obtain cs where cs: "writeObjectGroup gm prio og = Inr cs"
    and e: "emitted cs = Some [(Quoted (og_name og), Tbl (objectGroup_entries gm prio og))]"
    by blast
  define pre where "pre =
    (if prio = 0 then [] else [(Bare ''prio'', Val (LInt (uint prio)))])
     @ [(Bare ''type'', Val (LStr ''objectgroup'')),
        (Bare ''visible'', Val (LBool (og_visible og))),
        (Bare ''opacity'', Val (LReal (og_opacity og)))]"
  define post where "post =
    [(Bare ''objects'',
      Tbl (map (\<lambda>obj. (Positional, Tbl (mapObject_entries gm obj))) (og_objects og)))]"
  have t: "objectGroup_entries gm prio og = pre @ [properties_entry (og_properties og)] @ post"
    by (simp add: objectGroup_entries_def pre_def post_def)
  have "list_all is_scalar pre" "keys_of post = [Bare ''objects'']"
    "\<not> list_ex is_scalar post"
    by (simp_all add: pre_def post_def keys_of_def is_scalar_def)
  with cs e show ?thesis unfolding t by blast
qed

lemma properties_imageLayer:
  "\<exists>pre. emitted (writeImageLayer dir prio il)
        = Some [(Quoted (il_name il), Tbl (pre @ [properties_entry (il_properties il)]))]
     \<and> list_all is_scalar pre"
  using emits_emitted [OF emits_writeImageLayer [of dir prio il]]
    scalars_imageLayer [of dir prio il]
  by blast

lemma properties_mapObject:
  assumes "object_ok gm obj"
  shows "\<exists>cs pre. writeMapObject gm obj = Inr cs
     \<and> emitted cs = Some [(Positional, Tbl (pre @ [properties_entry (obj_properties obj)]))]
     \<and> list_all (\<lambda>x. is_scalar x \<or> fst x = Bare ''polygon'' \<or> fst x = Bare ''polyline'') pre"
proof -
  from mapObject_table [OF assms] obtain cs where cs: "writeMapObject gm obj = Inr cs"
    and e: "emitted cs = Some [(Positional, Tbl (mapObject_entries gm obj))]" by blast
  define pre where "pre =
     [(Bare ''name'', Val (LStr (obj_name obj))),
      (Bare ''type'', Val (LStr (obj_type obj))),
      (Bare ''shape'', Val (LStr (toString (obj_shape obj)))),
      (Bare ''x'', Val (LReal (obj_x obj))),
      (Bare ''y'', Val (LReal (obj_y obj))),
      (Bare ''width'', Val (LReal (obj_width obj))),
      (Bare ''height'', Val (LReal (obj_height obj))),
      (Bare ''rotation'', Val (LReal (obj_rotation obj)))]
     @ (case cellToGid gm (obj_cell obj) of
          Inl e \<Rightarrow> []
        | Inr g \<Rightarrow> if cell_isEmpty (obj_cell obj) then [] else [(Bare ''gid'', Val (LUInt g))])
     @ [(Bare ''visible'', Val (LBool (obj_visible obj)))]
     @ (if obj_polygon obj \<noteq> []
        then [(Bare (if obj_shape obj = Polygon then ''polygon'' else ''polyline''),
               Tbl (concat (map point_entries (obj_polygon obj))))]
        else [])"
  have t: "mapObject_entries gm obj = pre @ [properties_entry (obj_properties obj)]"
    by (simp add: mapObject_entries_def pre_def)
  have "list_all (\<lambda>x. is_scalar x \<or> fst x = Bare ''polygon'' \<or> fst x = Bare ''polyline'') pre"
    by (simp add: pre_def is_scalar_def split: sum.splits)
  with cs e show ?thesis unfolding t by blast
qed

text \<open>
  C5: A map, a tileset, a tile layer, an object group and a map object on which the
  traversal completes, and every terrain and image layer, is written with a table that
  holds one table under \<open>properties\<close>, with the entity's properties under quoted keys,
  possibly empty. It comes after the entity's scalar fields, with these exceptions: in a
  map the table under \<open>backgroundcolor\<close> comes before it, in a map object the table
  under \<open>polygon\<close> or \<open>polyline\<close> comes before it, and in a tile layer the scalar
  \<open>encoding\<close> follows it. What comes after it otherwise are tables only: \<open>tilesets\<close>
  and \<open>layers\<close> in a map, \<open>terrains\<close> and \<open>tiles\<close> in a tileset, \<open>specialtiles\<close>
  and \<open>data\<close> in a tile layer, \<open>objects\<close> in an object group, nothing in a terrain, an
  image layer and a map object. The table of a tile that is written holds a table under
  the key \<open>properties\<close> only if the tile has properties, and then as its first entry,
  before the tile's scalar fields; the object group of a tile is written under its name
  as a quoted key, whatever the name is.
\<close>

theorem C5_properties_tables:
  "(map_ok m \<longrightarrow>
      (\<exists>r pre post. writeMap e p m = Inr r
         \<and> emitted (fst r)
            = Some [(Returned, Tbl (pre @ [properties_entry (map_properties m)] @ post))]
         \<and> list_all (\<lambda>x. is_scalar x \<or> fst x = Bare ''backgroundcolor'') pre
         \<and> keys_of post = [Bare ''tilesets'', Bare ''layers'']
         \<and> \<not> list_ex is_scalar post))
   \<and> (tileset_ok gm ts \<longrightarrow>
      (\<exists>cs k pre post. writeTileset dir gm ts g = Inr cs
         \<and> emitted cs = Some [(k, Tbl (pre @ [properties_entry (ts_properties ts)] @ post))]
         \<and> list_all is_scalar pre
         \<and> keys_of post = [Bare ''terrains'', Bare ''tiles'']
         \<and> \<not> list_ex is_scalar post))
   \<and> (\<exists>pre. emitted (writeTerrain ter)
            = Some [(Positional, Tbl (pre @ [properties_entry (ter_properties ter)]))]
         \<and> list_all is_scalar pre)
   \<and> (tile_ok gm t \<and> includeTile t \<longrightarrow>
      (\<exists>cs k rest. writeTile dir gm i t = Inr cs
         \<and> emitted cs
            = Some [(k, Tbl ((if tile_properties t \<noteq> []
                              then [properties_entry (tile_properties t)] else []) @ rest))]
         \<and> Bare ''properties'' \<notin> set (keys_of rest)))
   \<and> (tilelayer_ok lay \<longrightarrow>
      (\<exists>cs pre post. writeTileLayer dir prio lay = Inr cs
         \<and> emitted cs
            = Some [(Quoted (tl_name lay),
                     Tbl (pre @ [properties_entry (tl_properties lay),
                                 (Bare ''encoding'', Val (LStr ''lua''))] @ post))]
         \<and> list_all is_scalar pre
         \<and> \<not> list_ex is_scalar post))
   \<and> (group_ok gm og \<longrightarrow>
      (\<exists>cs pre post. writeObjectGroup gm prio og = Inr cs
         \<and> emitted cs
            = Some [(Quoted (og_name og),
                     Tbl (pre @ [properties_entry (og_properties og)] @ post))]
         \<and> list_all is_scalar pre
         \<and> keys_of post = [Bare ''objects'']
         \<and> \<not> list_ex is_scalar post))
   \<and> (\<exists>pre. emitted (writeImageLayer dir prio il)
            = Some [(Quoted (il_name il), Tbl (pre @ [properties_entry (il_properties il)]))]
         \<and> list_all is_scalar pre)
   \<and> (object_ok gm obj \<longrightarrow>
      (\<exists>cs pre. writeMapObject gm obj = Inr cs
         \<and> emitted cs
            = Some [(Positional, Tbl (pre @ [properties_entry (obj_properties obj)]))]
         \<and> list_all (\<lambda>x. is_scalar x \<or> fst x = Bare ''polygon'' \<or> fst x = Bare ''polyline'')
              pre))"
  using properties_map [of m e p] properties_tileset [of gm ts dir g]
    properties_terrain [of ter] properties_tile [of gm t dir i]
    properties_tileLayer [of lay dir prio] properties_objectGroup [of gm og prio]
    properties_imageLayer [of dir prio il] properties_mapObject [of gm obj]
  by (intro conjI impI) simp_all

theorem C5_order_counterexample:
  "written_table (writeTile ''/maps'' [] 2 (ts_tiles example_tileset_three ! 2))
     = [(Bare ''probability'', Val (LReal (1 / 2)))]
   \<and> includeTile (ts_tiles example_tileset_three ! 2)
   \<and> keys_of (written_table (map_sum id fst
         (writeMap example_env example_plugin example_map_full)))
       = [Bare ''version'', Bare ''luaversion'', Bare ''tiledversion'', Bare ''orientation'',
          Bare ''width'', Bare ''height'', Bare ''cellwidth'', Bare ''cellheight'',
          Bare ''nextobjectid'', Bare ''backgroundcolor'', Bare ''properties'',
          Bare ''tilesets'', Bare ''layers'']
   \<and> keys_of (written_table (writeMapObject [] example_polygon_left))
       = [Bare ''name'', Bare ''type'', Bare ''shape'', Bare ''x'', Bare ''y'', Bare ''width'',
          Bare ''height'', Bare ''rotation'', Bare ''visible'', Bare ''polygon'',
          Bare ''properties'']
   \<and> keys_of (written_table (writeTileLayer ''/maps'' 1 example_layer))
       = [Bare ''prio'', Bare ''type'', Bare ''image'', Bare ''x'', Bare ''y'', Bare ''width'',
          Bare ''height'', Bare ''visible'', Bare ''opacity'', Bare ''properties'',
          Bare ''encoding'', Bare ''data'']"
  by code_simp

theorem C5_examples_witness:
  "map_ok example_map_full \<and> tileset_ok [(1, 7)] example_tileset_kinds
   \<and> tile_ok [(1, 7)] (ts_tiles example_tileset_kinds ! 1)
   \<and> includeTile (ts_tiles example_tileset_kinds ! 1)
   \<and> tilelayer_ok example_layer \<and> group_ok [(1, 7)] example_group_left
   \<and> object_ok [] example_polygon_left
   \<and> (\<exists>r pre post. writeMap example_env example_plugin example_map_full = Inr r
       \<and> emitted (fst r) = Some [(Returned, Tbl (pre @ [properties_entry []] @ post))]
       \<and> keys_of post = [Bare ''tilesets'', Bare ''layers''])
   \<and> (\<exists>cs k pre post. writeTileset ''/maps'' [(1, 7)] example_tileset_kinds 2 = Inr cs
       \<and> emitted cs = Some [(k, Tbl (pre @ [properties_entry []] @ post))]
       \<and> keys_of post = [Bare ''terrains'', Bare ''tiles''])
   \<and> (\<exists>cs k rest. writeTile ''/maps'' [(1, 7)] 1 (ts_tiles example_tileset_kinds ! 1) = Inr cs
       \<and> emitted cs = Some [(k, Tbl (properties_entry [(''solid'', ''true'')] # rest))])
   \<and> (\<exists>cs pre post. writeTileLayer ''/maps'' 1 example_layer = Inr cs
       \<and> emitted cs
           = Some [(Quoted ''floor'',
                    Tbl (pre @ [properties_entry [], (Bare ''encoding'', Val (LStr ''lua''))]
                         @ post))])
   \<and> (\<exists>cs pre post. writeObjectGroup [(1, 7)] 1 example_group_left = Inr cs
       \<and> emitted cs = Some [(Quoted ''shapes'', Tbl (pre @ [properties_entry []] @ post))]
       \<and> keys_of post = [Bare ''objects''])
   \<and> (\<exists>cs pre. writeMapObject [] example_polygon_left = Inr cs
       \<and> emitted cs = Some [(Positional, Tbl (pre @ [properties_entry []]))])"
proof -
  have h1: "map_ok example_map_full" by code_simp
  have h2: "tileset_ok [(1, 7)] example_tileset_kinds" by code_simp
  have h3: "tile_ok [(1, 7)] (ts_tiles example_tileset_kinds ! 1)
      \<and> includeTile (ts_tiles example_tileset_kinds ! 1)" by code_simp
  have h4: "tilelayer_ok example_layer" by code_simp
  have h5: "group_ok [(1, 7)] example_group_left" by code_simp
  have h6: "object_ok [] example_polygon_left" by code_simp
  have f: "map_properties example_map_full = []" "ts_properties example_tileset_kinds = []"
    "tile_properties (ts_tiles example_tileset_kinds ! 1) = [(''solid'', ''true'')]"
    "tl_name example_layer = ''floor''" "tl_properties example_layer = []"
    "og_name example_group_left = ''shapes''" "og_properties example_group_left = []"
    "obj_properties example_polygon_left = []"
    by code_simp+
  note T = C5_properties_tables [where e = example_env and p = example_plugin
      and m = example_map_full and dir = "''/maps''" and gm = "[(1, 7)]"
      and ts = example_tileset_kinds and g = 2 and i = 1
      and t = "ts_tiles example_tileset_kinds ! 1" and prio = 1
      and lay = example_layer and og = example_group_left
      and ter = example_terrain and il = example_imagelayer]
  note k1 = T [where obj = example_polygon_left, THEN conjunct1, THEN mp, OF h1]
  note k2 = T [where obj = example_polygon_left, THEN conjunct2, THEN conjunct1, THEN mp, OF h2]
  note k4 = T [where obj = example_polygon_left, THEN conjunct2, THEN conjunct2,
      THEN conjunct2, THEN conjunct1, THEN mp, OF h3]
  note k5 = T [where obj = example_polygon_left, THEN conjunct2, THEN conjunct2,
      THEN conjunct2, THEN conjunct2, THEN conjunct1, THEN mp, OF h4]
  note k6 = T [where obj = example_polygon_left, THEN conjunct2, THEN conjunct2,
      THEN conjunct2, THEN conjunct2, THEN conjunct2, THEN conjunct1, THEN mp, OF h5]
  note k8 = C5_properties_tables [where e = example_env and p = example_plugin
      and m = example_map_full and dir = "''/maps''" and gm = "[]"
      and ts = example_tileset_kinds and g = 2 and i = 1
      and t = "ts_tiles example_tileset_kinds ! 1" and prio = 1
      and lay = example_layer and og = example_group_left
      and ter = example_terrain and il = example_imagelayer and obj = example_polygon_left,
      THEN conjunct2, THEN conjunct2, THEN conjunct2, THEN conjunct2,
      THEN conjunct2, THEN conjunct2, THEN conjunct2, THEN mp, OF h6]
  have c1: "\<exists>r pre post. writeMap example_env example_plugin example_map_full = Inr r
       \<and> emitted (fst r) = Some [(Returned, Tbl (pre @ [properties_entry []] @ post))]
       \<and> keys_of post = [Bare ''tilesets'', Bare ''layers'']"
    using k1 unfolding f by blast
  have c2: "\<exists>cs k pre post. writeTileset ''/maps'' [(1, 7)] example_tileset_kinds 2 = Inr cs
       \<and> emitted cs = Some [(k, Tbl (pre @ [properties_entry []] @ post))]
       \<and> keys_of post = [Bare ''terrains'', Bare ''tiles'']"
    using k2 unfolding f by blast
  have c3: "\<exists>cs k rest. writeTile ''/maps'' [(1, 7)] 1 (ts_tiles example_tileset_kinds ! 1) = Inr cs
       \<and> emitted cs = Some [(k, Tbl (properties_entry [(''solid'', ''true'')] # rest))]"
    using k4 unfolding f by auto
  have c4: "\<exists>cs pre post. writeTileLayer ''/maps'' 1 example_layer = Inr cs
       \<and> emitted cs
           = Some [(Quoted ''floor'',
                    Tbl (pre @ [properties_entry [], (Bare ''encoding'', Val (LStr ''lua''))]
                         @ post))]"
    using k5 unfolding f by blast
  have c5: "\<exists>cs pre post. writeObjectGroup [(1, 7)] 1 example_group_left = Inr cs
       \<and> emitted cs = Some [(Quoted ''shapes'', Tbl (pre @ [properties_entry []] @ post))]
       \<and> keys_of post = [Bare ''objects'']"
    using k6 unfolding f by blast
  have c6: "\<exists>cs pre. writeMapObject [] example_polygon_left = Inr cs
       \<and> emitted cs = Some [(Positional, Tbl (pre @ [properties_entry []]))]"
    using k8 unfolding f by blast
  from h1 h2 h3 h4 h5 h6 c1 c2 c3 c4 c5 c6 show ?thesis by blast
qed


subsection \<open>Writing the file\<close>

lemma writeMap_mapDir:
  assumes "mMapDir p1 = mMapDir p2"
  shows "map_sum id fst (writeMap e p1 m) = map_sum id fst (writeMap e p2 m)"
  using assms by (simp add: writeMap_def split: sum.splits)

lemma write_on_working_device:
  assumes "map_ok m" and "device_ok dev"
  shows "\<exists>r. writeMap e (p\<lparr>mMapDir := fileInfo_path f\<rparr>) m = Inr r
     \<and> LuaPlugin_write e dev fs p m f
         = (Inr True, snd r, fs(f \<mapsto> StartDocument # fst r @ [EndDocument]))"
proof -
  from assms(1) obtain r where r: "writeMap e (p\<lparr>mMapDir := fileInfo_path f\<rparr>) m = Inr r"
    using writeMap_complete [of e "p\<lparr>mMapDir := fileInfo_path f\<rparr>" m] by blast
  with assms(2) show ?thesis
    by (simp add: LuaPlugin_write_def device_ok_def file_open_def file_written_def
        file_commit_def)
qed

lemma write_success:
  assumes "LuaPlugin_write e dev fs p m f = (Inr True, q, gs)"
  shows "\<exists>r. writeMap e (p\<lparr>mMapDir := fileInfo_path f\<rparr>) m = Inr r
     \<and> gs = fs(f \<mapsto> StartDocument # fst r @ [EndDocument])"
  using assms
  by (auto simp: LuaPlugin_write_def file_open_def file_written_def file_commit_def
      file_abandoned_def split: if_splits sum.splits option.splits)

text \<open>
  C8: For two file names in the same directory, the traversal of a map by any two plugin
  objects, in any state, makes the same calls on the writer or stops alike, and any two
  exports that succeed leave the same document in the two files. When the traversal
  completes and nothing fails on the devices, the two exports do succeed, and exporting
  once more to the first file name, with the plugin object as the first export left it,
  succeeds and leaves the files as they are.
\<close>

theorem C8_same_directory_same_document:
  assumes "fileInfo_path f1 = fileInfo_path f2"
  shows "map_sum id fst (writeMap e (p1\<lparr>mMapDir := fileInfo_path f1\<rparr>) m)
           = map_sum id fst (writeMap e (p2\<lparr>mMapDir := fileInfo_path f2\<rparr>) m)
     \<and> (LuaPlugin_write e dev1 fs1 p1 m f1 = (Inr True, q1, gs1)
          \<and> LuaPlugin_write e dev2 fs2 p2 m f2 = (Inr True, q2, gs2) \<longrightarrow>
          gs1 f1 = gs2 f2 \<and> gs1 f1 \<noteq> None)
     \<and> (map_ok m \<and> device_ok dev1 \<and> device_ok dev2 \<longrightarrow>
          (\<exists>doc q1 q2 q3.
              LuaPlugin_write e dev1 fs1 p1 m f1 = (Inr True, q1, fs1(f1 \<mapsto> doc))
            \<and> LuaPlugin_write e dev2 fs2 p2 m f2 = (Inr True, q2, fs2(f2 \<mapsto> doc))
            \<and> LuaPlugin_write e dev2 (fs1(f1 \<mapsto> doc)) q1 m f1
                = (Inr True, q3, fs1(f1 \<mapsto> doc))))"
proof (intro conjI impI)
  show eq: "map_sum id fst (writeMap e (p1\<lparr>mMapDir := fileInfo_path f1\<rparr>) m)
           = map_sum id fst (writeMap e (p2\<lparr>mMapDir := fileInfo_path f2\<rparr>) m)"
    by (rule writeMap_mapDir) (simp add: assms)
  {
    assume s: "LuaPlugin_write e dev1 fs1 p1 m f1 = (Inr True, q1, gs1)
          \<and> LuaPlugin_write e dev2 fs2 p2 m f2 = (Inr True, q2, gs2)"
    from write_success [of e dev1 fs1 p1 m f1 q1 gs1] s obtain r1
      where r1: "writeMap e (p1\<lparr>mMapDir := fileInfo_path f1\<rparr>) m = Inr r1"
        and g1: "gs1 = fs1(f1 \<mapsto> StartDocument # fst r1 @ [EndDocument])" by blast
    from write_success [of e dev2 fs2 p2 m f2 q2 gs2] s obtain r2
      where r2: "writeMap e (p2\<lparr>mMapDir := fileInfo_path f2\<rparr>) m = Inr r2"
        and g2: "gs2 = fs2(f2 \<mapsto> StartDocument # fst r2 @ [EndDocument])" by blast
    from eq r1 r2 have "fst r1 = fst r2" by simp
    with g1 g2 show "gs1 f1 = gs2 f2" and "gs1 f1 \<noteq> None" by simp_all
  }
  assume a: "map_ok m \<and> device_ok dev1 \<and> device_ok dev2"
  from write_on_working_device [where m = m and dev = dev1 and e = e and p = p1 and f = f1 and fs = fs1] a obtain r1
    where r1: "writeMap e (p1\<lparr>mMapDir := fileInfo_path f1\<rparr>) m = Inr r1"
      and w1: "LuaPlugin_write e dev1 fs1 p1 m f1
         = (Inr True, snd r1, fs1(f1 \<mapsto> StartDocument # fst r1 @ [EndDocument]))" by blast
  from write_on_working_device [where m = m and dev = dev2 and e = e and p = p2 and f = f2 and fs = fs2] a obtain r2
    where r2: "writeMap e (p2\<lparr>mMapDir := fileInfo_path f2\<rparr>) m = Inr r2"
      and w2: "LuaPlugin_write e dev2 fs2 p2 m f2
         = (Inr True, snd r2, fs2(f2 \<mapsto> StartDocument # fst r2 @ [EndDocument]))" by blast
  define gs1 where "gs1 = fs1(f1 \<mapsto> StartDocument # fst r1 @ [EndDocument])"
  from write_on_working_device [where m = m and dev = dev2 and e = e and p = "snd r1" and f = f1
      and fs = gs1] a obtain r3
    where r3: "writeMap e ((snd r1)\<lparr>mMapDir := fileInfo_path f1\<rparr>) m = Inr r3"
      and w3: "LuaPlugin_write e dev2 gs1 (snd r1) m f1
         = (Inr True, snd r3, gs1(f1 \<mapsto> StartDocument # fst r3 @ [EndDocument]))" by blast
  from eq r1 r2 have e12: "fst r1 = fst r2" by simp
  have "map_sum id fst (writeMap e ((snd r1)\<lparr>mMapDir := fileInfo_path f1\<rparr>) m)
      = map_sum id fst (writeMap e (p1\<lparr>mMapDir := fileInfo_path f1\<rparr>) m)"
    by (rule writeMap_mapDir) simp
  with r1 r3 have e13: "fst r3 = fst r1" by simp
  have "gs1(f1 \<mapsto> StartDocument # fst r3 @ [EndDocument]) = gs1"
    by (simp add: gs1_def e13)
  with w3 have w3': "LuaPlugin_write e dev2 gs1 (snd r1) m f1 = (Inr True, snd r3, gs1)"
    by simp
  from w1 w2 w3' show "\<exists>doc q1 q2 q3.
              LuaPlugin_write e dev1 fs1 p1 m f1 = (Inr True, q1, fs1(f1 \<mapsto> doc))
            \<and> LuaPlugin_write e dev2 fs2 p2 m f2 = (Inr True, q2, fs2(f2 \<mapsto> doc))
            \<and> LuaPlugin_write e dev2 (fs1(f1 \<mapsto> doc)) q1 m f1
                = (Inr True, q3, fs1(f1 \<mapsto> doc))"
    unfolding gs1_def e12 by blast
qed

theorem C8_same_directory_witness:
  "fileInfo_path ''/maps/a.lua'' = fileInfo_path ''/maps/b.lua''
   \<and> map_ok example_map_full \<and> device_ok ok_device
   \<and> (\<exists>doc q1 q2 q3.
         LuaPlugin_write example_env ok_device example_files example_plugin
            example_map_full ''/maps/a.lua''
           = (Inr True, q1, example_files(''/maps/a.lua'' \<mapsto> doc))
       \<and> LuaPlugin_write example_env ok_device example_files
            (example_plugin\<lparr>mGidMapper := [(1, 9)]\<rparr>) example_map_full ''/maps/b.lua''
           = (Inr True, q2, example_files(''/maps/b.lua'' \<mapsto> doc))
       \<and> LuaPlugin_write example_env ok_device (example_files(''/maps/a.lua'' \<mapsto> doc)) q1
            example_map_full ''/maps/a.lua''
           = (Inr True, q3, example_files(''/maps/a.lua'' \<mapsto> doc)))"
proof -
  have d: "fileInfo_path ''/maps/a.lua'' = fileInfo_path ''/maps/b.lua''" by code_simp
  have a: "map_ok example_map_full" by code_simp
  have b: "device_ok ok_device" by code_simp
  note T = C8_same_directory_same_document [OF d, where e = example_env
      and ?p1.0 = example_plugin and m = example_map_full
      and ?p2.0 = "example_plugin\<lparr>mGidMapper := [(1, 9)]\<rparr>"
      and ?dev1.0 = ok_device and ?dev2.0 = ok_device and ?fs1.0 = example_files
      and ?fs2.0 = example_files and ?q1.0 = example_plugin and ?gs1.0 = example_files
      and ?q2.0 = example_plugin and ?gs2.0 = example_files]
  from T [THEN conjunct2, THEN conjunct2] a b d
  show ?thesis by blast
qed

theorem C8_other_directory_counterexample:
  "fst (LuaPlugin_write example_env ok_device example_files example_plugin
            example_map_image ''/maps/a.lua'') = Inr True
   \<and> fst (LuaPlugin_write example_env ok_device example_files example_plugin
            example_map_image ''/maps/img/a.lua'') = Inr True
   \<and> snd (snd (LuaPlugin_write example_env ok_device example_files example_plugin
            example_map_image ''/maps/a.lua'')) ''/maps/a.lua''
       \<noteq> snd (snd (LuaPlugin_write example_env ok_device example_files example_plugin
            example_map_image ''/maps/img/a.lua'')) ''/maps/img/a.lua''"
  by code_simp

text \<open>
  C9: Whatever \<^verbatim>\<open>write\<close> does, it changes no file but the one at the output path.
  When it returns success, the traversal has completed and the file at the output path
  holds the whole new document in place of what it held before. When it returns failure,
  the plugin's error string is the message that the file could not be opened or the
  error string that the file reported. It returns, with success or failure, whenever the
  traversal of the map completes, and with success when moreover nothing fails on the
  device. Built with \<^verbatim>\<open>QSaveFile\<close> (Qt 5.1 or later), it leaves every file as it
  was unless it returns success. Built without, it leaves in the file at the output path
  what has reached the file, once the file was opened, unless it returns success.
\<close>

theorem C9_write_outcomes:
  assumes "LuaPlugin_write e dev fs p m f = (res, q, gs)"
  shows "(res = Inr True \<longrightarrow>
            (\<exists>r. writeMap e (p\<lparr>mMapDir := fileInfo_path f\<rparr>) m = Inr r
               \<and> gs = fs(f \<mapsto> StartDocument # fst r @ [EndDocument])))
     \<and> (res = Inr False \<longrightarrow>
            mError q = tr e ''Could not open file for writing.''
            \<or> dev_error dev = Some (mError q)
            \<or> dev_commit_error dev = Some (mError q))
     \<and> (\<forall>g. g \<noteq> f \<longrightarrow> gs g = fs g)
     \<and> (map_ok m \<longrightarrow> res = Inr True \<or> res = Inr False)
     \<and> (map_ok m \<and> device_ok dev \<longrightarrow> res = Inr True)
     \<and> (HAS_QSAVEFILE_SUPPORT e \<and> res \<noteq> Inr True \<longrightarrow> gs = fs)
     \<and> (\<not> dev_open dev \<longrightarrow> res = Inr False \<and> gs = fs)
     \<and> (\<not> HAS_QSAVEFILE_SUPPORT e \<and> dev_open dev \<and> res \<noteq> Inr True \<longrightarrow>
            gs = fs(f \<mapsto> dev_reached dev))"
proof -
  have c: "map_ok m \<Longrightarrow> \<exists>r. writeMap e (p\<lparr>mMapDir := fileInfo_path f\<rparr>) m = Inr r"
    using writeMap_complete [of e "p\<lparr>mMapDir := fileInfo_path f\<rparr>" m] by blast
  have 1: "res = Inr True \<longrightarrow>
            (\<exists>r. writeMap e (p\<lparr>mMapDir := fileInfo_path f\<rparr>) m = Inr r
               \<and> gs = fs(f \<mapsto> StartDocument # fst r @ [EndDocument]))"
    using assms
    by (auto simp: LuaPlugin_write_def file_open_def file_written_def file_commit_def
        file_abandoned_def split: if_splits sum.splits option.splits)
  have 2: "res = Inr False \<longrightarrow>
            mError q = tr e ''Could not open file for writing.''
            \<or> dev_error dev = Some (mError q)
            \<or> dev_commit_error dev = Some (mError q)"
    using assms
    by (auto simp: LuaPlugin_write_def file_open_def file_written_def file_commit_def
        file_abandoned_def split: if_splits sum.splits option.splits)
  have 3: "\<forall>g. g \<noteq> f \<longrightarrow> gs g = fs g"
    using assms
    by (auto simp: LuaPlugin_write_def file_open_def file_written_def file_commit_def
        file_abandoned_def split: if_splits sum.splits option.splits)
  have 4: "map_ok m \<longrightarrow> res = Inr True \<or> res = Inr False"
    using assms c
    by (auto simp: LuaPlugin_write_def file_open_def file_written_def file_commit_def
        file_abandoned_def split: if_splits sum.splits option.splits)
  have 5: "map_ok m \<and> device_ok dev \<longrightarrow> res = Inr True"
    using assms write_on_working_device [where m = m and dev = dev and e = e and p = p and f = f and fs = fs] by auto
  have 6: "HAS_QSAVEFILE_SUPPORT e \<and> res \<noteq> Inr True \<longrightarrow> gs = fs"
    using assms
    by (auto simp: LuaPlugin_write_def file_open_def file_written_def file_commit_def
        file_abandoned_def split: if_splits sum.splits option.splits)
  have 7: "\<not> dev_open dev \<longrightarrow> res = Inr False \<and> gs = fs"
    using assms by (auto simp: LuaPlugin_write_def file_open_def)
  have 8: "\<not> HAS_QSAVEFILE_SUPPORT e \<and> dev_open dev \<and> res \<noteq> Inr True \<longrightarrow>
            gs = fs(f \<mapsto> dev_reached dev)"
    using assms
    by (auto simp: LuaPlugin_write_def file_open_def file_written_def file_commit_def
        file_abandoned_def split: if_splits sum.splits option.splits)
  from 1 2 3 4 5 6 7 8 show ?thesis by blast
qed

theorem C9_outcomes_witness:
  "HAS_QSAVEFILE_SUPPORT example_env \<and> map_ok example_map_full \<and> device_ok ok_device
   \<and> (\<exists>q. LuaPlugin_write example_env failing_device example_files example_plugin
            example_map_full ''/maps/a.lua'' = (Inr False, q, example_files)
          \<and> mError q = ''No space left on device'')
   \<and> (\<exists>r q. writeMap example_env (example_plugin\<lparr>mMapDir := fileInfo_path ''/maps/a.lua''\<rparr>)
              example_map_full = Inr r
          \<and> LuaPlugin_write example_env ok_device example_files example_plugin
              example_map_full ''/maps/a.lua''
            = (Inr True, q,
               example_files(''/maps/a.lua'' \<mapsto> StartDocument # fst r @ [EndDocument])))
   \<and> (\<exists>q. LuaPlugin_write (example_env\<lparr>HAS_QSAVEFILE_SUPPORT := False\<rparr>) failing_device
            example_files example_plugin example_map_full ''/maps/a.lua''
          = (Inr False, q,
             example_files(''/maps/a.lua'' \<mapsto> [StartDocument, StartReturnTable])))"
proof -
  have a: "HAS_QSAVEFILE_SUPPORT example_env" by code_simp
  have m: "map_ok example_map_full" by code_simp
  have d: "device_ok ok_device" by code_simp
  have n: "\<not> HAS_QSAVEFILE_SUPPORT (example_env\<lparr>HAS_QSAVEFILE_SUPPORT := False\<rparr>)" by simp
  have o: "dev_open failing_device" "dev_reached failing_device = [StartDocument, StartReturnTable]"
    by (simp_all add: failing_device_def)
  have b: "fst (LuaPlugin_write example_env failing_device example_files example_plugin
            example_map_full ''/maps/a.lua'') = Inr False" by code_simp
  have c: "mError (fst (snd (LuaPlugin_write example_env failing_device example_files
            example_plugin example_map_full ''/maps/a.lua''))) = ''No space left on device''"
    by code_simp
  have b': "fst (LuaPlugin_write (example_env\<lparr>HAS_QSAVEFILE_SUPPORT := False\<rparr>) failing_device
            example_files example_plugin example_map_full ''/maps/a.lua'') = Inr False"
    by code_simp
  obtain q1 gs1 where h1: "LuaPlugin_write example_env failing_device example_files
      example_plugin example_map_full ''/maps/a.lua'' = (Inr False, q1, gs1)"
    using b by (cases "LuaPlugin_write example_env failing_device example_files
      example_plugin example_map_full ''/maps/a.lua''") auto
  obtain res2 q2 gs2 where h2: "LuaPlugin_write example_env ok_device example_files
      example_plugin example_map_full ''/maps/a.lua'' = (res2, q2, gs2)"
    by (cases "LuaPlugin_write example_env ok_device example_files
      example_plugin example_map_full ''/maps/a.lua''") auto
  obtain q3 gs3 where h3: "LuaPlugin_write (example_env\<lparr>HAS_QSAVEFILE_SUPPORT := False\<rparr>)
      failing_device example_files example_plugin example_map_full ''/maps/a.lua''
        = (Inr False, q3, gs3)"
    using b' by (cases "LuaPlugin_write (example_env\<lparr>HAS_QSAVEFILE_SUPPORT := False\<rparr>)
      failing_device example_files example_plugin example_map_full ''/maps/a.lua''") auto
  from C9_write_outcomes [OF h1] a have g1: "gs1 = example_files" by simp
  from c h1 have e1: "mError q1 = ''No space left on device''" by simp
  from C9_write_outcomes [OF h2] m d have r2: "res2 = Inr True" by blast
  with C9_write_outcomes [OF h2] obtain r
    where r: "writeMap example_env (example_plugin\<lparr>mMapDir := fileInfo_path ''/maps/a.lua''\<rparr>)
              example_map_full = Inr r"
      and g2: "gs2 = example_files(''/maps/a.lua'' \<mapsto> StartDocument # fst r @ [EndDocument])"
    by blast
  from C9_write_outcomes [OF h3] n o
  have g3: "gs3 = example_files(''/maps/a.lua'' \<mapsto> [StartDocument, StartReturnTable])"
    by simp
  from a m d h1 g1 e1 h2 r2 r g2 h3 g3 show ?thesis by blast
qed

theorem C9_QFile_counterexample:
  "fst (LuaPlugin_write (example_env\<lparr>HAS_QSAVEFILE_SUPPORT := False\<rparr>) failing_device
          example_files example_plugin example_map_opaque ''/maps/a.lua'') = Inr False
   \<and> snd (snd (LuaPlugin_write (example_env\<lparr>HAS_QSAVEFILE_SUPPORT := False\<rparr>) failing_device
          example_files example_plugin example_map_opaque ''/maps/a.lua'')) ''/maps/a.lua''
       = Some [StartDocument, StartReturnTable]
   \<and> example_files ''/maps/a.lua'' = Some [StartDocument, EndDocument]
   \<and> fst (LuaPlugin_write example_env ok_device example_files example_plugin
          example_map_third ''/maps/a.lua'') = Inl NoSuchTile"
  by code_simp

end
